(* ===== verification/Prelude.thy ===== *)
theory Prelude
  imports Main "HOL-Library.Word" "HOL-Library.Monad_Syntax"
begin

text \<open>
  Shared vocabulary of the development: the machine integer types of the C and C++
  sources, C's truncating division, and the generic lemmas on words and lists that the
  component theories use.  Two collections steer the automation:
  \<open>heap_simps\<close> (facts about the pointer heap of the linked lists) and
  \<open>bits_simps\<close> (bit-level facts about handles and flag words).
\<close>

named_theorems heap_simps \<open>rewriting facts about the cell heap of the linked lists\<close>
named_theorems bits_simps \<open>bit-level facts about sensor handles and flag words\<close>

unbundle bit_operations_syntax

section \<open>Machine integers\<close>

type_synonym u8 = "8 word"
type_synonym u16 = "16 word"
type_synonym u32 = "32 word"
type_synonym u64 = "64 word"

text \<open>
  Signed C values whose operations stay inside their range are read as \<open>int\<close>; the
  range predicates name the type they come from.
\<close>

definition int32_range :: "int \<Rightarrow> bool" where
  "int32_range i \<longleftrightarrow> - (2 ^ 31) \<le> i \<and> i < 2 ^ 31"

definition int64_range :: "int \<Rightarrow> bool" where
  "int64_range i \<longleftrightarrow> - (2 ^ 63) \<le> i \<and> i < 2 ^ 63"

text \<open>C's integer division truncates towards zero (HOL's \<open>div\<close> rounds down).\<close>

definition c_div :: "int \<Rightarrow> int \<Rightarrow> int" where
  "c_div a b = sgn a * sgn b * (\<bar>a\<bar> div \<bar>b\<bar>)"

lemma c_div_nonneg [simp]: "0 \<le> a \<Longrightarrow> 0 < b \<Longrightarrow> c_div a b = a div b"
  by (cases "a = 0") (auto simp: c_div_def)

lemma c_div_small: "\<bar>a\<bar> < b \<Longrightarrow> c_div a b = 0"
  by (simp add: c_div_def)

section \<open>Words\<close>

lemma unat_Suc_word:
  fixes w :: "'a::len word"
  shows "w < v \<Longrightarrow> unat (w + 1) = Suc (unat w)"
  by unat_arith

lemma unat_pred_word:
  fixes w :: "'a::len word"
  shows "w \<noteq> 0 \<Longrightarrow> unat (w - 1) = unat w - 1"
  by (simp add: unat_minus_one)

lemma word_eq_of_unat:
  fixes w v :: "'a::len word"
  shows "w = v \<longleftrightarrow> unat w = unat v"
  by (simp add: word_unat_eq_iff)

lemma uint_of_unat:
  fixes w :: "'a::len word"
  shows "unat w = n \<Longrightarrow> uint w = int n"
  using of_nat_unat [of w, where 'a = int] by simp

lemma unat_pred_less:
  fixes w :: "'a::len word"
  shows "w \<noteq> 0 \<Longrightarrow> unat (w - 1) < unat w"
  by (simp add: unat_minus_one unat_gt_0)

section \<open>Lists\<close>

lemma tl_append_single: "xs \<noteq> [] \<Longrightarrow> tl xs @ [x] = tl (xs @ [x])"
  by simp

lemma drop_Suc_tl: "drop (Suc n) xs = drop n (tl xs)"
  by (simp add: drop_Suc)

lemma last_drop_append: "n < length xs \<Longrightarrow> last (drop n xs) = last xs"
  by simp

lemma hd_take_tl: "xs \<noteq> [] \<Longrightarrow> hd xs # tl xs = xs"
  by simp

end
