(* ===== verification/Simple_List.thy ===== *)
theory Simple_List
  imports Prelude
begin

text \<open>
  The component \<open>BoschSimpleList\<close> (\<open>legacy/sensord/boschsimple_list.cpp\<close>): a singly linked
  list of data pointers with a length and an upper limit, whose oldest element is dropped when
  the limit is exceeded.  The nodes live in an explicit cell heap, so that every pointer the
  code follows may be dangling: an operation is \<open>None\<close> exactly when it dereferences
  a null or freed pointer.  The theory ends with the functional contract of the list (a bounded
  queue), the proof that the pointer program implements it, and the locale of bounded queues
  with its interpretation on the pointer program.
\<close>

section \<open>The heap and the object\<close>

text \<open>\<open>struct list_node\<close>, and the heap that \<open>malloc\<close>/\<open>free\<close> manage.  \<open>freed\<close> records the
  payloads given to \<open>free\<close>, in order.\<close>

record 'd list_node =
  next_node :: "nat option"
  p_data :: 'd

record 'd heap =
  cells :: "nat \<Rightarrow> 'd list_node option"
  brk :: nat
  freed :: "'d list"

record slist =
  head :: "nat option"
  tail :: "nat option"
  list_len :: u32
  uplimit :: u32

definition empty_heap :: "'d heap" where
  "empty_heap = \<lparr>cells = (\<lambda>_. None), brk = 0, freed = []\<rparr>"

definition DEFAULT_LIST_LEN :: u32 where
  "DEFAULT_LIST_LEN = 128"

text \<open>\<open>malloc(sizeof(struct list_node))\<close>: a fresh address, or NULL when \<open>ok\<close> is false.\<close>

definition malloc_node :: "bool \<Rightarrow> 'd heap \<Rightarrow> nat option \<times> 'd heap" where
  "malloc_node ok h = (if ok then (Some (brk h), h\<lparr>brk := Suc (brk h)\<rparr>) else (None, h))"

definition free_node :: "nat \<Rightarrow> 'd heap \<Rightarrow> 'd heap" where
  "free_node a h = h\<lparr>cells := (cells h)(a := None)\<rparr>"

text \<open>\<open>free(pdata)\<close>; freeing NULL does nothing.\<close>

definition free_data :: "'d option \<Rightarrow> 'd heap \<Rightarrow> 'd heap" where
  "free_data d h = (case d of None \<Rightarrow> h | Some x \<Rightarrow> h\<lparr>freed := freed h @ [x]\<rparr>)"

section \<open>The operations\<close>

definition set_uplimit :: "u32 \<Rightarrow> slist \<Rightarrow> slist" where
  "set_uplimit limit l = l\<lparr>uplimit := (if limit = 0 then 1 else limit)\<rparr>"

definition new_list :: slist where
  "new_list = set_uplimit DEFAULT_LIST_LEN
     \<lparr>head = None, tail = None, list_len = 0, uplimit = 0\<rparr>"

definition list_get_headdata :: "'d heap \<Rightarrow> slist \<Rightarrow> ('d option \<times> 'd heap \<times> slist) option" where
  "list_get_headdata h l =
     (if list_len l = 0 then Some (None, h, l)
      else do {
        cur \<leftarrow> head l;
        nd \<leftarrow> cells h cur;
        Some (Some (p_data nd), free_node cur h,
              l\<lparr>head := next_node nd, list_len := list_len l - 1\<rparr>)
      })"

text \<open>The full list drops its oldest element first and answers \<open>-2\<close>.\<close>

definition drop_oldest_if_full :: "'d heap \<Rightarrow> slist \<Rightarrow> (int \<times> 'd heap \<times> slist) option" where
  "drop_oldest_if_full h l =
     (if list_len l = uplimit l
      then do {
        (del, h1, l1) \<leftarrow> list_get_headdata h l;
        Some (-2, free_data del h1, l1)
      }
      else Some (0, h, l))"

definition link_rear :: "nat \<Rightarrow> 'd heap \<Rightarrow> slist \<Rightarrow> ('d heap \<times> slist) option" where
  "link_rear nod h l =
     (case head l of
        None \<Rightarrow> Some (h, l\<lparr>tail := Some nod, head := Some nod\<rparr>)
      | Some _ \<Rightarrow> do {
          t \<leftarrow> tail l;
          tn \<leftarrow> cells h t;
          Some (h\<lparr>cells := (cells h)(t \<mapsto> tn\<lparr>next_node := Some nod\<rparr>)\<rparr>,
                l\<lparr>tail := Some nod\<rparr>)
        })"

definition list_add_rear ::
  "bool \<Rightarrow> 'd \<Rightarrow> 'd heap \<Rightarrow> slist \<Rightarrow> (int \<times> 'd heap \<times> slist) option" where
  "list_add_rear ok pdata h l =
     (case malloc_node ok h of
        (None, h0) \<Rightarrow> Some (-1, h0, l)
      | (Some nod, h0) \<Rightarrow> do {
          (ret, h1, l1) \<leftarrow> drop_oldest_if_full h0 l;
          let h2 = h1\<lparr>cells := (cells h1)(nod \<mapsto> \<lparr>next_node = None, p_data = pdata\<rparr>)\<rparr>;
          (h3, l2) \<leftarrow> link_rear nod h2 l1;
          Some (ret, h3, l2\<lparr>list_len := list_len l2 + 1\<rparr>)
        })"

lemma list_get_headdata_len:
  "list_get_headdata h l = Some (d, h', l') \<Longrightarrow> list_len l \<noteq> 0 \<Longrightarrow>
     list_len l' = list_len l - 1 \<and> uplimit l' = uplimit l"
  by (auto simp: list_get_headdata_def bind_eq_Some_conv)

lemma list_get_headdata_measure:
  "list_get_headdata h l = Some (d, h', l') \<Longrightarrow> list_len l \<noteq> 0 \<Longrightarrow>
     unat (list_len l') < unat (list_len l)"
  using list_get_headdata_len [of h l d h' l'] by (simp add: unat_pred_less)

text \<open>The two loops: dropping down to the limit, and emptying the list.\<close>

function truncate_to_uplimit ::
  "int \<Rightarrow> 'd heap \<Rightarrow> slist \<Rightarrow> (int \<times> 'd heap \<times> slist) option" where
  "truncate_to_uplimit ret h l =
     (if list_len l > uplimit l
      then (case list_get_headdata h l of
              None \<Rightarrow> None
            | Some (d, h1, l1) \<Rightarrow> truncate_to_uplimit (-1) (free_data d h1) l1)
      else Some (ret, h, l))"
  by pat_completeness auto
termination
  by (relation "measure (\<lambda>(ret, h, l). unat (list_len l))")
     (auto dest!: list_get_headdata_measure)

declare truncate_to_uplimit.simps [simp del]

definition list_mount_rear ::
  "'d heap \<Rightarrow> slist \<Rightarrow> slist option \<Rightarrow> (int \<times> 'd heap \<times> slist \<times> slist option) option" where
  "list_mount_rear h l mnt =
     (case mnt of
        None \<Rightarrow> Some (0, h, l, mnt)
      | Some m \<Rightarrow>
          if list_len m = 0 then Some (0, h, l, mnt)
          else do {
            (h1, l1) \<leftarrow>
              (case head l of
                 None \<Rightarrow> Some (h, l\<lparr>head := head m, tail := tail m\<rparr>)
               | Some _ \<Rightarrow> do {
                   t \<leftarrow> tail l;
                   tn \<leftarrow> cells h t;
                   Some (h\<lparr>cells := (cells h)(t \<mapsto> tn\<lparr>next_node := head m\<rparr>)\<rparr>,
                         l\<lparr>tail := tail m\<rparr>)
                 });
            let l2 = l1\<lparr>list_len := list_len l1 + list_len m\<rparr>;
            let m1 = m\<lparr>head := None, tail := None, list_len := 0\<rparr>;
            (ret, h3, l3) \<leftarrow> truncate_to_uplimit 0 h1 l2;
            Some (ret, h3, l3, Some m1)
          })"

function list_clean :: "'d heap \<Rightarrow> slist \<Rightarrow> (int \<times> 'd heap \<times> slist) option" where
  "list_clean h l =
     (if list_len l \<noteq> 0
      then (case list_get_headdata h l of
              None \<Rightarrow> None
            | Some (d, h1, l1) \<Rightarrow> list_clean (free_data d h1) l1)
      else Some (0, h, l))"
  by pat_completeness auto
termination
  by (relation "measure (\<lambda>(h, l). unat (list_len l))")
     (auto dest!: list_get_headdata_measure)

declare list_clean.simps [simp del]

section \<open>Well-formed lists\<close>

text \<open>\<open>path c p as xs q\<close>: following \<open>next\<close> from \<open>p\<close> visits the nodes \<open>as\<close>, which carry the
  payloads \<open>xs\<close>, and arrives at \<open>q\<close>.\<close>

fun path ::
  "(nat \<Rightarrow> 'd list_node option) \<Rightarrow> nat option \<Rightarrow> nat list \<Rightarrow> 'd list \<Rightarrow> nat option \<Rightarrow> bool"
where
  "path c p [] [] q \<longleftrightarrow> p = q"
| "path c p (a # as) (x # xs) q \<longleftrightarrow>
     p = Some a \<and>
     (case c a of None \<Rightarrow> False
      | Some nd \<Rightarrow> p_data nd = x \<and> path c (next_node nd) as xs q)"
| "path c p _ _ q \<longleftrightarrow> False"

text \<open>The list object \<open>l\<close> owns exactly the nodes \<open>as\<close> and holds \<open>xs\<close>.  A non-empty list's
  tail is its last node; the tail of an empty list may be obsolete.\<close>

definition slist_at :: "'d heap \<Rightarrow> slist \<Rightarrow> nat list \<Rightarrow> 'd list \<Rightarrow> bool" where
  "slist_at h l as xs \<longleftrightarrow>
     path (cells h) (head l) as xs None \<and> distinct as \<and> (\<forall>a\<in>set as. a < brk h) \<and>
     unat (list_len l) = length xs \<and> uplimit l \<noteq> 0 \<and>
     (as \<noteq> [] \<longrightarrow> tail l = Some (last as))"

text \<open>The nodes and payloads found by following at most \<open>n\<close> links.\<close>

fun addrs_from :: "nat \<Rightarrow> (nat \<Rightarrow> 'd list_node option) \<Rightarrow> nat option \<Rightarrow> nat list" where
  "addrs_from 0 c p = []"
| "addrs_from (Suc n) c None = []"
| "addrs_from (Suc n) c (Some a) =
     (case c a of None \<Rightarrow> [] | Some nd \<Rightarrow> a # addrs_from n c (next_node nd))"

fun vals_from :: "nat \<Rightarrow> (nat \<Rightarrow> 'd list_node option) \<Rightarrow> nat option \<Rightarrow> 'd list" where
  "vals_from 0 c p = []"
| "vals_from (Suc n) c None = []"
| "vals_from (Suc n) c (Some a) =
     (case c a of None \<Rightarrow> [] | Some nd \<Rightarrow> p_data nd # vals_from n c (next_node nd))"

definition addrs :: "'d heap \<Rightarrow> slist \<Rightarrow> nat list" where
  "addrs h l = addrs_from (unat (list_len l)) (cells h) (head l)"

definition contents :: "'d heap \<Rightarrow> slist \<Rightarrow> 'd list" where
  "contents h l = vals_from (unat (list_len l)) (cells h) (head l)"

text \<open>The invariant of the object, executable: well formed and within its limit.\<close>

definition list_inv :: "'d heap \<Rightarrow> slist \<Rightarrow> bool" where
  "list_inv h l \<longleftrightarrow>
     slist_at h l (addrs h l) (contents h l) \<and> list_len l \<le> uplimit l"

lemma path_lengths [heap_simps]: "path c p as xs q \<Longrightarrow> length as = length xs"
  by (induction c p as xs q rule: path.induct) (auto split: option.splits)

lemma path_upd [heap_simps]:
  "a \<notin> set as \<Longrightarrow> path (c(a := v)) p as xs q = path c p as xs q"
  by (induction c p as xs q rule: path.induct) (auto split: option.splits)

lemma path_cong:
  "(\<And>a. a \<in> set as \<Longrightarrow> c' a = c a) \<Longrightarrow> path c' p as xs q = path c p as xs q"
  by (induction c p as xs q rule: path.induct) (auto split: option.splits)

lemma path_append:
  "length as = length xs \<Longrightarrow>
     path c p (as @ bs) (xs @ ys) q \<longleftrightarrow> (\<exists>r. path c p as xs r \<and> path c r bs ys q)"
  by (induction as xs arbitrary: p rule: list_induct2) (auto split: option.splits)

lemma path_relink:
  assumes "path c p as xs None" "as \<noteq> []" "distinct as" "c (last as) = Some tn"
  shows "path (c(last as \<mapsto> tn\<lparr>next_node := r\<rparr>)) p as xs r"
  using assms
proof (induction c p as xs "None :: nat option" rule: path.induct)
  case (2 c p a as x xs)
  show ?case
  proof (cases as)
    case Nil
    with 2 show ?thesis by (cases xs) (auto split: option.splits)
  next
    case (Cons b bs)
    with 2 have "last as \<noteq> a" by auto
    with 2 Cons show ?thesis by (auto split: option.splits)
  qed
qed auto

lemma path_last_mapped:
  "path c p as xs q \<Longrightarrow> as \<noteq> [] \<Longrightarrow> \<exists>tn. c (last as) = Some tn"
  by (induction c p as xs q rule: path.induct) (auto split: option.splits if_splits)

lemma path_head: "path c p as xs None \<Longrightarrow> p = None \<longleftrightarrow> as = []"
  by (cases as; cases xs) auto

lemma addrs_from_path: "path c p as xs q \<Longrightarrow> addrs_from (length xs) c p = as"
  by (induction c p as xs q rule: path.induct) (auto split: option.splits)

lemma vals_from_path: "path c p as xs q \<Longrightarrow> vals_from (length xs) c p = xs"
  by (induction c p as xs q rule: path.induct) (auto split: option.splits)

lemma slist_at_contents [heap_simps]:
  "slist_at h l as xs \<Longrightarrow> contents h l = xs" "slist_at h l as xs \<Longrightarrow> addrs h l = as"
  by (auto simp: slist_at_def contents_def addrs_def vals_from_path addrs_from_path)

lemma list_inv_iff:
  "list_inv h l \<longleftrightarrow> (\<exists>as xs. slist_at h l as xs \<and> length xs \<le> unat (uplimit l))"
  by (auto simp: list_inv_def slist_at_contents word_le_nat_alt) (auto simp: slist_at_def)

lemma slist_at_len: "slist_at h l as xs \<Longrightarrow> unat (list_len l) = length xs"
  by (simp add: slist_at_def)

lemma slist_at_empty_iff: "slist_at h l as xs \<Longrightarrow> list_len l = 0 \<longleftrightarrow> xs = []"
  by (auto simp: slist_at_def unat_eq_0 [symmetric])

lemma slist_at_limit_pos: "slist_at h l as xs \<Longrightarrow> 0 < unat (uplimit l)"
  by (simp add: slist_at_def unat_gt_0)

text \<open>The frame: cells outside \<open>S\<close> are untouched, and then every list elsewhere survives.\<close>

definition only_touches :: "nat set \<Rightarrow> 'd heap \<Rightarrow> 'd heap \<Rightarrow> bool" where
  "only_touches S h h' \<longleftrightarrow> (\<forall>a. a \<notin> S \<longrightarrow> cells h' a = cells h a) \<and> brk h \<le> brk h'"

lemma only_touches_refl [simp]: "only_touches S h h"
  by (simp add: only_touches_def)

lemma only_touches_trans:
  "only_touches S h h1 \<Longrightarrow> only_touches T h1 h2 \<Longrightarrow> S \<subseteq> U \<Longrightarrow> T \<subseteq> U \<Longrightarrow> only_touches U h h2"
  by (simp add: only_touches_def) (metis subsetD order_trans)

lemma slist_at_frame:
  assumes "only_touches S h h'" "slist_at h l as xs" "set as \<inter> S = {}"
  shows "slist_at h' l as xs"
proof -
  have "path (cells h') (head l) as xs None = path (cells h) (head l) as xs None"
    by (rule path_cong) (use assms in \<open>auto simp: only_touches_def\<close>)
  with assms show ?thesis by (auto simp: slist_at_def only_touches_def)
qed

section \<open>Each operation on a well-formed list\<close>

lemma get_headdata_ok:
  assumes "slist_at h l (a # as) (x # xs)"
  obtains h' l' where "list_get_headdata h l = Some (Some x, h', l')" "slist_at h' l' as xs"
    "freed h' = freed h" "brk h' = brk h" "uplimit l' = uplimit l" "only_touches {a} h h'"
proof -
  from assms obtain nd where nd: "head l = Some a" "cells h a = Some nd" "p_data nd = x"
      "path (cells h) (next_node nd) as xs None"
    by (auto simp: slist_at_def split: option.splits)
  from assms have ne: "list_len l \<noteq> 0" by (simp add: slist_at_empty_iff)
  let ?h = "free_node a h" and ?l = "l\<lparr>head := next_node nd, list_len := list_len l - 1\<rparr>"
  have "list_get_headdata h l = Some (Some x, ?h, ?l)"
    using nd ne by (simp add: list_get_headdata_def)
  moreover have "slist_at ?h ?l as xs"
    using assms nd ne
    by (auto simp: slist_at_def free_node_def path_upd unat_pred_word)
  ultimately show thesis
    by (rule that) (auto simp: free_node_def only_touches_def)
qed

lemma get_headdata_empty: "slist_at h l as [] \<Longrightarrow> list_get_headdata h l = Some (None, h, l)"
  by (simp add: list_get_headdata_def slist_at_empty_iff)

lemma drop_oldest_ok:
  assumes "slist_at h l as xs" "length xs \<le> unat (uplimit l)"
  defines "full \<equiv> length xs = unat (uplimit l)"
  obtains h' l' where
    "drop_oldest_if_full h l = Some (if full then -2 else 0, h', l')"
    "slist_at h' l' (if full then tl as else as) (if full then tl xs else xs)"
    "freed h' = freed h @ (if full then [hd xs] else [])"
    "brk h' = brk h" "uplimit l' = uplimit l" "only_touches (set as) h h'"
    "list_len l' < uplimit l'"
proof (cases full)
  case True
  with assms slist_at_limit_pos [of h l as xs] obtain a as' x xs'
    where eq: "as = a # as'" "xs = x # xs'"
    by (cases as; cases xs) (auto simp: slist_at_def)
  from assms(1) [unfolded eq] obtain h' l' where
      h': "list_get_headdata h l = Some (Some x, h', l')"
      "slist_at h' l' as' xs'" "freed h' = freed h" "brk h' = brk h"
      "uplimit l' = uplimit l" "only_touches {a} h h'"
    by (rule get_headdata_ok)
  have "list_len l = uplimit l"
    using True assms by (simp add: word_unat_eq_iff slist_at_len)
  moreover have "slist_at (free_data (Some x) h') l' as' xs'"
    using h'(2) by (simp add: slist_at_def free_data_def)
  moreover have "list_len l' < uplimit l'"
    using h' True eq by (simp add: word_less_nat_alt slist_at_len full_def)
  ultimately show thesis
    using that [of "free_data (Some x) h'" l'] h' True eq
    by (auto simp: drop_oldest_if_full_def free_data_def only_touches_def)
next
  case False
  then have "list_len l \<noteq> uplimit l"
    using assms slist_at_len [OF assms(1)] by auto
  moreover from False assms have "list_len l < uplimit l"
    by (simp add: word_less_nat_alt slist_at_len)
  ultimately show thesis
    using that [of h l] False assms(1) by (simp add: drop_oldest_if_full_def)
qed

lemma link_rear_ok:
  assumes l: "slist_at h l as xs" and fresh: "nod < brk h" "nod \<notin> set as"
    and node: "cells h nod = Some \<lparr>next_node = None, p_data = d\<rparr>"
  obtains h' l' where "link_rear nod h l = Some (h', l')"
    "path (cells h') (head l') (as @ [nod]) (xs @ [d]) None" "tail l' = Some nod"
    "list_len l' = list_len l" "uplimit l' = uplimit l" "freed h' = freed h" "brk h' = brk h"
    "only_touches (set as) h h'"
proof (cases "as = []")
  case True
  with l have "head l = None" "xs = []"
    by (auto simp: slist_at_def dest: path_head path_lengths)
  with True node show thesis
    by (intro that [of h "l\<lparr>tail := Some nod, head := Some nod\<rparr>"]) (auto simp: link_rear_def)
next
  case False
  from l have p: "path (cells h) (head l) as xs None" and d: "distinct as"
    by (auto simp: slist_at_def)
  from p False obtain tn where tn: "cells h (last as) = Some tn"
    using path_last_mapped by blast
  let ?h = "h\<lparr>cells := (cells h)(last as \<mapsto> tn\<lparr>next_node := Some nod\<rparr>)\<rparr>"
  have "link_rear nod h l = Some (?h, l\<lparr>tail := Some nod\<rparr>)"
    using l False tn path_head [OF p] by (auto simp: link_rear_def slist_at_def)
  moreover have "path (cells ?h) (head l) (as @ [nod]) (xs @ [d]) None"
  proof -
    have "nod \<noteq> last as" using fresh False by auto
    with path_relink [OF p False d tn, of "Some nod"] node path_lengths [OF p]
    show ?thesis by (auto simp: path_append)
  qed
  ultimately show thesis
    using False by (intro that [of ?h "l\<lparr>tail := Some nod\<rparr>"]) (auto simp: only_touches_def)
qed

lemma list_add_rear_ok:
  assumes l: "slist_at h l as xs" and lim: "length xs \<le> unat (uplimit l)"
  defines "full \<equiv> length xs = unat (uplimit l)"
  obtains h' l' where
    "list_add_rear True d h l = Some (if full then -2 else 0, h', l')"
    "slist_at h' l' ((if full then tl as else as) @ [brk h]) ((if full then tl xs else xs) @ [d])"
    "freed h' = freed h @ (if full then [hd xs] else [])"
    "brk h' = Suc (brk h)" "uplimit l' = uplimit l" "only_touches (insert (brk h) (set as)) h h'"
proof -
  let ?h0 = "h\<lparr>brk := Suc (brk h)\<rparr>"
  have l0: "slist_at ?h0 l as xs" using l by (auto simp: slist_at_def)
  obtain h1 l1 where h1: "drop_oldest_if_full ?h0 l = Some (if full then -2 else 0, h1, l1)"
    "slist_at h1 l1 (if full then tl as else as) (if full then tl xs else xs)" (is "slist_at _ _ ?as ?xs")
    "freed h1 = freed ?h0 @ (if full then [hd xs] else [])"
    "brk h1 = brk ?h0" "uplimit l1 = uplimit l" "only_touches (set as) ?h0 h1"
    "list_len l1 < uplimit l1"
    unfolding full_def by (rule drop_oldest_ok [OF l0 lim])
  let ?h2 = "h1\<lparr>cells := (cells h1)(brk h \<mapsto> \<lparr>next_node = None, p_data = d\<rparr>)\<rparr>"
  have sub: "set ?as \<subseteq> set as" by (cases as) auto
  have notin: "brk h \<notin> set ?as" using sub l by (auto simp: slist_at_def)
  have l2: "slist_at ?h2 l1 ?as ?xs"
    by (rule slist_at_frame [OF _ h1(2), of "{brk h}"])
       (use notin in \<open>auto simp: only_touches_def\<close>)
  obtain h3 l3 where h3: "link_rear (brk h) ?h2 l1 = Some (h3, l3)"
    "path (cells h3) (head l3) (?as @ [brk h]) (?xs @ [d]) None" "tail l3 = Some (brk h)"
    "list_len l3 = list_len l1" "uplimit l3 = uplimit l1" "freed h3 = freed ?h2"
    "brk h3 = brk ?h2" "only_touches (set ?as) ?h2 h3"
    using link_rear_ok [OF l2, of "brk h" d] notin h1(4) by auto
  have "list_add_rear True d h l =
      Some (if full then -2 else 0, h3, l3\<lparr>list_len := list_len l3 + 1\<rparr>)"
    using h1(1) h3(1) by (simp add: list_add_rear_def malloc_node_def)
  moreover have "slist_at h3 (l3\<lparr>list_len := list_len l3 + 1\<rparr>) (?as @ [brk h]) (?xs @ [d])"
    using h3 h1 l2 notin unat_Suc_word [OF h1(7)]
    by (auto simp: slist_at_def)
  moreover have "only_touches (insert (brk h) (set as)) h h3"
    using h1(4,6) h3(7,8) sub by (auto simp: only_touches_def)
  ultimately show thesis
    using that [of h3 "l3\<lparr>list_len := list_len l3 + 1\<rparr>"] h1 h3 by simp
qed

lemma list_add_rear_no_memory: "list_add_rear False d h l = Some (-1, h, l)"
  by (simp add: list_add_rear_def malloc_node_def)

lemma truncate_ok:
  assumes "slist_at h l as xs"
  defines "n \<equiv> length xs - unat (uplimit l)"
  shows "\<exists>h' l'. truncate_to_uplimit ret h l = Some (if n = 0 then ret else -1, h', l') \<and>
    slist_at h' l' (drop n as) (drop n xs) \<and> freed h' = freed h @ take n xs \<and>
    brk h' = brk h \<and> uplimit l' = uplimit l \<and> only_touches (set as) h h'"
  using assms(1) unfolding n_def
proof (induction "length xs - unat (uplimit l)" arbitrary: ret h l as xs)
  case 0
  then have "\<not> list_len l > uplimit l" by (simp add: word_less_nat_alt slist_at_len)
  then have "truncate_to_uplimit ret h l = Some (ret, h, l)"
    by (simp add: truncate_to_uplimit.simps [of ret h l])
  with 0 show ?case by auto
next
  case (Suc k)
  then have gt: "list_len l > uplimit l" by (simp add: word_less_nat_alt slist_at_len)
  from Suc.hyps(2) Suc.prems obtain a as' x xs' where eq: "as = a # as'" "xs = x # xs'"
    by (cases as; cases xs) (auto simp: slist_at_def)
  from Suc.prems [unfolded eq] obtain h1 l1 where
      h1: "list_get_headdata h l = Some (Some x, h1, l1)"
      "slist_at h1 l1 as' xs'" "freed h1 = freed h" "brk h1 = brk h"
      "uplimit l1 = uplimit l" "only_touches {a} h h1"
    by (rule get_headdata_ok)
  let ?h1 = "free_data (Some x) h1"
  have at1: "slist_at ?h1 l1 as' xs'" using h1(2) by (simp add: slist_at_def free_data_def)
  have k: "k = length xs' - unat (uplimit l1)" using Suc.hyps(2) eq h1(5) by simp
  from Suc.hyps(1) [OF k at1, of "-1"] obtain h' l' where
      h': "truncate_to_uplimit (-1) ?h1 l1 = Some (-1, h', l')"
      "slist_at h' l' (drop k as') (drop k xs')" "freed h' = freed ?h1 @ take k xs'"
      "brk h' = brk ?h1" "uplimit l' = uplimit l1" "only_touches (set as') ?h1 h'"
    unfolding k [symmetric] by (auto split: if_splits)
  have "truncate_to_uplimit ret h l = Some (-1, h', l')"
    using gt h1(1) h'(1) by (simp add: truncate_to_uplimit.simps [of ret h l])
  moreover have "only_touches (set as) h h'"
    using h1(6) h'(4,6) h1(4) eq by (auto simp: only_touches_def free_data_def)
  ultimately show ?case
    using h' h1 eq Suc.hyps(2) [symmetric] by (auto simp: free_data_def)
qed

text \<open>Splicing one non-empty list behind another: the pointer part of \<open>list_mount_rear\<close>.\<close>

lemma slist_at_splice:
  assumes l: "slist_at h l as xs" and m: "slist_at h m bs ys" and ne: "ys \<noteq> []"
    and dj: "set as \<inter> set bs = {}" and len: "length xs + length ys < 2 ^ 32"
    and a: "as \<noteq> []" and tn: "cells h (last as) = Some tn"
  shows "slist_at (h\<lparr>cells := (cells h)(last as \<mapsto> tn\<lparr>next_node := head m\<rparr>)\<rparr>)
           (l\<lparr>tail := tail m, list_len := list_len l + list_len m\<rparr>) (as @ bs) (xs @ ys)"
proof -
  have bs: "bs \<noteq> []" using m ne by (auto simp: slist_at_def dest: path_lengths)
  have p: "path (cells h) (head l) as xs None" "path (cells h) (head m) bs ys None"
    and d: "distinct as" "distinct bs" using l m by (auto simp: slist_at_def)
  have "last as \<notin> set bs" using last_in_set [OF a] dj by blast
  then have q: "path ((cells h)(last as \<mapsto> tn\<lparr>next_node := head m\<rparr>)) (head m) bs ys None"
    using p(2) by (simp add: path_upd)
  have "unat (list_len l + list_len m) = length xs + length ys"
    using l m len by (subst unat_add_lem [THEN iffD1]) (auto simp: slist_at_def)
  then show ?thesis
    using path_relink [OF p(1) a d(1) tn, of "head m"] q bs l m dj path_lengths [OF p(1)]
    by (auto simp: slist_at_def path_append)
qed

lemma list_mount_rear_empty:
  "slist_at h m bs [] \<Longrightarrow> list_mount_rear h l (Some m) = Some (0, h, l, Some m)"
  by (simp add: list_mount_rear_def slist_at_empty_iff)

lemma list_mount_rear_ok:
  assumes l: "slist_at h l as xs" and m: "slist_at h m bs ys" and ne: "ys \<noteq> []"
    and dj: "set as \<inter> set bs = {}" and len: "length xs + length ys < 2 ^ 32"
  defines "n \<equiv> length xs + length ys - unat (uplimit l)"
  obtains h' l' m' where
    "list_mount_rear h l (Some m) = Some (if n = 0 then 0 else -1, h', l', Some m')"
    "slist_at h' l' (drop n (as @ bs)) (drop n (xs @ ys))" "slist_at h' m' [] []"
    "freed h' = freed h @ take n (xs @ ys)" "brk h' = brk h" "uplimit l' = uplimit l"
    "uplimit m' = uplimit m" "only_touches (set as \<union> set bs) h h'"
proof -
  obtain h1 l2 where step: "list_mount_rear h l (Some m) =
      do { (ret, h3, l3) \<leftarrow> truncate_to_uplimit 0 h1 l2;
           Some (ret, h3, l3, Some (m\<lparr>head := None, tail := None, list_len := 0\<rparr>)) }"
    and at: "slist_at h1 l2 (as @ bs) (xs @ ys)" and same: "freed h1 = freed h" "brk h1 = brk h"
      "uplimit l2 = uplimit l" "only_touches (set as \<union> set bs) h h1"
  proof (cases "as = []")
    case True
    then have x: "xs = []" "head l = None" using l by (auto simp: slist_at_def dest: path_lengths path_head)
    let ?l = "l\<lparr>head := head m, tail := tail m, list_len := list_len l + list_len m\<rparr>"
    have "list_len l = 0" using l x by (simp add: slist_at_empty_iff)
    then have "slist_at h ?l bs ys" using l m by (auto simp: slist_at_def)
    then show thesis
      using that [of h ?l] True x m ne
      by (simp add: list_mount_rear_def slist_at_empty_iff Let_def)
  next
    case False
    then have "head l \<noteq> None" using l by (auto simp: slist_at_def dest: path_head)
    then obtain p where p: "head l = Some p" by auto
    have "path (cells h) (head l) as xs None" using l by (simp add: slist_at_def)
    from path_last_mapped [OF this False] obtain tn where tn: "cells h (last as) = Some tn"
      by blast
    let ?h = "h\<lparr>cells := (cells h)(last as \<mapsto> tn\<lparr>next_node := head m\<rparr>)\<rparr>"
    let ?l = "l\<lparr>tail := tail m, list_len := list_len l + list_len m\<rparr>"
    have "slist_at ?h ?l (as @ bs) (xs @ ys)"
      by (rule slist_at_splice [OF l m ne dj len False tn])
    moreover have "tail l = Some (last as)" using l False by (simp add: slist_at_def)
    ultimately show thesis
      using that [of ?h ?l] p tn m ne False
      by (simp add: list_mount_rear_def slist_at_empty_iff Let_def only_touches_def)
  qed
  from truncate_ok [OF at, of 0] obtain h' l' where
    h': "truncate_to_uplimit 0 h1 l2 = Some (if n = 0 then 0 else -1, h', l')"
    "slist_at h' l' (drop n (as @ bs)) (drop n (xs @ ys))" "freed h' = freed h1 @ take n (xs @ ys)"
    "brk h' = brk h1" "uplimit l' = uplimit l2" "only_touches (set (as @ bs)) h1 h'"
    unfolding n_def same(3) length_append by blast
  have "only_touches (set as \<union> set bs) h h'"
    by (rule only_touches_trans [OF same(4) h'(6)]) auto
  moreover have "slist_at h' (m\<lparr>head := None, tail := None, list_len := 0\<rparr>) [] []"
    using m by (simp add: slist_at_def)
  ultimately show thesis
    using that [of h' l' "m\<lparr>head := None, tail := None, list_len := 0\<rparr>"] step h' same by simp
qed

lemma list_clean_ok:
  assumes "slist_at h l as xs"
  shows "\<exists>h' l'. list_clean h l = Some (0, h', l') \<and> slist_at h' l' [] [] \<and>
    freed h' = freed h @ xs \<and> brk h' = brk h \<and> uplimit l' = uplimit l \<and>
    only_touches (set as) h h'"
  using assms
proof (induction xs arbitrary: h l as)
  case Nil
  then have "as = []" by (auto simp: slist_at_def dest: path_lengths)
  with Nil show ?case by (simp add: list_clean.simps [of h l] slist_at_empty_iff)
next
  case (Cons x xs)
  then obtain a as' where eq: "as = a # as'" by (cases as) (auto simp: slist_at_def)
  from Cons.prems [unfolded eq] obtain h1 l1 where
      h1: "list_get_headdata h l = Some (Some x, h1, l1)"
      "slist_at h1 l1 as' xs" "freed h1 = freed h" "brk h1 = brk h"
      "uplimit l1 = uplimit l" "only_touches {a} h h1"
    by (rule get_headdata_ok)
  have "slist_at (free_data (Some x) h1) l1 as' xs"
    using h1(2) by (simp add: slist_at_def free_data_def)
  from Cons.IH [OF this] obtain h' l' where
    h': "list_clean (free_data (Some x) h1) l1 = Some (0, h', l')" "slist_at h' l' [] []"
    "freed h' = freed (free_data (Some x) h1) @ xs" "brk h' = brk (free_data (Some x) h1)"
    "uplimit l' = uplimit l1" "only_touches (set as') (free_data (Some x) h1) h'"
    by blast
  have "list_len l \<noteq> 0" using Cons.prems by (simp add: slist_at_empty_iff)
  then have "list_clean h l = Some (0, h', l')"
    using h1(1) h'(1) by (simp add: list_clean.simps [of h l])
  moreover have "only_touches (set as) h h'"
    using h1(4,6) h'(4,6) eq by (auto simp: only_touches_def free_data_def)
  ultimately show ?case using h' h1 by (auto simp: free_data_def)
qed

section \<open>The contract: a bounded queue\<close>

text \<open>What \<open>BoschSimpleList\<close> promises its clients, on plain lists.\<close>

record 'd bqueue =
  items :: "'d list"
  limit :: nat

definition bq_add :: "'d \<Rightarrow> 'd bqueue \<Rightarrow> int \<times> 'd list \<times> 'd bqueue" where
  "bq_add d q =
     (if length (items q) = limit q
      then (-2, [hd (items q)], q\<lparr>items := tl (items q) @ [d]\<rparr>)
      else (0, [], q\<lparr>items := items q @ [d]\<rparr>))"

definition bq_get :: "'d bqueue \<Rightarrow> 'd option \<times> 'd bqueue" where
  "bq_get q = (case items q of [] \<Rightarrow> (None, q) | x # xs \<Rightarrow> (Some x, q\<lparr>items := xs\<rparr>))"

definition bq_mount :: "'d bqueue \<Rightarrow> 'd bqueue \<Rightarrow> int \<times> 'd list \<times> 'd bqueue \<times> 'd bqueue" where
  "bq_mount q m =
     (let all = items q @ items m; n = length all - limit q
      in (if n = 0 then 0 else -1, take n all, q\<lparr>items := drop n all\<rparr>, m\<lparr>items := []\<rparr>))"

definition bq_clean :: "'d bqueue \<Rightarrow> int \<times> 'd list \<times> 'd bqueue" where
  "bq_clean q = (0, items q, q\<lparr>items := []\<rparr>)"

definition bq_inv :: "'d bqueue \<Rightarrow> bool" where
  "bq_inv q \<longleftrightarrow> 0 < limit q \<and> length (items q) \<le> limit q"

definition queue_of :: "'d heap \<Rightarrow> slist \<Rightarrow> 'd bqueue" where
  "queue_of h l = \<lparr>items = contents h l, limit = unat (uplimit l)\<rparr>"

lemma queue_of_at:
  "slist_at h l as xs \<Longrightarrow> queue_of h l = \<lparr>items = xs, limit = unat (uplimit l)\<rparr>"
  by (simp add: queue_of_def slist_at_contents)

lemma queue_of_upd:
  "slist_at h' l' as xs \<Longrightarrow> uplimit l' = uplimit l \<Longrightarrow>
     queue_of h' l' = (queue_of h l)\<lparr>items := xs\<rparr>"
  by (simp add: queue_of_def slist_at_contents)

lemma list_inv_at: "list_inv h l \<Longrightarrow> slist_at h l (addrs h l) (items (queue_of h l))"
  by (simp add: list_inv_def queue_of_def)

lemma list_inv_bound: "list_inv h l \<Longrightarrow> length (items (queue_of h l)) \<le> unat (uplimit l)"
  by (auto simp: list_inv_iff queue_of_at)

lemma list_inv_queue: "list_inv h l \<Longrightarrow> bq_inv (queue_of h l)"
  by (auto simp: list_inv_iff queue_of_at bq_inv_def slist_at_limit_pos)

lemma list_invI:
  "slist_at h l as xs \<Longrightarrow> length xs \<le> unat (uplimit l) \<Longrightarrow> list_inv h l"
  by (auto simp: list_inv_iff)

lemma limit_queue_of [simp]: "limit (queue_of h l) = unat (uplimit l)"
  by (simp add: queue_of_def)

lemma new_list_at: "slist_at h new_list [] []"
  by (simp add: slist_at_def new_list_def set_uplimit_def DEFAULT_LIST_LEN_def)

lemma new_list_inv: "list_inv h new_list" "queue_of h new_list = \<lparr>items = [], limit = 128\<rparr>"
  using new_list_at [of h]
  by (auto intro: list_invI simp: queue_of_at)
     (simp add: new_list_def set_uplimit_def DEFAULT_LIST_LEN_def)

lemma add_rear_step:
  assumes "list_inv h l"
  obtains h' l' where
    "list_add_rear True d h l = Some (fst (bq_add d (queue_of h l)), h', l')"
    "queue_of h' l' = snd (snd (bq_add d (queue_of h l)))"
    "freed h' = freed h @ fst (snd (bq_add d (queue_of h l)))" "list_inv h' l'"
    "uplimit l' = uplimit l" "only_touches (insert (brk h) (set (addrs h l))) h h'"
proof -
  let ?q = "queue_of h l"
  let ?full = "length (items ?q) = unat (uplimit l)"
  obtain h' l' where
    h': "list_add_rear True d h l = Some (if ?full then -2 else 0, h', l')"
    "slist_at h' l' ((if ?full then tl (addrs h l) else addrs h l) @ [brk h])
       ((if ?full then tl (items ?q) else items ?q) @ [d])" (is "slist_at _ _ ?as ?xs")
    "freed h' = freed h @ (if ?full then [hd (items ?q)] else [])"
    "brk h' = Suc (brk h)" "uplimit l' = uplimit l"
    "only_touches (insert (brk h) (set (addrs h l))) h h'"
    by (rule list_add_rear_ok [OF list_inv_at list_inv_bound, OF assms assms])
  have "length ?xs \<le> unat (uplimit l')"
    using list_inv_bound [OF assms] h'(5) list_inv_queue [OF assms]
    by (auto simp: bq_inv_def)
  then have "list_inv h' l'" by (rule list_invI [OF h'(2)])
  then show thesis
    by (intro that [of h' l'])
       (simp_all add: h'(1,3,5,6) bq_add_def queue_of_upd [where h = h, OF h'(2,5)])
qed

lemma get_headdata_step:
  assumes "list_inv h l"
  obtains h' l' where
    "list_get_headdata h l = Some (fst (bq_get (queue_of h l)), h', l')"
    "queue_of h' l' = snd (bq_get (queue_of h l))" "freed h' = freed h" "list_inv h' l'"
    "uplimit l' = uplimit l" "only_touches (set (addrs h l)) h h'"
proof (cases "items (queue_of h l)")
  case Nil
  with list_inv_at [OF assms] have "list_get_headdata h l = Some (None, h, l)"
    by (simp add: get_headdata_empty)
  with Nil assms show thesis using that [of h l] by (simp add: bq_get_def)
next
  case (Cons x xs)
  with list_inv_at [OF assms] obtain a as where eq: "addrs h l = a # as"
    by (cases "addrs h l") (auto simp: slist_at_def)
  from list_inv_at [OF assms, unfolded eq Cons] obtain h' l' where
    h': "list_get_headdata h l = Some (Some x, h', l')" "slist_at h' l' as xs"
    "freed h' = freed h" "brk h' = brk h" "uplimit l' = uplimit l" "only_touches {a} h h'"
    by (rule get_headdata_ok)
  have "list_inv h' l'"
    by (rule list_invI [OF h'(2)]) (use list_inv_bound [OF assms] Cons h'(5) in simp)
  moreover have "only_touches (set (addrs h l)) h h'"
    using h'(6) eq by (auto simp: only_touches_def)
  ultimately show thesis
    by (intro that [of h' l'])
       (simp_all add: h'(1,3,5) bq_get_def Cons queue_of_upd [where h = h, OF h'(2,5)])
qed

lemma mount_rear_step:
  assumes l: "list_inv h l" and m: "list_inv h m" and dj: "set (addrs h l) \<inter> set (addrs h m) = {}"
    and len: "unat (uplimit l) + unat (uplimit m) < 2 ^ 32"
  obtains h' l' m' where
    "list_mount_rear h l (Some m) = Some (fst (bq_mount (queue_of h l) (queue_of h m)), h', l', Some m')"
    "(queue_of h' l', queue_of h' m') = snd (snd (bq_mount (queue_of h l) (queue_of h m)))"
    "freed h' = freed h @ fst (snd (bq_mount (queue_of h l) (queue_of h m)))"
    "list_inv h' l'" "list_inv h' m'" "uplimit l' = uplimit l" "uplimit m' = uplimit m"
    "only_touches (set (addrs h l) \<union> set (addrs h m)) h h'"
proof (cases "items (queue_of h m) = []")
  case True
  with list_inv_at [OF m] have "list_mount_rear h l (Some m) = Some (0, h, l, Some m)"
    using list_mount_rear_empty by fastforce
  with True l m list_inv_bound [OF l] show thesis
    using that [of h l m] by (simp add: bq_mount_def Let_def)
next
  case False
  let ?xs = "items (queue_of h l)" and ?ys = "items (queue_of h m)"
  let ?n = "length ?xs + length ?ys - unat (uplimit l)"
  have "length ?xs + length ?ys < 2 ^ 32"
    using len list_inv_bound [OF l] list_inv_bound [OF m] by simp
  from list_mount_rear_ok [OF list_inv_at [OF l] list_inv_at [OF m] False dj this]
  obtain h' l' m' where
    h': "list_mount_rear h l (Some m) = Some (if ?n = 0 then 0 else -1, h', l', Some m')"
    "slist_at h' l' (drop ?n (addrs h l @ addrs h m)) (drop ?n (?xs @ ?ys))"
    "slist_at h' m' [] []" "freed h' = freed h @ take ?n (?xs @ ?ys)" "brk h' = brk h"
    "uplimit l' = uplimit l" "uplimit m' = uplimit m"
    "only_touches (set (addrs h l) \<union> set (addrs h m)) h h'"
    by blast
  have "list_inv h' l'" by (rule list_invI [OF h'(2)]) (use h'(6) in auto)
  moreover have "list_inv h' m'" by (rule list_invI [OF h'(3)]) simp
  ultimately show thesis
    by (intro that [of h' l' m'])
       (simp_all add: h'(1,4,6,7,8) bq_mount_def Let_def queue_of_upd [where h = h, OF h'(2,6)]
          queue_of_upd [where h = h, OF h'(3,7)])
qed

lemma clean_step:
  assumes "list_inv h l"
  obtains h' l' where
    "list_clean h l = Some (0, h', l')" "queue_of h' l' = (queue_of h l)\<lparr>items := []\<rparr>"
    "freed h' = freed h @ items (queue_of h l)" "list_inv h' l'"
    "only_touches (set (addrs h l)) h h'"
proof -
  from list_clean_ok [OF list_inv_at [OF assms]] obtain h' l' where
    h': "list_clean h l = Some (0, h', l')" "slist_at h' l' [] []"
    "freed h' = freed h @ items (queue_of h l)" "uplimit l' = uplimit l"
    "only_touches (set (addrs h l)) h h'"
    by blast
  have "list_inv h' l'" by (rule list_invI [OF h'(2)]) simp
  then show thesis
    by (intro that [of h' l']) (simp_all add: h' queue_of_upd [where h = h, OF h'(2,4)])
qed

text \<open>Adding neither loses nor reorders: what is discarded followed by what is kept is the old
  contents followed by the new element, and nothing is discarded before the limit is reached.\<close>

lemma bq_add_conserves:
  assumes "bq_inv q"
  shows "fst (snd (bq_add d q)) @ items (snd (snd (bq_add d q))) = items q @ [d]"
    "limit (snd (snd (bq_add d q))) = limit q"
    "length (items (snd (snd (bq_add d q)))) = min (limit q) (Suc (length (items q)))"
  using assms by (cases "items q"; simp add: bq_add_def bq_inv_def min_def)+

section \<open>The interface of bounded queues\<close>

text \<open>
  What the sampling loops rely on: an enqueue and a dequeue operation whose effect on the
  queue contents and on the discarded payloads is that of \<open>bq_add\<close> and \<open>bq_get\<close>.
  \<open>enq_all\<close> is the reading loop of \<open>ap_hw_poll_smi240acc\<close> and \<open>ap_hw_poll_smi240gyro\<close>
  (one \<open>list_add_rear\<close> per sample), \<open>deq_n\<close> the collecting loop of \<open>sensord_algo_process\<close>
  (\<open>list_get_headdata\<close> once per stored sample).
\<close>

primrec enq_all :: "('d \<Rightarrow> 's \<Rightarrow> (int \<times> 's) option) \<Rightarrow> 'd list \<Rightarrow> 's \<Rightarrow> 's option" where
  "enq_all enq [] s = Some s"
| "enq_all enq (d # ds) s = do { (r, s1) \<leftarrow> enq d s; enq_all enq ds s1 }"

primrec deq_n ::
  "('s \<Rightarrow> ('d option \<times> 's) option) \<Rightarrow> nat \<Rightarrow> 's \<Rightarrow> ('d option list \<times> 's) option" where
  "deq_n deq 0 s = Some ([], s)"
| "deq_n deq (Suc n) s =
     do { (d, s1) \<leftarrow> deq s; (ds, s2) \<leftarrow> deq_n deq n s1; Some (d # ds, s2) }"

locale bounded_fifo =
  fixes enq :: "'d \<Rightarrow> 's \<Rightarrow> (int \<times> 's) option"
    and deq :: "'s \<Rightarrow> ('d option \<times> 's) option"
    and alpha :: "'s \<Rightarrow> 'd bqueue"
    and gone :: "'s \<Rightarrow> 'd list"
    and inv :: "'s \<Rightarrow> bool"
  assumes enq_law: "inv s \<Longrightarrow>
      \<exists>s'. enq d s = Some (fst (bq_add d (alpha s)), s') \<and> inv s' \<and>
        alpha s' = snd (snd (bq_add d (alpha s))) \<and>
        gone s' = gone s @ fst (snd (bq_add d (alpha s)))"
    and deq_law: "inv s \<Longrightarrow>
      \<exists>s'. deq s = Some (fst (bq_get (alpha s)), s') \<and> inv s' \<and>
        alpha s' = snd (bq_get (alpha s)) \<and> gone s' = gone s"
    and inv_queue: "inv s \<Longrightarrow> bq_inv (alpha s)"
begin

lemma enq_conserves:
  assumes "inv s"
  obtains r s' where "enq d s = Some (r, s')" "inv s'" "limit (alpha s') = limit (alpha s)"
    "gone s' @ items (alpha s') = gone s @ items (alpha s) @ [d]"
    "length (items (alpha s')) = min (limit (alpha s)) (Suc (length (items (alpha s))))"
proof -
  from enq_law [OF assms, of d] obtain s' where
    "enq d s = Some (fst (bq_add d (alpha s)), s')" "inv s'"
    "alpha s' = snd (snd (bq_add d (alpha s)))" "gone s' = gone s @ fst (snd (bq_add d (alpha s)))"
    by blast
  with bq_add_conserves [OF inv_queue [OF assms], of d] show thesis
    by (intro that [of "fst (bq_add d (alpha s))" s']) simp_all
qed

lemma enq_all_conserves:
  assumes "inv s"
  shows "\<exists>s'. enq_all enq ds s = Some s' \<and> inv s' \<and> limit (alpha s') = limit (alpha s) \<and>
    gone s' @ items (alpha s') = gone s @ items (alpha s) @ ds \<and>
    length (items (alpha s')) = min (limit (alpha s)) (length (items (alpha s)) + length ds)"
  using assms
proof (induction ds arbitrary: s)
  case Nil
  then show ?case using inv_queue [of s] by (auto simp: bq_inv_def min_def)
next
  case (Cons d ds)
  obtain r s1 where s1: "enq d s = Some (r, s1)" "inv s1" "limit (alpha s1) = limit (alpha s)"
      "gone s1 @ items (alpha s1) = gone s @ items (alpha s) @ [d]"
      "length (items (alpha s1)) = min (limit (alpha s)) (Suc (length (items (alpha s))))"
    by (rule enq_conserves [OF Cons.prems])
  from Cons.IH [OF s1(2)] obtain s' where
    s': "enq_all enq ds s1 = Some s'" "inv s'" "limit (alpha s') = limit (alpha s1)"
    "gone s' @ items (alpha s') = gone s1 @ items (alpha s1) @ ds"
    "length (items (alpha s')) = min (limit (alpha s1)) (length (items (alpha s1)) + length ds)"
    by blast
  have "gone s1 @ items (alpha s1) @ ds = gone s @ items (alpha s) @ d # ds"
    using arg_cong [OF s1(4), of "\<lambda>xs. xs @ ds"] by simp
  with s1 s' show ?case by (auto simp: min_def)
qed

lemma deq_n_takes:
  assumes "inv s" "n \<le> length (items (alpha s))"
  shows "\<exists>s'. deq_n deq n s = Some (map Some (take n (items (alpha s))), s') \<and> inv s' \<and>
    limit (alpha s') = limit (alpha s) \<and> items (alpha s') = drop n (items (alpha s)) \<and>
    gone s' = gone s"
  using assms
proof (induction n arbitrary: s)
  case 0
  then show ?case by simp
next
  case (Suc n)
  then obtain x xs where eq: "items (alpha s) = x # xs" by (cases "items (alpha s)") auto
  with deq_law [OF Suc.prems(1)] obtain s1 where
    s1: "deq s = Some (Some x, s1)" "inv s1" "alpha s1 = (alpha s)\<lparr>items := xs\<rparr>" "gone s1 = gone s"
    by (auto simp: bq_get_def)
  with Suc.IH [of s1] Suc.prems(2) eq show ?case by auto
qed

text \<open>Reading \<open>ds\<close> into an empty queue and collecting every stored element returns the last
  \<open>limit\<close> samples, in order.\<close>

lemma enq_all_deq_n:
  assumes "inv s" "items (alpha s) = []" "gone s = []"
  shows "\<exists>s1 s2. enq_all enq ds s = Some s1 \<and>
    deq_n deq (length (items (alpha s1))) s1 =
      Some (map Some (drop (length ds - limit (alpha s)) ds), s2) \<and>
    inv s2 \<and> items (alpha s2) = [] \<and> gone s2 = take (length ds - limit (alpha s)) ds"
proof -
  from enq_all_conserves [OF assms(1), of ds] assms(2,3) obtain s1 where
    s1: "enq_all enq ds s = Some s1" "inv s1" "gone s1 @ items (alpha s1) = ds"
    "length (items (alpha s1)) = min (limit (alpha s)) (length ds)"
    by auto
  have len: "length (gone s1) = length ds - limit (alpha s)"
    using arg_cong [OF s1(3), of length] s1(4) by auto
  have "items (alpha s1) = drop (length (gone s1)) ds" "gone s1 = take (length (gone s1)) ds"
    unfolding s1(3) [symmetric] by simp_all
  with deq_n_takes [OF s1(2) order_refl] s1(1) show ?thesis
    unfolding len by auto
qed

end

section \<open>The pointer program is a bounded queue\<close>

definition heap_enq :: "'d \<Rightarrow> 'd heap \<times> slist \<Rightarrow> (int \<times> 'd heap \<times> slist) option" where
  "heap_enq d s = list_add_rear True d (fst s) (snd s)"

definition heap_deq :: "'d heap \<times> slist \<Rightarrow> ('d option \<times> 'd heap \<times> slist) option" where
  "heap_deq s = list_get_headdata (fst s) (snd s)"

definition heap_queue :: "'d heap \<times> slist \<Rightarrow> 'd bqueue" where
  "heap_queue s = queue_of (fst s) (snd s)"

interpretation hl: bounded_fifo heap_enq heap_deq heap_queue "\<lambda>s. freed (fst s)"
  "\<lambda>s. list_inv (fst s) (snd s)"
proof unfold_locales
  fix s :: "'d heap \<times> slist" and d :: 'd
  assume inv: "list_inv (fst s) (snd s)"
  show "\<exists>s'. heap_enq d s = Some (fst (bq_add d (heap_queue s)), s') \<and>
      list_inv (fst s') (snd s') \<and> heap_queue s' = snd (snd (bq_add d (heap_queue s))) \<and>
      freed (fst s') = freed (fst s) @ fst (snd (bq_add d (heap_queue s)))"
    by (rule add_rear_step [OF inv, of d]) (auto simp: heap_enq_def heap_queue_def)
  show "\<exists>s'. heap_deq s = Some (fst (bq_get (heap_queue s)), s') \<and> list_inv (fst s') (snd s') \<and>
      heap_queue s' = snd (bq_get (heap_queue s)) \<and> freed (fst s') = freed (fst s)"
    by (rule get_headdata_step [OF inv]) (auto simp: heap_deq_def heap_queue_def)
  show "bq_inv (heap_queue s)"
    using inv by (simp add: heap_queue_def list_inv_queue)
qed

text \<open>The contract itself is a bounded queue, with the discarded payloads beside it.\<close>

definition spec_enq :: "'d \<Rightarrow> 'd bqueue \<times> 'd list \<Rightarrow> (int \<times> 'd bqueue \<times> 'd list) option" where
  "spec_enq d s = (case bq_add d (fst s) of (r, ds, q) \<Rightarrow> Some (r, q, snd s @ ds))"

definition spec_deq :: "'d bqueue \<times> 'd list \<Rightarrow> ('d option \<times> 'd bqueue \<times> 'd list) option" where
  "spec_deq s = (case bq_get (fst s) of (d, q) \<Rightarrow> Some (d, q, snd s))"

lemma bq_add_inv: "bq_inv q \<Longrightarrow> bq_inv (snd (snd (bq_add d q)))"
  by (cases "items q") (auto simp: bq_add_def bq_inv_def)

lemma bq_get_inv: "bq_inv q \<Longrightarrow> bq_inv (snd (bq_get q))"
  by (cases "items q") (auto simp: bq_get_def bq_inv_def)

interpretation sq: bounded_fifo spec_enq spec_deq fst snd "\<lambda>s. bq_inv (fst s)"
  by unfold_locales
     (auto simp: spec_enq_def spec_deq_def bq_add_inv bq_get_inv split: prod.splits
       dest: arg_cong [of _ _ "\<lambda>p. bq_inv (snd (snd p))"])

section \<open>Properties\<close>

text \<open>C10: On every well-formed list, list_add_rear never dereferences a dead pointer and
  refines the bounded queue: it answers 0 and appends, or, at the limit, answers -2, frees
  exactly the oldest payload and appends; when malloc fails it answers -1 and changes
  nothing. The invariant is kept.\<close>

theorem list_add_rear_refines:
  assumes "list_inv h l"
  shows "case (if ok then bq_add d (queue_of h l) else (-1, [], queue_of h l)) of
    (r, ds, q') \<Rightarrow> \<exists>h' l'. list_add_rear ok d h l = Some (r, h', l') \<and> list_inv h' l' \<and>
      queue_of h' l' = q' \<and> freed h' = freed h @ ds"
proof (cases ok)
  case True
  show ?thesis
    by (rule add_rear_step [OF assms, of d]) (auto simp: True split: prod.split)
next
  case False
  with assms show ?thesis by (simp add: list_add_rear_no_memory)
qed

theorem list_add_rear_refines_witness:
  "list_inv empty_heap new_list \<and>
   (case bq_add (7::int) (queue_of empty_heap new_list) of
    (r, ds, q') \<Rightarrow> \<exists>h' l'. list_add_rear True 7 empty_heap new_list = Some (r, h', l') \<and>
      list_inv h' l' \<and> queue_of h' l' = q' \<and> freed h' = freed empty_heap @ ds)"
  using list_add_rear_refines [OF new_list_inv(1), of True "7::int" empty_heap]
  by (simp add: new_list_inv(1))

text \<open>C9: list_mount_rear of one list behind another that shares no node with it moves every
  element: the destination holds the last uplimit elements of the concatenation in order,
  the overflow is freed oldest first (answer -1), and the mounted list is left empty. Both
  lists stay well formed, and every third list is untouched.\<close>

theorem list_mount_rear_refines:
  assumes "list_inv h l" "list_inv h m" "set (addrs h l) \<inter> set (addrs h m) = {}"
    "unat (uplimit l) + unat (uplimit m) < 2 ^ 32"
  shows "case bq_mount (queue_of h l) (queue_of h m) of (r, ds, q', e') \<Rightarrow>
    \<exists>h' l' m'. list_mount_rear h l (Some m) = Some (r, h', l', Some m') \<and>
    queue_of h' l' = q' \<and> queue_of h' m' = e' \<and>
    freed h' = freed h @ ds \<and> list_inv h' l' \<and> list_inv h' m' \<and>
    (\<forall>k. list_inv h k \<longrightarrow> set (addrs h k) \<inter> (set (addrs h l) \<union> set (addrs h m)) = {} \<longrightarrow>
         list_inv h' k \<and> queue_of h' k = queue_of h k)"
proof -
  obtain h' l' m' where
    h': "list_mount_rear h l (Some m) = Some (fst (bq_mount (queue_of h l) (queue_of h m)), h', l', Some m')"
    "(queue_of h' l', queue_of h' m') = snd (snd (bq_mount (queue_of h l) (queue_of h m)))"
    "freed h' = freed h @ fst (snd (bq_mount (queue_of h l) (queue_of h m)))"
    "list_inv h' l'" "list_inv h' m'" "uplimit l' = uplimit l" "uplimit m' = uplimit m"
    "only_touches (set (addrs h l) \<union> set (addrs h m)) h h'"
    by (rule mount_rear_step [OF assms])
  have frame: "list_inv h' k \<and> queue_of h' k = queue_of h k"
    if "list_inv h k" "set (addrs h k) \<inter> (set (addrs h l) \<union> set (addrs h m)) = {}" for k
  proof -
    from slist_at_frame [OF h'(8) list_inv_at [OF that(1)] that(2)]
    have "slist_at h' k (addrs h k) (items (queue_of h k))" .
    with list_inv_bound [OF that(1)] show ?thesis
      by (auto intro: list_invI simp: queue_of_upd [where h = h])
  qed
  obtain r ds q' e' where res: "bq_mount (queue_of h l) (queue_of h m) = (r, ds, q', e')"
    by (cases "bq_mount (queue_of h l) (queue_of h m)") auto
  show ?thesis
    unfolding res prod.case
    by (rule exI [of _ h'], rule exI [of _ l'], rule exI [of _ m'])
       (use h'(1-5) frame in \<open>simp add: res\<close>)
qed

definition one_node_heap :: "int heap" where
  "one_node_heap =
     \<lparr>cells = (\<lambda>_. None)(0 \<mapsto> \<lparr>next_node = None, p_data = 5\<rparr>), brk = 1, freed = []\<rparr>"

definition one_node_list :: slist where
  "one_node_list = \<lparr>head = Some 0, tail = Some 0, list_len = 1, uplimit = 128\<rparr>"

lemma one_node_inv: "list_inv one_node_heap one_node_list"
  by (rule list_invI [of _ _ "[0]" "[5]"])
     (simp_all add: slist_at_def one_node_heap_def one_node_list_def)

theorem list_mount_rear_refines_witness:
  "case bq_mount (queue_of one_node_heap new_list) (queue_of one_node_heap one_node_list) of
     (r, ds, q', e') \<Rightarrow>
     \<exists>h' l' m'. list_mount_rear one_node_heap new_list (Some one_node_list) =
      Some (r, h', l', Some m') \<and> queue_of h' l' = q' \<and> queue_of h' m' = e' \<and>
      freed h' = freed one_node_heap @ ds \<and> list_inv h' l' \<and> list_inv h' m'"
proof -
  have "addrs one_node_heap new_list = []"
    by (rule slist_at_contents(2) [OF new_list_at])
  moreover have "unat (uplimit new_list) + unat (uplimit one_node_list) < 2 ^ 32"
    by (simp add: new_list_def one_node_list_def set_uplimit_def DEFAULT_LIST_LEN_def)
  ultimately show ?thesis
    using list_mount_rear_refines [OF new_list_inv(1) one_node_inv]
    by (fastforce split: prod.splits)
qed

text \<open>A producer that adds any sequence of samples to a fresh list of the default limit of 128
  and a consumer that then drains it: the consumer gets the last 128 samples in order,
  older ones have been freed once each.\<close>

theorem sample_loop_keeps_last_128:
  "\<exists>s1 s2. enq_all heap_enq ds (empty_heap, new_list) = Some s1 \<and>
    deq_n heap_deq (unat (list_len (snd s1))) s1 =
      Some (map Some (drop (length ds - 128) ds), s2) \<and>
    items (heap_queue s2) = [] \<and> freed (fst s2) = take (length ds - 128) ds"
proof -
  have q: "heap_queue (empty_heap, new_list) = \<lparr>items = [], limit = 128\<rparr>"
    by (simp add: heap_queue_def new_list_inv)
  have g: "freed (fst (empty_heap, new_list)) = []" by (simp add: empty_heap_def)
  from hl.enq_all_deq_n [of "(empty_heap, new_list)" ds, unfolded q g bqueue.select_convs,
      OF _ refl refl] new_list_inv(1) [of empty_heap]
  obtain s1 s2 where s: "enq_all heap_enq ds (empty_heap, new_list) = Some s1"
    "deq_n heap_deq (length (items (heap_queue s1))) s1 =
      Some (map Some (drop (length ds - 128) ds), s2)"
    "items (heap_queue s2) = []" "freed (fst s2) = take (length ds - 128) ds"
    by (metis fst_conv snd_conv)
  from hl.enq_all_conserves [of "(empty_heap, new_list)" ds] s(1) new_list_inv(1)
  have "list_inv (fst s1) (snd s1)" by auto
  then have "length (items (heap_queue s1)) = unat (list_len (snd s1))"
    by (simp add: heap_queue_def slist_at_len [OF list_inv_at])
  with s show ?thesis
    by (intro exI [of _ s1] exI [of _ s2]) simp
qed

end
