(* ===== verification/Sensor_Constants.thy ===== *)
theory Sensor_Constants
  imports Prelude
begin

text \<open>
  The enumerations that index and name the sensors of the Bosch HAL: the list indices of
  \<open>legacy/sensord/inc/sensord_hwcntl.h\<close>, the Android sensor types and flags of
  \<open>legacy/hardware/sensors-base.h\<close> and the sensor handles of
  \<open>legacy/sensord/bsx/inc/bsx_android.h\<close>.  C converts the enumeration constants to
  \<open>int\<close> wherever the code uses them, so each is defined as its number, which the simplifier inserts.
\<close>

section \<open>Indices: enum \<open>BSX4_SENSORLIST_INX\<close>\<close>

definition SENSORLIST_INX_GAS_RESIST :: int where [simp]: "SENSORLIST_INX_GAS_RESIST = 0"
definition SENSORLIST_INX_ACCELEROMETER :: int where [simp]: "SENSORLIST_INX_ACCELEROMETER = 1"
definition SENSORLIST_INX_MAGNETIC_FIELD :: int where [simp]: "SENSORLIST_INX_MAGNETIC_FIELD = 2"
definition SENSORLIST_INX_ORIENTATION :: int where [simp]: "SENSORLIST_INX_ORIENTATION = 3"
definition SENSORLIST_INX_GYROSCOPE :: int where [simp]: "SENSORLIST_INX_GYROSCOPE = 4"
definition SENSORLIST_INX_LIGHT :: int where [simp]: "SENSORLIST_INX_LIGHT = 5"
definition SENSORLIST_INX_PRESSURE :: int where [simp]: "SENSORLIST_INX_PRESSURE = 6"
definition SENSORLIST_INX_TEMPERATURE :: int where [simp]: "SENSORLIST_INX_TEMPERATURE = 7"
definition SENSORLIST_INX_PROXIMITY :: int where [simp]: "SENSORLIST_INX_PROXIMITY = 8"
definition SENSORLIST_INX_GRAVITY :: int where [simp]: "SENSORLIST_INX_GRAVITY = 9"
definition SENSORLIST_INX_LINEAR_ACCELERATION :: int where [simp]: "SENSORLIST_INX_LINEAR_ACCELERATION = 10"
definition SENSORLIST_INX_ROTATION_VECTOR :: int where [simp]: "SENSORLIST_INX_ROTATION_VECTOR = 11"
definition SENSORLIST_INX_RELATIVE_HUMIDITY :: int where [simp]: "SENSORLIST_INX_RELATIVE_HUMIDITY = 12"
definition SENSORLIST_INX_AMBIENT_TEMPERATURE :: int where [simp]: "SENSORLIST_INX_AMBIENT_TEMPERATURE = 13"
definition SENSORLIST_INX_MAGNETIC_FIELD_UNCALIBRATED :: int where [simp]: "SENSORLIST_INX_MAGNETIC_FIELD_UNCALIBRATED = 14"
definition SENSORLIST_INX_GAME_ROTATION_VECTOR :: int where [simp]: "SENSORLIST_INX_GAME_ROTATION_VECTOR = 15"
definition SENSORLIST_INX_GYROSCOPE_UNCALIBRATED :: int where [simp]: "SENSORLIST_INX_GYROSCOPE_UNCALIBRATED = 16"
definition SENSORLIST_INX_SIGNIFICANT_MOTION :: int where [simp]: "SENSORLIST_INX_SIGNIFICANT_MOTION = 17"
definition SENSORLIST_INX_STEP_DETECTOR :: int where [simp]: "SENSORLIST_INX_STEP_DETECTOR = 18"
definition SENSORLIST_INX_STEP_COUNTER :: int where [simp]: "SENSORLIST_INX_STEP_COUNTER = 19"
definition SENSORLIST_INX_MAGNETIC_ROTATION_VECTOR :: int where [simp]: "SENSORLIST_INX_MAGNETIC_ROTATION_VECTOR = 20"
definition SENSORLIST_INX_HEART_RATE :: int where [simp]: "SENSORLIST_INX_HEART_RATE = 21"
definition SENSORLIST_INX_TILT_DETECTOR :: int where [simp]: "SENSORLIST_INX_TILT_DETECTOR = 22"
definition SENSORLIST_INX_WAKE_GESTURE :: int where [simp]: "SENSORLIST_INX_WAKE_GESTURE = 23"
definition SENSORLIST_INX_GLANCE_GESTURE :: int where [simp]: "SENSORLIST_INX_GLANCE_GESTURE = 24"
definition SENSORLIST_INX_PICK_UP_GESTURE :: int where [simp]: "SENSORLIST_INX_PICK_UP_GESTURE = 25"
definition SENSORLIST_INX_MAGNETIC_FIELD_UNCALIBRATED_OFFSET :: int where [simp]: "SENSORLIST_INX_MAGNETIC_FIELD_UNCALIBRATED_OFFSET = 26"
definition SENSORLIST_INX_GYROSCOPE_UNCALIBRATED_OFFSET :: int where [simp]: "SENSORLIST_INX_GYROSCOPE_UNCALIBRATED_OFFSET = 27"
definition SENSORLIST_INX_POWER_CONSUMPTION :: int where [simp]: "SENSORLIST_INX_POWER_CONSUMPTION = 28"
definition SENSORLIST_INX_AMBIENT_ALCOHOL :: int where [simp]: "SENSORLIST_INX_AMBIENT_ALCOHOL = 29"
definition SENSORLIST_INX_AMBIENT_CO2 :: int where [simp]: "SENSORLIST_INX_AMBIENT_CO2 = 30"
definition SENSORLIST_INX_AMBIENT_IAQ :: int where [simp]: "SENSORLIST_INX_AMBIENT_IAQ = 31"
definition SENSORLIST_INX_WAKEUP_SIGNI_PRESSURE :: int where [simp]: "SENSORLIST_INX_WAKEUP_SIGNI_PRESSURE = 32"
definition SENSORLIST_INX_WAKEUP_ACCELEROMETER :: int where [simp]: "SENSORLIST_INX_WAKEUP_ACCELEROMETER = 33"
definition SENSORLIST_INX_WAKEUP_MAGNETIC_FIELD :: int where [simp]: "SENSORLIST_INX_WAKEUP_MAGNETIC_FIELD = 34"
definition SENSORLIST_INX_WAKEUP_ORIENTATION :: int where [simp]: "SENSORLIST_INX_WAKEUP_ORIENTATION = 35"
definition SENSORLIST_INX_WAKEUP_GYROSCOPE :: int where [simp]: "SENSORLIST_INX_WAKEUP_GYROSCOPE = 36"
definition SENSORLIST_INX_WAKEUP_LIGHT :: int where [simp]: "SENSORLIST_INX_WAKEUP_LIGHT = 37"
definition SENSORLIST_INX_WAKEUP_PRESSURE :: int where [simp]: "SENSORLIST_INX_WAKEUP_PRESSURE = 38"
definition SENSORLIST_INX_WAKEUP_TEMPERATURE :: int where [simp]: "SENSORLIST_INX_WAKEUP_TEMPERATURE = 39"
definition SENSORLIST_INX_WAKEUP_PROXIMITY :: int where [simp]: "SENSORLIST_INX_WAKEUP_PROXIMITY = 40"
definition SENSORLIST_INX_WAKEUP_GRAVITY :: int where [simp]: "SENSORLIST_INX_WAKEUP_GRAVITY = 41"
definition SENSORLIST_INX_WAKEUP_LINEAR_ACCELERATION :: int where [simp]: "SENSORLIST_INX_WAKEUP_LINEAR_ACCELERATION = 42"
definition SENSORLIST_INX_WAKEUP_ROTATION_VECTOR :: int where [simp]: "SENSORLIST_INX_WAKEUP_ROTATION_VECTOR = 43"
definition SENSORLIST_INX_WAKEUP_RELATIVE_HUMIDITY :: int where [simp]: "SENSORLIST_INX_WAKEUP_RELATIVE_HUMIDITY = 44"
definition SENSORLIST_INX_WAKEUP_AMBIENT_TEMPERATURE :: int where [simp]: "SENSORLIST_INX_WAKEUP_AMBIENT_TEMPERATURE = 45"
definition SENSORLIST_INX_WAKEUP_MAGNETIC_FIELD_UNCALIBRATED :: int where [simp]: "SENSORLIST_INX_WAKEUP_MAGNETIC_FIELD_UNCALIBRATED = 46"
definition SENSORLIST_INX_WAKEUP_GAME_ROTATION_VECTOR :: int where [simp]: "SENSORLIST_INX_WAKEUP_GAME_ROTATION_VECTOR = 47"
definition SENSORLIST_INX_WAKEUP_GYROSCOPE_UNCALIBRATED :: int where [simp]: "SENSORLIST_INX_WAKEUP_GYROSCOPE_UNCALIBRATED = 48"
definition SENSORLIST_INX_WAKEUP_SIGNIFICANT_MOTION :: int where [simp]: "SENSORLIST_INX_WAKEUP_SIGNIFICANT_MOTION = 49"
definition SENSORLIST_INX_WAKEUP_STEP_DETECTOR :: int where [simp]: "SENSORLIST_INX_WAKEUP_STEP_DETECTOR = 50"
definition SENSORLIST_INX_WAKEUP_STEP_COUNTER :: int where [simp]: "SENSORLIST_INX_WAKEUP_STEP_COUNTER = 51"
definition SENSORLIST_INX_WAKEUP_MAGNETIC_ROTATION_VECTOR :: int where [simp]: "SENSORLIST_INX_WAKEUP_MAGNETIC_ROTATION_VECTOR = 52"
definition SENSORLIST_INX_WAKEUP_HEART_RATE :: int where [simp]: "SENSORLIST_INX_WAKEUP_HEART_RATE = 53"
definition SENSORLIST_INX_WAKEUP_TILT_DETECTOR :: int where [simp]: "SENSORLIST_INX_WAKEUP_TILT_DETECTOR = 54"
definition SENSORLIST_INX_WAKEUP_WAKE_GESTURE :: int where [simp]: "SENSORLIST_INX_WAKEUP_WAKE_GESTURE = 55"
definition SENSORLIST_INX_WAKEUP_GLANCE_GESTURE :: int where [simp]: "SENSORLIST_INX_WAKEUP_GLANCE_GESTURE = 56"
definition SENSORLIST_INX_WAKEUP_PICK_UP_GESTURE :: int where [simp]: "SENSORLIST_INX_WAKEUP_PICK_UP_GESTURE = 57"
definition SENSORLIST_INX_WAKEUP_MAGNETIC_FIELD_UNCALIBRATED_OFFSET :: int where [simp]: "SENSORLIST_INX_WAKEUP_MAGNETIC_FIELD_UNCALIBRATED_OFFSET = 58"
definition SENSORLIST_INX_WAKEUP_GYROSCOPE_UNCALIBRATED_OFFSET :: int where [simp]: "SENSORLIST_INX_WAKEUP_GYROSCOPE_UNCALIBRATED_OFFSET = 59"
definition SENSORLIST_INX_WAKEUP_POWER_CONSUMPTION :: int where [simp]: "SENSORLIST_INX_WAKEUP_POWER_CONSUMPTION = 60"
definition SENSORLIST_INX_WAKEUP_ACTIVITY :: int where [simp]: "SENSORLIST_INX_WAKEUP_ACTIVITY = 61"
definition SENSORLIST_INX_WAKEUP_AMBIENT_CO2 :: int where [simp]: "SENSORLIST_INX_WAKEUP_AMBIENT_CO2 = 62"
definition SENSORLIST_INX_WAKEUP_AMBIENT_IAQ :: int where [simp]: "SENSORLIST_INX_WAKEUP_AMBIENT_IAQ = 63"
definition SENSORLIST_INX_END :: int where [simp]: "SENSORLIST_INX_END = 64"

section \<open>Sensor types, flags and handles\<close>

definition SENSOR_TYPE_META_DATA :: int where [simp]: "SENSOR_TYPE_META_DATA = 0"
definition SENSOR_TYPE_ACCELEROMETER :: int where [simp]: "SENSOR_TYPE_ACCELEROMETER = 1"
definition SENSOR_TYPE_MAGNETIC_FIELD :: int where [simp]: "SENSOR_TYPE_MAGNETIC_FIELD = 2"
definition SENSOR_TYPE_ORIENTATION :: int where [simp]: "SENSOR_TYPE_ORIENTATION = 3"
definition SENSOR_TYPE_GYROSCOPE :: int where [simp]: "SENSOR_TYPE_GYROSCOPE = 4"
definition SENSOR_TYPE_LIGHT :: int where [simp]: "SENSOR_TYPE_LIGHT = 5"
definition SENSOR_TYPE_PRESSURE :: int where [simp]: "SENSOR_TYPE_PRESSURE = 6"
definition SENSOR_TYPE_TEMPERATURE :: int where [simp]: "SENSOR_TYPE_TEMPERATURE = 7"
definition SENSOR_TYPE_PROXIMITY :: int where [simp]: "SENSOR_TYPE_PROXIMITY = 8"
definition SENSOR_TYPE_GRAVITY :: int where [simp]: "SENSOR_TYPE_GRAVITY = 9"
definition SENSOR_TYPE_LINEAR_ACCELERATION :: int where [simp]: "SENSOR_TYPE_LINEAR_ACCELERATION = 10"
definition SENSOR_TYPE_ROTATION_VECTOR :: int where [simp]: "SENSOR_TYPE_ROTATION_VECTOR = 11"
definition SENSOR_TYPE_RELATIVE_HUMIDITY :: int where [simp]: "SENSOR_TYPE_RELATIVE_HUMIDITY = 12"
definition SENSOR_TYPE_AMBIENT_TEMPERATURE :: int where [simp]: "SENSOR_TYPE_AMBIENT_TEMPERATURE = 13"
definition SENSOR_TYPE_MAGNETIC_FIELD_UNCALIBRATED :: int where [simp]: "SENSOR_TYPE_MAGNETIC_FIELD_UNCALIBRATED = 14"
definition SENSOR_TYPE_GAME_ROTATION_VECTOR :: int where [simp]: "SENSOR_TYPE_GAME_ROTATION_VECTOR = 15"
definition SENSOR_TYPE_GYROSCOPE_UNCALIBRATED :: int where [simp]: "SENSOR_TYPE_GYROSCOPE_UNCALIBRATED = 16"
definition SENSOR_TYPE_SIGNIFICANT_MOTION :: int where [simp]: "SENSOR_TYPE_SIGNIFICANT_MOTION = 17"
definition SENSOR_TYPE_STEP_DETECTOR :: int where [simp]: "SENSOR_TYPE_STEP_DETECTOR = 18"
definition SENSOR_TYPE_STEP_COUNTER :: int where [simp]: "SENSOR_TYPE_STEP_COUNTER = 19"
definition SENSOR_TYPE_GEOMAGNETIC_ROTATION_VECTOR :: int where [simp]: "SENSOR_TYPE_GEOMAGNETIC_ROTATION_VECTOR = 20"
definition SENSOR_TYPE_HEART_RATE :: int where [simp]: "SENSOR_TYPE_HEART_RATE = 21"
definition SENSOR_TYPE_TILT_DETECTOR :: int where [simp]: "SENSOR_TYPE_TILT_DETECTOR = 22"
definition SENSOR_TYPE_WAKE_GESTURE :: int where [simp]: "SENSOR_TYPE_WAKE_GESTURE = 23"
definition SENSOR_TYPE_GLANCE_GESTURE :: int where [simp]: "SENSOR_TYPE_GLANCE_GESTURE = 24"
definition SENSOR_TYPE_PICK_UP_GESTURE :: int where [simp]: "SENSOR_TYPE_PICK_UP_GESTURE = 25"
definition SENSOR_TYPE_WRIST_TILT_GESTURE :: int where [simp]: "SENSOR_TYPE_WRIST_TILT_GESTURE = 26"
definition SENSOR_TYPE_DEVICE_ORIENTATION :: int where [simp]: "SENSOR_TYPE_DEVICE_ORIENTATION = 27"
definition SENSOR_TYPE_POSE_6DOF :: int where [simp]: "SENSOR_TYPE_POSE_6DOF = 28"
definition SENSOR_TYPE_STATIONARY_DETECT :: int where [simp]: "SENSOR_TYPE_STATIONARY_DETECT = 29"
definition SENSOR_TYPE_MOTION_DETECT :: int where [simp]: "SENSOR_TYPE_MOTION_DETECT = 30"
definition SENSOR_TYPE_HEART_BEAT :: int where [simp]: "SENSOR_TYPE_HEART_BEAT = 31"
definition SENSOR_TYPE_DYNAMIC_SENSOR_META :: int where [simp]: "SENSOR_TYPE_DYNAMIC_SENSOR_META = 32"
definition SENSOR_TYPE_ADDITIONAL_INFO :: int where [simp]: "SENSOR_TYPE_ADDITIONAL_INFO = 33"
definition SENSOR_TYPE_LOW_LATENCY_OFFBODY_DETECT :: int where [simp]: "SENSOR_TYPE_LOW_LATENCY_OFFBODY_DETECT = 34"
definition SENSOR_TYPE_ACCELEROMETER_UNCALIBRATED :: int where [simp]: "SENSOR_TYPE_ACCELEROMETER_UNCALIBRATED = 35"
definition SENSOR_TYPE_DEVICE_PRIVATE_BASE :: int where [simp]: "SENSOR_TYPE_DEVICE_PRIVATE_BASE = 65536"
definition SENSOR_FLAG_WAKE_UP :: u32 where [simp]: "SENSOR_FLAG_WAKE_UP = 1"
definition SENSOR_FLAG_CONTINUOUS_MODE :: u32 where [simp]: "SENSOR_FLAG_CONTINUOUS_MODE = 0"
definition SENSOR_FLAG_ON_CHANGE_MODE :: u32 where [simp]: "SENSOR_FLAG_ON_CHANGE_MODE = 2"
definition SENSOR_FLAG_ONE_SHOT_MODE :: u32 where [simp]: "SENSOR_FLAG_ONE_SHOT_MODE = 4"
definition SENSOR_FLAG_SPECIAL_REPORTING_MODE :: u32 where [simp]: "SENSOR_FLAG_SPECIAL_REPORTING_MODE = 6"
definition SENSOR_FLAG_DATA_INJECTION :: u32 where [simp]: "SENSOR_FLAG_DATA_INJECTION = 16"
definition SENSOR_FLAG_DYNAMIC_SENSOR :: u32 where [simp]: "SENSOR_FLAG_DYNAMIC_SENSOR = 32"
definition SENSOR_FLAG_ADDITIONAL_INFO :: u32 where [simp]: "SENSOR_FLAG_ADDITIONAL_INFO = 64"
definition SENSOR_FLAG_DIRECT_CHANNEL_ASHMEM :: u32 where [simp]: "SENSOR_FLAG_DIRECT_CHANNEL_ASHMEM = 1024"
definition SENSOR_FLAG_DIRECT_CHANNEL_GRALLOC :: u32 where [simp]: "SENSOR_FLAG_DIRECT_CHANNEL_GRALLOC = 2048"
definition SENSOR_FLAG_MASK_REPORTING_MODE :: u32 where [simp]: "SENSOR_FLAG_MASK_REPORTING_MODE = 14"
definition SENSOR_FLAG_MASK_DIRECT_REPORT :: u32 where [simp]: "SENSOR_FLAG_MASK_DIRECT_REPORT = 896"
definition SENSOR_FLAG_MASK_DIRECT_CHANNEL :: u32 where [simp]: "SENSOR_FLAG_MASK_DIRECT_CHANNEL = 3072"
definition SENSOR_TYPE_BOSCH_ACTIVITY_RECOGNITION :: int where [simp]: "SENSOR_TYPE_BOSCH_ACTIVITY_RECOGNITION = SENSOR_TYPE_DEVICE_PRIVATE_BASE + 31"
definition SENSOR_TYPE_BOSCH_AMBIENT_ALCOHOL :: int where [simp]: "SENSOR_TYPE_BOSCH_AMBIENT_ALCOHOL = SENSOR_TYPE_DEVICE_PRIVATE_BASE + 32"
definition SENSOR_TYPE_BOSCH_AMBIENT_CO2 :: int where [simp]: "SENSOR_TYPE_BOSCH_AMBIENT_CO2 = SENSOR_TYPE_DEVICE_PRIVATE_BASE + 33"
definition SENSOR_TYPE_BOSCH_AMBIENT_IAQ :: int where [simp]: "SENSOR_TYPE_BOSCH_AMBIENT_IAQ = SENSOR_TYPE_DEVICE_PRIVATE_BASE + 34"
definition SENSOR_TYPE_BOSCH_GAS_RESIST :: int where [simp]: "SENSOR_TYPE_BOSCH_GAS_RESIST = SENSOR_TYPE_DEVICE_PRIVATE_BASE + 35"
definition BSX_SENSOR_ID_STANDARD_START :: int where [simp]: "BSX_SENSOR_ID_STANDARD_START = 0"
definition BSX_SENSOR_ID_ACCELEROMETER :: int where [simp]: "BSX_SENSOR_ID_ACCELEROMETER = 1"
definition BSX_SENSOR_ID_MAGNETIC_FIELD :: int where [simp]: "BSX_SENSOR_ID_MAGNETIC_FIELD = 2"
definition BSX_SENSOR_ID_ORIENTATION :: int where [simp]: "BSX_SENSOR_ID_ORIENTATION = 3"
definition BSX_SENSOR_ID_GYROSCOPE :: int where [simp]: "BSX_SENSOR_ID_GYROSCOPE = 4"
definition BSX_SENSOR_ID_LIGHT :: int where [simp]: "BSX_SENSOR_ID_LIGHT = 5"
definition BSX_SENSOR_ID_PRESSURE :: int where [simp]: "BSX_SENSOR_ID_PRESSURE = 6"
definition BSX_SENSOR_ID_TEMPERATURE :: int where [simp]: "BSX_SENSOR_ID_TEMPERATURE = 7"
definition BSX_SENSOR_ID_PROXIMITY :: int where [simp]: "BSX_SENSOR_ID_PROXIMITY = 8"
definition BSX_SENSOR_ID_GRAVITY :: int where [simp]: "BSX_SENSOR_ID_GRAVITY = 9"
definition BSX_SENSOR_ID_LINEAR_ACCELERATION :: int where [simp]: "BSX_SENSOR_ID_LINEAR_ACCELERATION = 10"
definition BSX_SENSOR_ID_ROTATION_VECTOR :: int where [simp]: "BSX_SENSOR_ID_ROTATION_VECTOR = 11"
definition BSX_SENSOR_ID_RELATIVE_HUMIDITY :: int where [simp]: "BSX_SENSOR_ID_RELATIVE_HUMIDITY = 12"
definition BSX_SENSOR_ID_AMBIENT_TEMPERATURE :: int where [simp]: "BSX_SENSOR_ID_AMBIENT_TEMPERATURE = 13"
definition BSX_SENSOR_ID_MAGNETIC_FIELD_UNCALIBRATED :: int where [simp]: "BSX_SENSOR_ID_MAGNETIC_FIELD_UNCALIBRATED = 14"
definition BSX_SENSOR_ID_GAME_ROTATION_VECTOR :: int where [simp]: "BSX_SENSOR_ID_GAME_ROTATION_VECTOR = 15"
definition BSX_SENSOR_ID_GYROSCOPE_UNCALIBRATED :: int where [simp]: "BSX_SENSOR_ID_GYROSCOPE_UNCALIBRATED = 16"
definition BSX_SENSOR_ID_SIGNIFICANT_MOTION :: int where [simp]: "BSX_SENSOR_ID_SIGNIFICANT_MOTION = 17"
definition BSX_SENSOR_ID_STEP_DETECTOR :: int where [simp]: "BSX_SENSOR_ID_STEP_DETECTOR = 18"
definition BSX_SENSOR_ID_STEP_COUNTER :: int where [simp]: "BSX_SENSOR_ID_STEP_COUNTER = 19"
definition BSX_SENSOR_ID_GEOMAGNETIC_ROTATION_VECTOR :: int where [simp]: "BSX_SENSOR_ID_GEOMAGNETIC_ROTATION_VECTOR = 20"
definition BSX_SENSOR_ID_HEART_RATE :: int where [simp]: "BSX_SENSOR_ID_HEART_RATE = 21"
definition BSX_SENSOR_ID_TILT_DETECTOR :: int where [simp]: "BSX_SENSOR_ID_TILT_DETECTOR = 22"
definition BSX_SENSOR_ID_WAKE_GESTURE :: int where [simp]: "BSX_SENSOR_ID_WAKE_GESTURE = 23"
definition BSX_SENSOR_ID_GLANCE_GESTURE :: int where [simp]: "BSX_SENSOR_ID_GLANCE_GESTURE = 24"
definition BSX_SENSOR_ID_PICK_UP_GESTURE :: int where [simp]: "BSX_SENSOR_ID_PICK_UP_GESTURE = 25"
definition BSX_SENSOR_ID_MAGNETIC_FIELD_UNCALIBRATED_OFFSET :: int where [simp]: "BSX_SENSOR_ID_MAGNETIC_FIELD_UNCALIBRATED_OFFSET = 26"
definition BSX_SENSOR_ID_GYROSCOPE_UNCALIBRATED_OFFSET :: int where [simp]: "BSX_SENSOR_ID_GYROSCOPE_UNCALIBRATED_OFFSET = 27"
definition BSX_SENSOR_ID_ACCELEROMETER_UNCALIBRATED_OFFSET :: int where [simp]: "BSX_SENSOR_ID_ACCELEROMETER_UNCALIBRATED_OFFSET = 28"
definition BSX_SENSOR_ID_RAW_ACCELEROMETER :: int where [simp]: "BSX_SENSOR_ID_RAW_ACCELEROMETER = 29"
definition BSX_SENSOR_ID_ACTIVITY :: int where [simp]: "BSX_SENSOR_ID_ACTIVITY = 30"
definition BSX_SENSOR_ID_WAKEUP_START :: int where [simp]: "BSX_SENSOR_ID_WAKEUP_START = 32"
definition BSX_SENSOR_ID_ACCELEROMETER_WAKEUP :: int where [simp]: "BSX_SENSOR_ID_ACCELEROMETER_WAKEUP = 33"
definition BSX_SENSOR_ID_MAGNETIC_FIELD_WAKEUP :: int where [simp]: "BSX_SENSOR_ID_MAGNETIC_FIELD_WAKEUP = 34"
definition BSX_SENSOR_ID_ORIENTATION_WAKEUP :: int where [simp]: "BSX_SENSOR_ID_ORIENTATION_WAKEUP = 35"
definition BSX_SENSOR_ID_GYROSCOPE_WAKEUP :: int where [simp]: "BSX_SENSOR_ID_GYROSCOPE_WAKEUP = 36"
definition BSX_SENSOR_ID_LIGHT_WAKEUP :: int where [simp]: "BSX_SENSOR_ID_LIGHT_WAKEUP = 37"
definition BSX_SENSOR_ID_PRESSURE_WAKEUP :: int where [simp]: "BSX_SENSOR_ID_PRESSURE_WAKEUP = 38"
definition BSX_SENSOR_ID_TEMPERATURE_WAKEUP :: int where [simp]: "BSX_SENSOR_ID_TEMPERATURE_WAKEUP = 39"
definition BSX_SENSOR_ID_PROXIMITY_WAKEUP :: int where [simp]: "BSX_SENSOR_ID_PROXIMITY_WAKEUP = 40"
definition BSX_SENSOR_ID_GRAVITY_WAKEUP :: int where [simp]: "BSX_SENSOR_ID_GRAVITY_WAKEUP = 41"
definition BSX_SENSOR_ID_LINEAR_ACCELERATION_WAKEUP :: int where [simp]: "BSX_SENSOR_ID_LINEAR_ACCELERATION_WAKEUP = 42"
definition BSX_SENSOR_ID_ROTATION_VECTOR_WAKEUP :: int where [simp]: "BSX_SENSOR_ID_ROTATION_VECTOR_WAKEUP = 43"
definition BSX_SENSOR_ID_RELATIVE_HUMIDITY_WAKEUP :: int where [simp]: "BSX_SENSOR_ID_RELATIVE_HUMIDITY_WAKEUP = 44"
definition BSX_SENSOR_ID_AMBIENT_TEMPERATURE_WAKEUP :: int where [simp]: "BSX_SENSOR_ID_AMBIENT_TEMPERATURE_WAKEUP = 45"
definition BSX_SENSOR_ID_MAGNETIC_FIELD_UNCALIBRATED_WAKEUP :: int where [simp]: "BSX_SENSOR_ID_MAGNETIC_FIELD_UNCALIBRATED_WAKEUP = 46"
definition BSX_SENSOR_ID_GAME_ROTATION_VECTOR_WAKEUP :: int where [simp]: "BSX_SENSOR_ID_GAME_ROTATION_VECTOR_WAKEUP = 47"
definition BSX_SENSOR_ID_GYROSCOPE_UNCALIBRATED_WAKEUP :: int where [simp]: "BSX_SENSOR_ID_GYROSCOPE_UNCALIBRATED_WAKEUP = 48"
definition BSX_SENSOR_ID_SIGNIFICANT_MOTION_WAKEUP :: int where [simp]: "BSX_SENSOR_ID_SIGNIFICANT_MOTION_WAKEUP = 49"
definition BSX_SENSOR_ID_STEP_DETECTOR_WAKEUP :: int where [simp]: "BSX_SENSOR_ID_STEP_DETECTOR_WAKEUP = 50"
definition BSX_SENSOR_ID_STEP_COUNTER_WAKEUP :: int where [simp]: "BSX_SENSOR_ID_STEP_COUNTER_WAKEUP = 51"
definition BSX_SENSOR_ID_GEOMAGNETIC_ROTATION_VECTOR_WAKEUP :: int where [simp]: "BSX_SENSOR_ID_GEOMAGNETIC_ROTATION_VECTOR_WAKEUP = 52"
definition BSX_SENSOR_ID_HEART_RATE_WAKEUP :: int where [simp]: "BSX_SENSOR_ID_HEART_RATE_WAKEUP = 53"
definition BSX_SENSOR_ID_TILT_DETECTOR_WAKEUP :: int where [simp]: "BSX_SENSOR_ID_TILT_DETECTOR_WAKEUP = 54"
definition BSX_SENSOR_ID_WAKE_GESTURE_WAKEUP :: int where [simp]: "BSX_SENSOR_ID_WAKE_GESTURE_WAKEUP = 55"
definition BSX_SENSOR_ID_GLANCE_GESTURE_WAKEUP :: int where [simp]: "BSX_SENSOR_ID_GLANCE_GESTURE_WAKEUP = 56"
definition BSX_SENSOR_ID_PICK_UP_GESTURE_WAKEUP :: int where [simp]: "BSX_SENSOR_ID_PICK_UP_GESTURE_WAKEUP = 57"
definition BSX_SENSOR_ID_MAGNETIC_FIELD_UNCALIBRATED_OFFSET_WAKEUP :: int where [simp]: "BSX_SENSOR_ID_MAGNETIC_FIELD_UNCALIBRATED_OFFSET_WAKEUP = 58"
definition BSX_SENSOR_ID_GYROSCOPE_UNCALIBRATED_OFFSET_WAKEUP :: int where [simp]: "BSX_SENSOR_ID_GYROSCOPE_UNCALIBRATED_OFFSET_WAKEUP = 59"
definition BSX_SENSOR_ID_RAW_ACCELEROMETER_WAKEUP :: int where [simp]: "BSX_SENSOR_ID_RAW_ACCELEROMETER_WAKEUP = 60"
definition BSX_SENSOR_ID_MAX :: int where [simp]: "BSX_SENSOR_ID_MAX = 61"
definition BSX_SENSOR_ID_INVALID :: int where [simp]: "BSX_SENSOR_ID_INVALID = 255"
definition BSX_SENSOR_ID_AMBIENT_ALCOHOL :: int where [simp]: "BSX_SENSOR_ID_AMBIENT_ALCOHOL = 100"
definition BSX_SENSOR_ID_AMBIENT_CO2 :: int where [simp]: "BSX_SENSOR_ID_AMBIENT_CO2 = 101"
definition BSX_SENSOR_ID_AMBIENT_IAQ :: int where [simp]: "BSX_SENSOR_ID_AMBIENT_IAQ = 102"
definition BSX_SENSOR_ID_GAS_RESIST :: int where [simp]: "BSX_SENSOR_ID_GAS_RESIST = 103"

end
