(* ===== verification/C_Float.thy ===== *)
theory C_Float
  imports Prelude "HOL-Library.Log_Nat"
begin

text \<open>
  The floating-point arithmetic of the C sources.  A \<open>float\<close> or \<open>double\<close> value is read as
  the rational it denotes and every operation as the exact operation followed by one
  rounding (IEEE 754 round to nearest, ties to even) to 24 or 53 significant bits.  The
  exponent is not limited: the values the sources compute (rates in Hz, periods in ns,
  accelerations) stay far inside the normal range of both formats, and no NaN arises because
  every division is guarded in the code.  The lemmas that the components need are that
  rounding is monotone, is exact on small integers, keeps the sign and has a relative error
  of at most \<open>2 ^ -24\<close> (\<open>2 ^ -53\<close>).
\<close>

section \<open>Rounding to an integer\<close>

definition round_even :: "rat \<Rightarrow> int" where
  "round_even x = (let f = \<lfloor>x\<rfloor>; d = x - of_int f in
     if d < 1 / 2 then f else if 1 / 2 < d then f + 1 else if even f then f else f + 1)"

lemma round_even_of_int [simp]: "round_even (of_int k) = k"
  by (simp add: round_even_def)

lemma round_even_cases: "round_even x = \<lfloor>x\<rfloor> \<or> round_even x = \<lfloor>x\<rfloor> + 1"
  by (auto simp: round_even_def Let_def)

lemma round_even_error: "\<bar>of_int (round_even x) - x\<bar> \<le> 1 / 2"
  using of_int_floor_le [of x] floor_correct [of x]
  by (auto simp: round_even_def Let_def abs_le_iff split: if_splits)

lemma round_even_mono: "x \<le> y \<Longrightarrow> round_even x \<le> round_even y"
proof -
  assume le: "x \<le> y"
  then have fl: "\<lfloor>x\<rfloor> \<le> \<lfloor>y\<rfloor>" by (rule floor_mono)
  show ?thesis
  proof (cases "\<lfloor>x\<rfloor> = \<lfloor>y\<rfloor>")
    case True
    with le show ?thesis by (auto simp: round_even_def Let_def)
  next
    case False
    with fl show ?thesis
      using round_even_cases [of x] round_even_cases [of y] by linarith
  qed
qed

section \<open>The binary exponent\<close>

text \<open>\<open>ilog2 x\<close> is the \<open>k\<close> with \<open>2 ^ k \<le> x < 2 ^ (k + 1)\<close>, for positive \<open>x\<close>.\<close>

definition ilog2 :: "rat \<Rightarrow> int" where
  "ilog2 x = (if 1 \<le> x then bitlen \<lfloor>x\<rfloor> - 1 else - bitlen (\<lceil>1 / x\<rceil> - 1))"

lemma power_int_nat: "0 \<le> k \<Longrightarrow> (2 :: rat) powi k = of_int (2 ^ nat k)"
  by (simp add: power_int_def)

lemma power_int_quotient:
  "a \<le> k \<Longrightarrow> (2 :: rat) powi k / 2 powi a = of_int (2 ^ nat (k - a))"
  by (simp add: power_int_nat [symmetric] power_int_diff del: of_int_power)

lemma ilog2_bounds:
  assumes "0 < x"
  shows "2 powi ilog2 x \<le> x" "x < 2 powi (ilog2 x + 1)"
proof -
  have "2 powi ilog2 x \<le> x \<and> x < 2 powi (ilog2 x + 1)"
  proof (cases "1 \<le> x")
    case True
    define b where "b = bitlen \<lfloor>x\<rfloor>"
    have "0 < \<lfloor>x\<rfloor>" using True by simp
    then have b: "2 ^ nat (b - 1) \<le> \<lfloor>x\<rfloor>" "\<lfloor>x\<rfloor> < 2 ^ nat b"
      using bitlen_bounds [of "\<lfloor>x\<rfloor>"] by (auto simp: b_def)
    with \<open>0 < \<lfloor>x\<rfloor>\<close> have "0 < b" by (cases "0 < b") auto
    have "of_int (2 ^ nat (b - 1)) \<le> x" using b(1) by (simp only: le_floor_iff)
    moreover have "x < of_int (2 ^ nat b)" using b(2) by (simp only: floor_less_iff)
    ultimately show ?thesis
      using True \<open>0 < b\<close> by (simp add: ilog2_def b_def power_int_def)
  next
    case False
    define c where "c = \<lceil>1 / x\<rceil> - 1"
    define b where "b = bitlen c"
    have "1 < 1 / x" using False assms by (simp add: field_simps)
    then have "1 < \<lceil>1 / x\<rceil>" by (simp add: less_ceiling_iff)
    then have "0 < c" by (simp add: c_def)
    have b: "2 ^ nat (b - 1) \<le> c" "c < 2 ^ nat b"
      using bitlen_bounds [OF \<open>0 < c\<close>] by (auto simp: b_def)
    with \<open>0 < c\<close> have "0 < b" by (cases "0 < b") auto
    have "2 ^ nat (b - 1) < \<lceil>1 / x\<rceil>" using b(1) by (simp add: c_def)
    then have lo: "of_int (2 ^ nat (b - 1)) < 1 / x" by (simp only: less_ceiling_iff)
    have "\<lceil>1 / x\<rceil> \<le> 2 ^ nat b" using b(2) by (simp add: c_def)
    then have hi: "1 / x \<le> of_int (2 ^ nat b)" by (simp only: ceiling_le_iff)
    have e: "ilog2 x = - b" "ilog2 x + 1 = - (b - 1)"
      using False by (simp_all add: ilog2_def b_def c_def)
    from hi have "inverse (of_int (2 ^ nat b)) \<le> x"
      using assms by (simp add: field_simps)
    moreover from lo have "x < inverse (of_int (2 ^ nat (b - 1)))"
      using assms by (simp add: field_simps)
    ultimately show ?thesis
      using \<open>0 < b\<close> unfolding e(2) unfolding e(1) power_int_minus by (simp add: power_int_nat)
  qed
  then show "2 powi ilog2 x \<le> x" "x < 2 powi (ilog2 x + 1)" by simp_all
qed

lemma ilog2_mono:
  assumes "0 < x" "x \<le> y"
  shows "ilog2 x \<le> ilog2 y"
proof (rule ccontr)
  assume "\<not> ilog2 x \<le> ilog2 y"
  then have "(2 :: rat) powi (ilog2 y + 1) \<le> 2 powi ilog2 x"
    by (intro power_int_increasing) auto
  with ilog2_bounds [of x] ilog2_bounds [of y] assms show False by linarith
qed

section \<open>Rounding to \<open>p\<close> significant bits\<close>

definition ulp :: "nat \<Rightarrow> rat \<Rightarrow> rat" where
  "ulp p x = 2 powi (ilog2 x + 1 - int p)"

definition fl_pos :: "nat \<Rightarrow> rat \<Rightarrow> rat" where
  "fl_pos p x = of_int (round_even (x / ulp p x)) * ulp p x"

definition fl :: "nat \<Rightarrow> rat \<Rightarrow> rat" where
  "fl p x = (if x = 0 then 0 else if 0 < x then fl_pos p x else - fl_pos p (- x))"

abbreviation f32 :: "rat \<Rightarrow> rat" where "f32 \<equiv> fl 24"
abbreviation f64 :: "rat \<Rightarrow> rat" where "f64 \<equiv> fl 53"

lemma ulp_pos [simp]: "0 < ulp p x"
  by (simp add: ulp_def)

lemma ulp_nonzero [simp]: "ulp p x \<noteq> 0"
  using ulp_pos [of p x] by linarith

lemma scaled_bounds:
  assumes "0 < x" "0 < p"
  shows "of_int (2 ^ (p - 1)) \<le> x / ulp p x" "x / ulp p x < of_int (2 ^ p)"
proof -
  have u: "2 powi (ilog2 x) = of_int (2 ^ (p - 1)) * ulp p x"
    "2 powi (ilog2 x + 1) = of_int (2 ^ p) * ulp p x"
    using assms(2) by (simp_all add: ulp_def power_int_add [symmetric] power_int_of_nat [symmetric]
        del: power_int_of_nat)
  show "of_int (2 ^ (p - 1)) \<le> x / ulp p x" "x / ulp p x < of_int (2 ^ p)"
    using ilog2_bounds [OF assms(1)] unfolding u by (simp_all add: field_simps)
qed

lemma round_even_scaled_bounds:
  assumes "0 < x" "0 < p"
  shows "2 ^ (p - 1) \<le> round_even (x / ulp p x)" "round_even (x / ulp p x) \<le> 2 ^ p"
  using round_even_mono [OF scaled_bounds(1) [OF assms]]
    round_even_mono [OF less_imp_le [OF scaled_bounds(2) [OF assms]]]
  by (simp_all only: round_even_of_int)

text \<open>A rounded value stays in the closed binade of its argument.\<close>

lemma fl_pos_binade:
  assumes "0 < x" "0 < p"
  shows "2 powi ilog2 x \<le> fl_pos p x" "fl_pos p x \<le> 2 powi (ilog2 x + 1)"
proof -
  have u: "2 powi (ilog2 x) = of_int (2 ^ (p - 1)) * ulp p x"
    "2 powi (ilog2 x + 1) = of_int (2 ^ p) * ulp p x"
    using assms(2) by (simp_all add: ulp_def power_int_add [symmetric] power_int_of_nat [symmetric]
        del: power_int_of_nat)
  show "2 powi ilog2 x \<le> fl_pos p x" "fl_pos p x \<le> 2 powi (ilog2 x + 1)"
    unfolding u fl_pos_def
    by (intro mult_right_mono; simp only: of_int_le_iff round_even_scaled_bounds [OF assms]
        less_imp_le [OF ulp_pos])+
qed

lemma fl_pos_positive: "0 < x \<Longrightarrow> 0 < p \<Longrightarrow> 0 < fl_pos p x"
  using fl_pos_binade(1) [of x p] zero_less_power_int [of "2 :: rat" "ilog2 x"] by linarith

lemma fl_pos_mono:
  assumes "0 < x" "x \<le> y" "0 < p"
  shows "fl_pos p x \<le> fl_pos p y"
proof (cases "ilog2 x = ilog2 y")
  case True
  then have u: "ulp p x = ulp p y" by (simp add: ulp_def)
  have "x / ulp p y \<le> y / ulp p y" using assms(2) by (simp add: divide_right_mono less_imp_le)
  then show ?thesis
    unfolding fl_pos_def u by (intro mult_right_mono) (simp_all add: round_even_mono less_imp_le)
next
  case False
  with ilog2_mono [OF assms(1,2)] have "ilog2 x + 1 \<le> ilog2 y" by simp
  then have "(2 :: rat) powi (ilog2 x + 1) \<le> 2 powi ilog2 y"
    by (intro power_int_increasing) auto
  with fl_pos_binade [of x p] fl_pos_binade [of y p] assms show ?thesis by linarith
qed

lemma fl_zero [simp]: "fl p 0 = 0" by (simp add: fl_def)
lemma fl_minus [simp]: "fl p (- x) = - fl p x" by (simp add: fl_def)

lemma fl_pos_iff [simp]: "0 < p \<Longrightarrow> 0 < fl p x \<longleftrightarrow> 0 < x"
  using fl_pos_positive [of x p] fl_pos_positive [of "- x" p] by (auto simp: fl_def)

lemma fl_mono:
  assumes "0 < p" "x \<le> y"
  shows "fl p x \<le> fl p y"
  using assms fl_pos_mono [of x y p] fl_pos_mono [of "- y" "- x" p]
    fl_pos_positive [of "- x" p] fl_pos_positive [of y p]
  by (auto simp: fl_def)

section \<open>Exactness and error\<close>

text \<open>A value is representable when it is \<open>m * 2 ^ k\<close> with \<open>\<bar>m\<bar> \<le> 2 ^ p\<close>.\<close>

lemma fl_pos_exact:
  assumes "0 < p" "0 < m" "m \<le> 2 ^ p"
  shows "fl_pos p (of_int m * 2 powi k) = of_int m * 2 powi k"
proof -
  let ?x = "of_int m * 2 powi k :: rat"
  have pos: "0 < ?x" using assms(2) by simp
  have "ilog2 ?x + 1 - int p \<le> k \<or> m = 2 ^ p"
  proof (rule disjCI)
    assume "m \<noteq> 2 ^ p"
    with assms(3) have "(of_int m :: rat) < of_int (2 ^ p)" by (simp only: of_int_less_iff)
    then have "?x < 2 powi (int p + k)" by (simp add: power_int_add)
    with ilog2_bounds(1) [OF pos] have "(2 :: rat) powi ilog2 ?x < 2 powi (int p + k)" by linarith
    moreover have "(2 :: rat) powi (int p + k) \<le> 2 powi ilog2 ?x" if "int p + k \<le> ilog2 ?x"
      using that by (intro power_int_increasing) auto
    ultimately show "ilog2 ?x + 1 - int p \<le> k" by force
  qed
  then obtain z where z: "?x / ulp p ?x = of_int z"
  proof
    assume le: "ilog2 ?x + 1 - int p \<le> k"
    have "?x / ulp p ?x = of_int (m * 2 ^ nat (k - (ilog2 ?x + 1 - int p)))"
      using arg_cong [OF power_int_quotient [OF le], of "\<lambda>q. of_int m * q"]
      by (simp only: ulp_def of_int_mult times_divide_eq_right)
    then show thesis by (rule that)
  next
    assume m: "m = 2 ^ p"
    have "?x = 2 powi (int p + k)" by (simp add: m power_int_add)
    have "ilog2 ?x \<le> int p + k"
    proof (rule ccontr)
      assume "\<not> ?thesis"
      then have "(2 :: rat) powi (int p + k) < 2 powi ilog2 ?x"
        by (intro power_int_strict_increasing) auto
      with ilog2_bounds(1) [OF pos] \<open>?x = 2 powi (int p + k)\<close> show False by simp
    qed
    then have "ilog2 ?x + 1 - int p \<le> int p + k" using assms(1) by simp
    then have "?x / ulp p ?x = of_int (2 ^ nat (int p + k - (ilog2 ?x + 1 - int p)))"
      unfolding \<open>?x = 2 powi (int p + k)\<close> ulp_def by (rule power_int_quotient)
    then show thesis by (rule that)
  qed
  have "fl_pos p ?x = of_int (round_even (?x / ulp p ?x)) * ulp p ?x" by (simp add: fl_pos_def)
  also have "\<dots> = ?x / ulp p ?x * ulp p ?x" unfolding z by simp
  finally show ?thesis by simp
qed

lemma fl_exact:
  assumes "0 < p" "\<bar>m\<bar> \<le> 2 ^ p"
  shows "fl p (of_int m * 2 powi k) = of_int m * 2 powi k"
proof -
  let ?x = "of_int m * 2 powi k :: rat"
  have pos: "(0 :: rat) < 2 powi k" by simp
  consider "m = 0" | "0 < m" | "m < 0" by linarith
  then show ?thesis
  proof cases
    case 1
    then show ?thesis by simp
  next
    case 2
    with pos have "0 < ?x" by (simp only: zero_less_mult_iff of_int_0_less_iff) simp
    with 2 assms show ?thesis by (simp only: fl_def fl_pos_exact) simp
  next
    case 3
    have neg: "fl_pos p (of_int (- m) * 2 powi k) = of_int (- m) * 2 powi k"
      using 3 assms by (intro fl_pos_exact) auto
    from 3 pos have "?x < 0" by (simp only: mult_less_0_iff of_int_less_0_iff) simp
    with 3 have "fl p ?x = - fl_pos p (- ?x)" unfolding fl_def by simp
    with neg 3 show ?thesis by simp
  qed
qed

lemma fl_of_int: "0 < p \<Longrightarrow> \<bar>m\<bar> \<le> 2 ^ p \<Longrightarrow> fl p (of_int m) = of_int m"
  using fl_exact [of p m 0] by simp

lemma fl_numeral [simp]: "0 < p \<Longrightarrow> numeral m \<le> (2 ^ p :: int) \<Longrightarrow> fl p (numeral m) = numeral m"
  using fl_of_int [of p "numeral m"] by simp

lemma fl_one [simp]: "0 < p \<Longrightarrow> fl p 1 = 1"
  using fl_of_int [of p 1] by simp

text \<open>Comparing a rounded value with a representable bound is comparing the exact value,
  up to rounding onto the bound.\<close>

lemma fl_le: "0 < p \<Longrightarrow> fl p t = t \<Longrightarrow> x \<le> t \<Longrightarrow> fl p x \<le> t"
  using fl_mono [of p x t] by simp

lemma fl_ge: "0 < p \<Longrightarrow> fl p t = t \<Longrightarrow> t \<le> x \<Longrightarrow> t \<le> fl p x"
  using fl_mono [of p t x] by simp

lemma fl_pos_error:
  assumes "0 < x" "0 < p"
  shows "\<bar>fl_pos p x - x\<bar> \<le> x / 2 ^ p"
proof -
  have "fl_pos p x - x = (of_int (round_even (x / ulp p x)) - x / ulp p x) * ulp p x"
    by (simp add: fl_pos_def left_diff_distrib)
  then have "\<bar>fl_pos p x - x\<bar> = \<bar>of_int (round_even (x / ulp p x)) - x / ulp p x\<bar> * ulp p x"
    by (simp add: abs_mult less_imp_le)
  also have "\<dots> \<le> 1 / 2 * ulp p x"
    by (intro mult_right_mono round_even_error less_imp_le [OF ulp_pos])
  finally have "\<bar>fl_pos p x - x\<bar> \<le> 1 / 2 * ulp p x" .
  also have "1 / 2 * ulp p x \<le> x / 2 ^ p"
    using scaled_bounds(1) [OF assms] assms(2) by (cases p) (simp_all add: field_simps)
  finally show ?thesis .
qed

lemma fl_error: "0 < p \<Longrightarrow> \<bar>fl p x - x\<bar> \<le> \<bar>x\<bar> / 2 ^ p"
  using fl_pos_error [of x p] fl_pos_error [of "- x" p]
  by (cases x "0 :: rat" rule: linorder_cases) (auto simp: fl_def abs_minus_commute)

lemma fl_upper: "0 < p \<Longrightarrow> 0 \<le> x \<Longrightarrow> fl p x \<le> x * (1 + 1 / 2 ^ p)"
  using fl_error [of p x] by (simp only: abs_le_iff distrib_left) simp

lemma fl_lower: "0 < p \<Longrightarrow> 0 \<le> x \<Longrightarrow> x * (1 - 1 / 2 ^ p) \<le> fl p x"
  using fl_error [of p x] by (simp only: abs_le_iff right_diff_distrib) simp

text \<open>Every rounded value is representable.\<close>

lemma fl_representable:
  assumes "0 < p"
  obtains m k where "fl p x = of_int m * 2 powi k" "\<bar>m\<bar> \<le> 2 ^ p"
proof -
  have *: "\<exists>m k. fl_pos p y = of_int m * 2 powi k \<and> \<bar>m\<bar> \<le> 2 ^ p" if "0 < y" for y
  proof (intro exI conjI)
    show "fl_pos p y = of_int (round_even (y / ulp p y)) * 2 powi (ilog2 y + 1 - int p)"
      by (simp only: fl_pos_def ulp_def)
    have "(0 :: int) \<le> 2 ^ (p - 1)" by simp
    with round_even_scaled_bounds [OF that assms]
    show "\<bar>round_even (y / ulp p y)\<bar> \<le> 2 ^ p" by linarith
  qed
  consider "x = 0" | "0 < x" | "x < 0" by linarith
  then show ?thesis
  proof cases
    case 1
    then show ?thesis using that [of 0 0] by simp
  next
    case 2
    with * show ?thesis using that by (force simp: fl_def)
  next
    case 3
    then obtain m k where "fl_pos p (- x) = of_int m * 2 powi k" "\<bar>m\<bar> \<le> 2 ^ p"
      using * [of "- x"] by auto
    with 3 show ?thesis using that [of "- m" k] by (simp add: fl_def)
  qed
qed

text \<open>The product of two short significands needs no rounding in the wider format.\<close>

lemma fl_product_exact:
  assumes "fl p x = x" "\<bar>i\<bar> \<le> 2 ^ q" "0 < p" "p + q \<le> r"
  shows "fl r (of_int i * x) = of_int i * x"
proof -
  obtain m k where m: "x = of_int m * 2 powi k" "\<bar>m\<bar> \<le> 2 ^ p"
    using fl_representable [OF assms(3), of x] assms(1) by metis
  have "\<bar>i * m\<bar> \<le> 2 ^ q * 2 ^ p"
    unfolding abs_mult using assms(2) m(2) by (intro mult_mono) auto
  also have "\<dots> \<le> (2 :: int) ^ r"
    using assms(4) by (simp add: power_add [symmetric] add.commute power_increasing)
  finally show ?thesis
    using fl_exact [of r "i * m" k] assms(3,4) by (simp add: m(1) mult.assoc)
qed

lemma fl_fl [simp]: "0 < p \<Longrightarrow> fl p (fl p x) = fl p x"
  by (metis fl_exact fl_representable)

section \<open>Conversions to integers\<close>

text \<open>C truncates towards zero when a floating value becomes an integer.\<close>

definition f_to_int :: "rat \<Rightarrow> int" where
  "f_to_int x = (if 0 \<le> x then \<lfloor>x\<rfloor> else \<lceil>x\<rceil>)"

end
