(* ===== verification/Sensor_Table.thy ===== *)
theory Sensor_Table
  imports Sensor_Constants C_Float
begin

text \<open>
  The static tables of \<open>legacy/sensord/sensord_hwcntl.cpp\<close>: the 64 sensor descriptions
  (\<open>bosch_all_sensors\<close>), the default configuration of every non-wakeup and wakeup sensor,
  and the map from list indices to the identifiers of the fusion library.  The tables are
  lists in the order of \<open>BSX4_SENSORLIST_INX\<close>; a \<open>const char *\<close> that may be NULL is an
  optional string.
\<close>

section \<open>Constants of the tables\<close>

definition BST_SENSOR_MINDELAY_uS :: int where [simp]: "BST_SENSOR_MINDELAY_uS = 500"
definition SENSOR_MINDELAY_ONCHANGE :: int where [simp]: "SENSOR_MINDELAY_ONCHANGE = 200000"
definition SENSOR_MINDELAY_ONESHOT :: int where [simp]: "SENSOR_MINDELAY_ONESHOT = -1"
definition SENSOR_MINDELAY_SPECIAL :: int where [simp]: "SENSOR_MINDELAY_SPECIAL = 0"
definition SENSOR_MAXDELAY_ONESHOT :: int where [simp]: "SENSOR_MAXDELAY_ONESHOT = 0"
definition SENSOR_MAXDELAY_SPECIAL :: int where [simp]: "SENSOR_MAXDELAY_SPECIAL = 0"
definition SENSOR_MAXDELAY_ONCHANGE :: int where [simp]: "SENSOR_MAXDELAY_ONCHANGE = 1800000000"
definition BATCH_RSV_FRAME_COUNT :: u32 where [simp]: "BATCH_RSV_FRAME_COUNT = 0"
definition BATCH_MAX_FRAME_COUNT :: u32 where [simp]: "BATCH_MAX_FRAME_COUNT = 2000"

definition BSX_CONFSTR_2000Hz :: u8 where [simp]: "BSX_CONFSTR_2000Hz = 18"
definition BSX_CONFSTR_1600Hz :: u8 where [simp]: "BSX_CONFSTR_1600Hz = 17"
definition BSX_CONFSTR_1000Hz :: u8 where [simp]: "BSX_CONFSTR_1000Hz = 16"
definition BSX_CONFSTR_800Hz :: u8 where [simp]: "BSX_CONFSTR_800Hz = 15"
definition BSX_CONFSTR_400Hz :: u8 where [simp]: "BSX_CONFSTR_400Hz = 1"
definition BSX_CONFSTR_200Hz :: u8 where [simp]: "BSX_CONFSTR_200Hz = 2"
definition BSX_CONFSTR_100Hz :: u8 where [simp]: "BSX_CONFSTR_100Hz = 3"
definition BSX_CONFSTR_50Hz :: u8 where [simp]: "BSX_CONFSTR_50Hz = 4"
definition BSX_CONFSTR_25Hz :: u8 where [simp]: "BSX_CONFSTR_25Hz = 5"
definition BSX_CONFSTR_12_5Hz :: u8 where [simp]: "BSX_CONFSTR_12_5Hz = 6"
definition BSX_CONFSTR_6_25Hz :: u8 where [simp]: "BSX_CONFSTR_6_25Hz = 7"
definition BSX_CONFSTR_5Hz :: u8 where [simp]: "BSX_CONFSTR_5Hz = 8"
definition BSX_CONFSTR_1Hz :: u8 where [simp]: "BSX_CONFSTR_1Hz = 9"
definition BSX_CONFSTR_UNITns :: u8 where [simp]: "BSX_CONFSTR_UNITns = 0"
definition BSX_CONFSTR_UNITus :: u8 where [simp]: "BSX_CONFSTR_UNITus = 64"
definition BSX_CONFSTR_UNITms :: u8 where [simp]: "BSX_CONFSTR_UNITms = 128"
definition BSX_CONFSTR_UNITs :: u8 where [simp]: "BSX_CONFSTR_UNITs = 192"

definition BSX_VIRTUAL_SENSOR_ID_INVALID :: int where [simp]: "BSX_VIRTUAL_SENSOR_ID_INVALID = 0"
definition BSX_OUTPUT_ID_ACCELERATION_RAW :: int where [simp]: "BSX_OUTPUT_ID_ACCELERATION_RAW = 2"
definition BSX_OUTPUT_ID_ACCELERATION_CORRECTED :: int where [simp]: "BSX_OUTPUT_ID_ACCELERATION_CORRECTED = 4"
definition BSX_OUTPUT_ID_ACCELERATION_OFFSET :: int where [simp]: "BSX_OUTPUT_ID_ACCELERATION_OFFSET = 6"
definition BSX_WAKEUP_ID_ACCELERATION_CORRECTED :: int where [simp]: "BSX_WAKEUP_ID_ACCELERATION_CORRECTED = 8"
definition BSX_WAKEUP_ID_ACCELERATION_RAW :: int where [simp]: "BSX_WAKEUP_ID_ACCELERATION_RAW = 10"
definition BSX_OUTPUT_ID_ANGULARRATE_RAW :: int where [simp]: "BSX_OUTPUT_ID_ANGULARRATE_RAW = 12"
definition BSX_OUTPUT_ID_ANGULARRATE_CORRECTED :: int where [simp]: "BSX_OUTPUT_ID_ANGULARRATE_CORRECTED = 14"
definition BSX_OUTPUT_ID_ANGULARRATE_OFFSET :: int where [simp]: "BSX_OUTPUT_ID_ANGULARRATE_OFFSET = 16"
definition BSX_WAKEUP_ID_ANGULARRATE_CORRECTED :: int where [simp]: "BSX_WAKEUP_ID_ANGULARRATE_CORRECTED = 18"
definition BSX_WAKEUP_ID_ANGULARRATE_RAW :: int where [simp]: "BSX_WAKEUP_ID_ANGULARRATE_RAW = 20"
definition BSX_OUTPUT_ID_MAGNETICFIELD_RAW :: int where [simp]: "BSX_OUTPUT_ID_MAGNETICFIELD_RAW = 22"
definition BSX_OUTPUT_ID_MAGNETICFIELD_CORRECTED :: int where [simp]: "BSX_OUTPUT_ID_MAGNETICFIELD_CORRECTED = 24"
definition BSX_OUTPUT_ID_MAGNETICFIELD_OFFSET :: int where [simp]: "BSX_OUTPUT_ID_MAGNETICFIELD_OFFSET = 26"
definition BSX_WAKEUP_ID_MAGNETICFIELD_CORRECTED :: int where [simp]: "BSX_WAKEUP_ID_MAGNETICFIELD_CORRECTED = 28"
definition BSX_WAKEUP_ID_MAGNETICFIELD_RAW :: int where [simp]: "BSX_WAKEUP_ID_MAGNETICFIELD_RAW = 30"
definition BSX_OUTPUT_ID_GRAVITY :: int where [simp]: "BSX_OUTPUT_ID_GRAVITY = 32"
definition BSX_WAKEUP_ID_GRAVITY :: int where [simp]: "BSX_WAKEUP_ID_GRAVITY = 34"
definition BSX_OUTPUT_ID_LINEARACCELERATION :: int where [simp]: "BSX_OUTPUT_ID_LINEARACCELERATION = 36"
definition BSX_WAKEUP_ID_LINEARACCELERATION :: int where [simp]: "BSX_WAKEUP_ID_LINEARACCELERATION = 38"
definition BSX_OUTPUT_ID_ROTATION :: int where [simp]: "BSX_OUTPUT_ID_ROTATION = 40"
definition BSX_WAKEUP_ID_ROTATION :: int where [simp]: "BSX_WAKEUP_ID_ROTATION = 42"
definition BSX_OUTPUT_ID_ROTATION_GAME :: int where [simp]: "BSX_OUTPUT_ID_ROTATION_GAME = 44"
definition BSX_WAKEUP_ID_ROTATION_GAME :: int where [simp]: "BSX_WAKEUP_ID_ROTATION_GAME = 46"
definition BSX_OUTPUT_ID_ROTATION_GEOMAGNETIC :: int where [simp]: "BSX_OUTPUT_ID_ROTATION_GEOMAGNETIC = 48"
definition BSX_WAKEUP_ID_ROTATION_GEOMAGNETIC :: int where [simp]: "BSX_WAKEUP_ID_ROTATION_GEOMAGNETIC = 50"
definition BSX_OUTPUT_ID_ORIENTATION :: int where [simp]: "BSX_OUTPUT_ID_ORIENTATION = 52"
definition BSX_WAKEUP_ID_ORIENTATION :: int where [simp]: "BSX_WAKEUP_ID_ORIENTATION = 54"
definition BSX_OUTPUT_ID_FLIP_STATUS :: int where [simp]: "BSX_OUTPUT_ID_FLIP_STATUS = 62"
definition BSX_OUTPUT_ID_TILT_STATUS :: int where [simp]: "BSX_OUTPUT_ID_TILT_STATUS = 64"
definition BSX_OUTPUT_ID_STEPDETECTOR :: int where [simp]: "BSX_OUTPUT_ID_STEPDETECTOR = 66"
definition BSX_OUTPUT_ID_STEPCOUNTER :: int where [simp]: "BSX_OUTPUT_ID_STEPCOUNTER = 68"
definition BSX_WAKEUP_ID_STEPCOUNTER :: int where [simp]: "BSX_WAKEUP_ID_STEPCOUNTER = 70"
definition BSX_OUTPUT_ID_SIGNIFICANTMOTION_STATUS :: int where [simp]: "BSX_OUTPUT_ID_SIGNIFICANTMOTION_STATUS = 72"
definition BSX_OUTPUT_ID_WAKE_STATUS :: int where [simp]: "BSX_OUTPUT_ID_WAKE_STATUS = 74"
definition BSX_OUTPUT_ID_GLANCE_STATUS :: int where [simp]: "BSX_OUTPUT_ID_GLANCE_STATUS = 76"
definition BSX_OUTPUT_ID_PICKUP_STATUS :: int where [simp]: "BSX_OUTPUT_ID_PICKUP_STATUS = 78"
definition BSX_OUTPUT_ID_ACTIVITY :: int where [simp]: "BSX_OUTPUT_ID_ACTIVITY = 80"
definition BSX_OUTPUT_ID_PROPAGATION :: int where [simp]: "BSX_OUTPUT_ID_PROPAGATION = 82"
definition BSX_OUTPUT_ID_POSITION_STEPS :: int where [simp]: "BSX_OUTPUT_ID_POSITION_STEPS = 84"
definition BSX_OUTPUT_ID_STANDBY_STATUS :: int where [simp]: "BSX_OUTPUT_ID_STANDBY_STATUS = 86"
definition BSX_OUTPUT_ID_ACCELERATION_STATUS :: int where [simp]: "BSX_OUTPUT_ID_ACCELERATION_STATUS = 90"
definition BSX_OUTPUT_ID_ACCELERATION_DYNAMIC :: int where [simp]: "BSX_OUTPUT_ID_ACCELERATION_DYNAMIC = 92"
definition BSX_OUTPUT_ID_ANGULARRATE_STATUS :: int where [simp]: "BSX_OUTPUT_ID_ANGULARRATE_STATUS = 94"
definition BSX_OUTPUT_ID_MAGNETICFIELD_STATUS :: int where [simp]: "BSX_OUTPUT_ID_MAGNETICFIELD_STATUS = 96"
definition BSX_OUTPUT_ID_ANGULARRATE_M4G :: int where [simp]: "BSX_OUTPUT_ID_ANGULARRATE_M4G = 98"
definition BSX_WAKEUP_ID_ANGULARRATE_M4G :: int where [simp]: "BSX_WAKEUP_ID_ANGULARRATE_M4G = 100"

definition GRAVITY_EARTH :: rat where
  "GRAVITY_EARTH = f32 (980665 / 100000)"

section \<open>Sensor descriptions\<close>

record sensor_t =
  st_name :: "string option"
  st_vendor :: string
  st_version :: int
  st_handle :: int
  st_type :: int
  st_maxRange :: rat
  st_resolution :: rat
  st_power :: rat
  st_minDelay :: int
  st_fifoReservedEventCount :: u32
  st_fifoMaxEventCount :: u32
  st_stringType :: string
  st_requiredPermission :: "string option"
  st_maxDelay :: int
  st_flags :: u32

definition sensor_entry ::
    "string \<Rightarrow> int \<Rightarrow> int \<Rightarrow> rat \<Rightarrow> rat \<Rightarrow> rat \<Rightarrow> int \<Rightarrow> u32 \<Rightarrow> u32 \<Rightarrow> string \<Rightarrow> string option \<Rightarrow> int \<Rightarrow> u32 \<Rightarrow> sensor_t" where
  "sensor_entry name handle type maxRange resolution pwr minDelay fifoReserved fifoMax
     stringType permission maxDelay flags =
   \<lparr> st_name = Some name, st_vendor = ''Bosch'', st_version = 1, st_handle = handle,
     st_type = type, st_maxRange = maxRange, st_resolution = resolution, st_power = pwr,
     st_minDelay = minDelay, st_fifoReservedEventCount = fifoReserved,
     st_fifoMaxEventCount = fifoMax, st_stringType = stringType,
     st_requiredPermission = permission, st_maxDelay = maxDelay, st_flags = flags \<rparr>"

definition UNUSED_SENSOR_T :: "string \<Rightarrow> sensor_t" where
  "UNUSED_SENSOR_T sensor_name = sensor_entry sensor_name BSX_SENSOR_ID_INVALID 0 1 1 0 0 0 0
     [] None 0 SENSOR_FLAG_SPECIAL_REPORTING_MODE"

definition bosch_sensors_0 :: "sensor_t list" where
 "bosch_sensors_0 = [
  sensor_entry (''BOSCH GAS Resist Sensor'') BSX_SENSOR_ID_GAS_RESIST SENSOR_TYPE_BOSCH_GAS_RESIST (1000) (1) (f32 (1 / 10)) (1000000) 0 0 ''com.bosch-BoschSensor.www.GAS'' (None) (1000000) (SENSOR_FLAG_ON_CHANGE_MODE),
  sensor_entry (''BOSCH Accelerometer Sensor'') BSX_SENSOR_ID_ACCELEROMETER SENSOR_TYPE_ACCELEROMETER (f32 (16 * GRAVITY_EARTH)) (f32 (1 / 10)) (f32 (13 / 100)) (BST_SENSOR_MINDELAY_uS) BATCH_RSV_FRAME_COUNT BATCH_MAX_FRAME_COUNT ''android.sensor.accelerometer'' (None) (200000) (SENSOR_FLAG_CONTINUOUS_MODE),
  sensor_entry (''BOSCH Magnetic Field Sensor'') BSX_SENSOR_ID_MAGNETIC_FIELD SENSOR_TYPE_MAGNETIC_FIELD (1600) (f32 (3 / 10)) (f32 (5 / 10)) (40000) BATCH_RSV_FRAME_COUNT BATCH_MAX_FRAME_COUNT ''android.sensor.magnetic_field'' (None) (200000) (SENSOR_FLAG_CONTINUOUS_MODE),
  sensor_entry (''BOSCH Orientation Sensor'') BSX_SENSOR_ID_ORIENTATION SENSOR_TYPE_ORIENTATION (360) (1) (f32 (63 / 100)) (BST_SENSOR_MINDELAY_uS) BATCH_RSV_FRAME_COUNT BATCH_MAX_FRAME_COUNT ''android.sensor.orientation'' (None) (200000) (SENSOR_FLAG_CONTINUOUS_MODE),
  sensor_entry (''BOSCH Gyroscope Sensor'') BSX_SENSOR_ID_GYROSCOPE SENSOR_TYPE_GYROSCOPE (2500) (1) (5) (BST_SENSOR_MINDELAY_uS) BATCH_RSV_FRAME_COUNT BATCH_MAX_FRAME_COUNT ''android.sensor.gyroscope'' (None) (200000) (SENSOR_FLAG_CONTINUOUS_MODE),
  sensor_entry (''BOSCH light'') BSX_SENSOR_ID_LIGHT SENSOR_TYPE_LIGHT (10000) (f32 (1 / 100)) (f32 (175 / 1000)) (SENSOR_MINDELAY_ONCHANGE) BATCH_RSV_FRAME_COUNT BATCH_MAX_FRAME_COUNT ''android.sensor.light'' (None) (SENSOR_MAXDELAY_ONCHANGE) (SENSOR_FLAG_ON_CHANGE_MODE),
  sensor_entry (''BOSCH Pressure Sensor'') BSX_SENSOR_ID_PRESSURE SENSOR_TYPE_PRESSURE (1100) (f32 (18 / 100)) (4) (160000) 0 0 ''android.sensor.pressure'' (None) (160000) (SENSOR_FLAG_CONTINUOUS_MODE),
  sensor_entry (''BOSCH Temperature Sensor'') BSX_SENSOR_ID_TEMPERATURE SENSOR_TYPE_TEMPERATURE (200) (f32 (1 / 10)) (f32 (1 / 10)) (1000000) 0 0 ''android.sensor.temperature'' (None) (1000000) (SENSOR_FLAG_ON_CHANGE_MODE),
  UNUSED_SENSOR_T ''BOSCH proximity'',
  sensor_entry (''BOSCH Gravity Sensor'') BSX_SENSOR_ID_GRAVITY SENSOR_TYPE_GRAVITY (f32 (2 * GRAVITY_EARTH)) (f32 (1 / 10)) (f32 (563 / 100)) (BST_SENSOR_MINDELAY_uS) BATCH_RSV_FRAME_COUNT BATCH_MAX_FRAME_COUNT ''android.sensor.gravity'' (None) (200000) (SENSOR_FLAG_CONTINUOUS_MODE)]"

definition bosch_sensors_1 :: "sensor_t list" where
 "bosch_sensors_1 = [
  sensor_entry (''BOSCH Linear Acceleration Sensor'') BSX_SENSOR_ID_LINEAR_ACCELERATION SENSOR_TYPE_LINEAR_ACCELERATION (f32 (2 * GRAVITY_EARTH)) (f32 (1 / 10)) (f32 (563 / 100)) (BST_SENSOR_MINDELAY_uS) BATCH_RSV_FRAME_COUNT BATCH_MAX_FRAME_COUNT ''android.sensor.linear_acceleration'' (None) (200000) (SENSOR_FLAG_CONTINUOUS_MODE),
  sensor_entry (''BOSCH Rotation Vector Sensor'') BSX_SENSOR_ID_ROTATION_VECTOR SENSOR_TYPE_ROTATION_VECTOR (1) (f32 (3 / 100000)) (f32 (563 / 100)) (BST_SENSOR_MINDELAY_uS) BATCH_RSV_FRAME_COUNT BATCH_MAX_FRAME_COUNT ''android.sensor.rotation_vector'' (None) (200000) (SENSOR_FLAG_CONTINUOUS_MODE),
  sensor_entry (''BOSCH Relative Humidity Sensor'') BSX_SENSOR_ID_RELATIVE_HUMIDITY SENSOR_TYPE_RELATIVE_HUMIDITY (1) (f32 (1 / 100)) (f32 (6 / 10)) (1000000) BATCH_RSV_FRAME_COUNT BATCH_MAX_FRAME_COUNT ''android.sensor.relative_humidity'' (None) (1000000) (SENSOR_FLAG_ON_CHANGE_MODE),
  sensor_entry (''BOSCH Ambient Temperature Sensor'') BSX_SENSOR_ID_AMBIENT_TEMPERATURE SENSOR_TYPE_AMBIENT_TEMPERATURE (200) (f32 (1 / 10)) (f32 (1 / 10)) (1000000) 0 0 ''android.sensor.ambient_temperature'' (None) (1000000) (SENSOR_FLAG_ON_CHANGE_MODE),
  sensor_entry (''BOSCH Magnetic Field Uncalibrated Sensor'') BSX_SENSOR_ID_MAGNETIC_FIELD_UNCALIBRATED SENSOR_TYPE_MAGNETIC_FIELD_UNCALIBRATED (1600) (f32 (3 / 10)) (f32 (5 / 10)) (40000) BATCH_RSV_FRAME_COUNT BATCH_MAX_FRAME_COUNT ''android.sensor.magnetic_field_uncalibrated'' (None) (200000) (SENSOR_FLAG_CONTINUOUS_MODE),
  sensor_entry (''BOSCH Game Rotation Vector Sensor'') BSX_SENSOR_ID_GAME_ROTATION_VECTOR SENSOR_TYPE_GAME_ROTATION_VECTOR (1) (f32 (3 / 100000)) (f32 (563 / 100)) (BST_SENSOR_MINDELAY_uS) BATCH_RSV_FRAME_COUNT BATCH_MAX_FRAME_COUNT ''android.sensor.game_rotation_vector'' (None) (200000) (SENSOR_FLAG_CONTINUOUS_MODE),
  sensor_entry (''BOSCH Gyroscope Uncalibrated Sensor'') BSX_SENSOR_ID_GYROSCOPE_UNCALIBRATED SENSOR_TYPE_GYROSCOPE_UNCALIBRATED (300) (1) (5) (BST_SENSOR_MINDELAY_uS) BATCH_RSV_FRAME_COUNT BATCH_MAX_FRAME_COUNT ''android.sensor.gyroscope_uncalibrated'' (None) (200000) (SENSOR_FLAG_CONTINUOUS_MODE),
  UNUSED_SENSOR_T ''BOSCH significant motion nonwakeup'',
  sensor_entry (''BOSCH Step Detector Sensor'') BSX_SENSOR_ID_STEP_DETECTOR SENSOR_TYPE_STEP_DETECTOR (1) (1) (f32 (563 / 100)) (SENSOR_MINDELAY_SPECIAL) BATCH_RSV_FRAME_COUNT BATCH_MAX_FRAME_COUNT ''android.sensor.step_detector'' (None) (SENSOR_MAXDELAY_SPECIAL) (SENSOR_FLAG_SPECIAL_REPORTING_MODE),
  sensor_entry (''BOSCH Step Counter Sensor'') BSX_SENSOR_ID_STEP_COUNTER SENSOR_TYPE_STEP_COUNTER (10000) (1) (f32 (563 / 100)) (SENSOR_MINDELAY_ONCHANGE) BATCH_RSV_FRAME_COUNT BATCH_MAX_FRAME_COUNT ''android.sensor.step_counter'' (None) (SENSOR_MAXDELAY_ONCHANGE) (SENSOR_FLAG_ON_CHANGE_MODE)]"

definition bosch_sensors_2 :: "sensor_t list" where
 "bosch_sensors_2 = [
  sensor_entry (''BOSCH Geomagnetic Rotation Vector Sensor'') BSX_SENSOR_ID_GEOMAGNETIC_ROTATION_VECTOR SENSOR_TYPE_GEOMAGNETIC_ROTATION_VECTOR (1) (f32 (3 / 100000)) (f32 (563 / 100)) (40000) BATCH_RSV_FRAME_COUNT BATCH_MAX_FRAME_COUNT ''android.sensor.geomagnetic_rotation_vector'' (None) (200000) (SENSOR_FLAG_CONTINUOUS_MODE),
  sensor_entry (''BOSCH heart rate'') BSX_SENSOR_ID_HEART_RATE SENSOR_TYPE_HEART_RATE (1000) (1) (f32 (563 / 100)) (SENSOR_MINDELAY_ONCHANGE) BATCH_RSV_FRAME_COUNT BATCH_MAX_FRAME_COUNT ''android.sensor.heart_rate'' (Some ''android.permission.BODY_SENSORS'') (SENSOR_MAXDELAY_ONCHANGE) (SENSOR_FLAG_ON_CHANGE_MODE),
  UNUSED_SENSOR_T ''BOSCH tilt detector nonwakeup'',
  UNUSED_SENSOR_T ''BOSCH wake gesture nonwakeup'',
  UNUSED_SENSOR_T ''BOSCH glance gesture nonwakeup'',
  UNUSED_SENSOR_T ''BOSCH pickup gesture nonwakeup'',
  UNUSED_SENSOR_T ''BOSCH magnetic uncal offset'',
  UNUSED_SENSOR_T ''BOSCH gyroscope uncal offset'',
  UNUSED_SENSOR_T ''BOSCH power consumption nonwakeup'',
  sensor_entry (''BOSCH Ambient Alcohol Sensor'') BSX_SENSOR_ID_AMBIENT_ALCOHOL SENSOR_TYPE_BOSCH_AMBIENT_ALCOHOL (1000) (1) (f32 (1 / 10)) (1000000) 0 0 ''com.bosch-BoschSensor.www.ALCOHOL'' (None) (1000000) (SENSOR_FLAG_ON_CHANGE_MODE),
  sensor_entry (''BOSCH Ambient CO2 Sensor'') BSX_SENSOR_ID_AMBIENT_CO2 SENSOR_TYPE_BOSCH_AMBIENT_CO2 (1000) (1) (f32 (1 / 10)) (1000000) 0 0 ''com.bosch-BoschSensor.www.CO2'' (None) (1000000) (SENSOR_FLAG_ON_CHANGE_MODE),
  sensor_entry (''BOSCH Ambient IAQ Sensor'') BSX_SENSOR_ID_AMBIENT_IAQ SENSOR_TYPE_BOSCH_AMBIENT_IAQ (1000) (1) (f32 (1 / 10)) (1000000) 0 0 ''com.bosch-BoschSensor.www.IAQ'' (None) (1000000) (SENSOR_FLAG_ON_CHANGE_MODE),
  UNUSED_SENSOR_T ''BOSCH Signi Pressure (Wakeup) Sensor'',
  sensor_entry (''BOSCH Accelerometer (Wakeup) Sensor'') BSX_SENSOR_ID_ACCELEROMETER_WAKEUP SENSOR_TYPE_ACCELEROMETER (f32 (2 * GRAVITY_EARTH)) (f32 (1 / 10)) (f32 (13 / 100)) (BST_SENSOR_MINDELAY_uS) BATCH_RSV_FRAME_COUNT BATCH_MAX_FRAME_COUNT ''android.sensor.accelerometer'' (None) (200000) (SENSOR_FLAG_CONTINUOUS_MODE OR SENSOR_FLAG_WAKE_UP),
  sensor_entry (''BOSCH Magnetic Field (Wakeup) Sensor'') BSX_SENSOR_ID_MAGNETIC_FIELD_WAKEUP SENSOR_TYPE_MAGNETIC_FIELD (1600) (f32 (3 / 10)) (f32 (5 / 10)) (40000) BATCH_RSV_FRAME_COUNT BATCH_MAX_FRAME_COUNT ''android.sensor.magnetic_field'' (None) (200000) (SENSOR_FLAG_CONTINUOUS_MODE OR SENSOR_FLAG_WAKE_UP),
  sensor_entry (''BOSCH Orientation (Wakeup) Sensor'') BSX_SENSOR_ID_ORIENTATION_WAKEUP SENSOR_TYPE_ORIENTATION (360) (1) (f32 (63 / 100)) (BST_SENSOR_MINDELAY_uS) BATCH_RSV_FRAME_COUNT BATCH_MAX_FRAME_COUNT ''android.sensor.orientation'' (None) (200000) (SENSOR_FLAG_CONTINUOUS_MODE OR SENSOR_FLAG_WAKE_UP)]"

definition bosch_sensors_3 :: "sensor_t list" where
 "bosch_sensors_3 = [
  sensor_entry (''BOSCH Gyroscope (Wakeup) Sensor'') BSX_SENSOR_ID_GYROSCOPE_WAKEUP SENSOR_TYPE_GYROSCOPE (2500) (1) (5) (BST_SENSOR_MINDELAY_uS) BATCH_RSV_FRAME_COUNT BATCH_MAX_FRAME_COUNT ''android.sensor.gyroscope'' (None) (200000) (SENSOR_FLAG_CONTINUOUS_MODE OR SENSOR_FLAG_WAKE_UP),
  sensor_entry (''BOSCH light wakeup'') BSX_SENSOR_ID_LIGHT_WAKEUP SENSOR_TYPE_LIGHT (10000) (f32 (1 / 100)) (f32 (175 / 1000)) (SENSOR_MINDELAY_ONCHANGE) BATCH_RSV_FRAME_COUNT BATCH_MAX_FRAME_COUNT ''android.sensor.light'' (None) (SENSOR_MAXDELAY_ONCHANGE) (SENSOR_FLAG_ON_CHANGE_MODE OR SENSOR_FLAG_WAKE_UP),
  sensor_entry (''BOSCH Pressure (Wakeup) Sensor'') BSX_SENSOR_ID_PRESSURE_WAKEUP SENSOR_TYPE_PRESSURE (1100) (f32 (18 / 100)) (4) (10000) 0 0 ''android.sensor.pressure'' (None) (200000) (SENSOR_FLAG_CONTINUOUS_MODE OR SENSOR_FLAG_WAKE_UP),
  sensor_entry (''BOSCH Temperature (Wakeup) Sensor'') BSX_SENSOR_ID_TEMPERATURE_WAKEUP SENSOR_TYPE_TEMPERATURE (200) (f32 (1 / 10)) (f32 (1 / 10)) (SENSOR_MINDELAY_ONCHANGE) 0 0 ''android.sensor.temperature'' (None) (SENSOR_MAXDELAY_ONCHANGE) (SENSOR_FLAG_ON_CHANGE_MODE OR SENSOR_FLAG_WAKE_UP),
  sensor_entry (''BOSCH proximity wakeup'') BSX_SENSOR_ID_PROXIMITY_WAKEUP SENSOR_TYPE_PROXIMITY (5) (f32 (f64 (1 / 10))) (f32 (12675 / 1000)) (SENSOR_MINDELAY_ONCHANGE) BATCH_RSV_FRAME_COUNT BATCH_MAX_FRAME_COUNT ''android.sensor.proximity'' (None) (SENSOR_MAXDELAY_ONCHANGE) (SENSOR_FLAG_ON_CHANGE_MODE OR SENSOR_FLAG_WAKE_UP),
  sensor_entry (''BOSCH Gravity (Wakeup) Sensor'') BSX_SENSOR_ID_GRAVITY_WAKEUP SENSOR_TYPE_GRAVITY (f32 (2 * GRAVITY_EARTH)) (f32 (1 / 10)) (f32 (563 / 100)) (BST_SENSOR_MINDELAY_uS) BATCH_RSV_FRAME_COUNT BATCH_MAX_FRAME_COUNT ''android.sensor.gravity'' (None) (200000) (SENSOR_FLAG_CONTINUOUS_MODE OR SENSOR_FLAG_WAKE_UP),
  sensor_entry (''BOSCH Linear Acceleration (Wakeup) Sensor'') BSX_SENSOR_ID_LINEAR_ACCELERATION_WAKEUP SENSOR_TYPE_LINEAR_ACCELERATION (f32 (2 * GRAVITY_EARTH)) (f32 (1 / 10)) (f32 (563 / 100)) (BST_SENSOR_MINDELAY_uS) BATCH_RSV_FRAME_COUNT BATCH_MAX_FRAME_COUNT ''android.sensor.linear_acceleration'' (None) (200000) (SENSOR_FLAG_CONTINUOUS_MODE OR SENSOR_FLAG_WAKE_UP),
  sensor_entry (''BOSCH Rotation Vector (Wakeup) Sensor'') BSX_SENSOR_ID_ROTATION_VECTOR_WAKEUP SENSOR_TYPE_ROTATION_VECTOR (1) (f32 (3 / 100000)) (f32 (563 / 100)) (BST_SENSOR_MINDELAY_uS) BATCH_RSV_FRAME_COUNT BATCH_MAX_FRAME_COUNT ''android.sensor.rotation_vector'' (None) (200000) (SENSOR_FLAG_CONTINUOUS_MODE OR SENSOR_FLAG_WAKE_UP),
  sensor_entry (''BOSCH Relative Humidity (Wakeup) Sensor'') BSX_SENSOR_ID_RELATIVE_HUMIDITY_WAKEUP SENSOR_TYPE_RELATIVE_HUMIDITY (1) (f32 (1 / 100)) (f32 (6 / 10)) (SENSOR_MINDELAY_ONCHANGE) BATCH_RSV_FRAME_COUNT BATCH_MAX_FRAME_COUNT ''android.sensor.relative_humidity'' (None) (SENSOR_MAXDELAY_ONCHANGE) (SENSOR_FLAG_ON_CHANGE_MODE OR SENSOR_FLAG_WAKE_UP)]"

definition bosch_sensors_4 :: "sensor_t list" where
 "bosch_sensors_4 = [
  sensor_entry (''BOSCH Ambient Temperature (Wakeup) Sensor'') BSX_SENSOR_ID_AMBIENT_TEMPERATURE_WAKEUP SENSOR_TYPE_AMBIENT_TEMPERATURE (200) (f32 (1 / 10)) (f32 (1 / 10)) (SENSOR_MINDELAY_ONCHANGE) 0 0 ''android.sensor.ambient_temperature'' (None) (SENSOR_MAXDELAY_ONCHANGE) (SENSOR_FLAG_ON_CHANGE_MODE OR SENSOR_FLAG_WAKE_UP),
  sensor_entry (''BOSCH Magnetic Uncalibrated (Wakeup) Sensor'') BSX_SENSOR_ID_MAGNETIC_FIELD_UNCALIBRATED_WAKEUP SENSOR_TYPE_MAGNETIC_FIELD_UNCALIBRATED (1600) (f32 (3 / 10)) (f32 (5 / 10)) (40000) BATCH_RSV_FRAME_COUNT BATCH_MAX_FRAME_COUNT ''android.sensor.magnetic_field_uncalibrated'' (None) (200000) (SENSOR_FLAG_CONTINUOUS_MODE OR SENSOR_FLAG_WAKE_UP),
  sensor_entry (''BOSCH Game Rotation Vector (Wakeup) Sensor'') BSX_SENSOR_ID_GAME_ROTATION_VECTOR_WAKEUP SENSOR_TYPE_GAME_ROTATION_VECTOR (1) (f32 (3 / 100000)) (f32 (563 / 100)) (BST_SENSOR_MINDELAY_uS) BATCH_RSV_FRAME_COUNT BATCH_MAX_FRAME_COUNT ''android.sensor.game_rotation_vector'' (None) (200000) (SENSOR_FLAG_CONTINUOUS_MODE OR SENSOR_FLAG_WAKE_UP),
  sensor_entry (''BOSCH Gyroscope Uncalibrated (Wakeup) Sensor'') BSX_SENSOR_ID_GYROSCOPE_UNCALIBRATED_WAKEUP SENSOR_TYPE_GYROSCOPE_UNCALIBRATED (2500) (1) (5) (BST_SENSOR_MINDELAY_uS) BATCH_RSV_FRAME_COUNT BATCH_MAX_FRAME_COUNT ''android.sensor.gyroscope_uncalibrated'' (None) (200000) (SENSOR_FLAG_CONTINUOUS_MODE OR SENSOR_FLAG_WAKE_UP),
  sensor_entry (''BOSCH Significant Motion Sensor'') BSX_SENSOR_ID_SIGNIFICANT_MOTION_WAKEUP SENSOR_TYPE_SIGNIFICANT_MOTION (1) (1) (f32 (13 / 100)) (SENSOR_MINDELAY_ONESHOT) 0 0 ''android.sensor.significant_motion'' (None) (SENSOR_MAXDELAY_ONESHOT) (SENSOR_FLAG_ONE_SHOT_MODE OR SENSOR_FLAG_WAKE_UP),
  sensor_entry (''BOSCH Step Detector (Wakeup) Sensor'') BSX_SENSOR_ID_STEP_DETECTOR_WAKEUP SENSOR_TYPE_STEP_DETECTOR (1) (1) (f32 (563 / 100)) (SENSOR_MINDELAY_SPECIAL) BATCH_RSV_FRAME_COUNT BATCH_MAX_FRAME_COUNT ''android.sensor.step_detector'' (None) (SENSOR_MAXDELAY_SPECIAL) (SENSOR_FLAG_SPECIAL_REPORTING_MODE OR SENSOR_FLAG_WAKE_UP),
  sensor_entry (''BOSCH Step Counter (Wakeup) Sensor'') BSX_SENSOR_ID_STEP_COUNTER_WAKEUP SENSOR_TYPE_STEP_COUNTER (10000) (1) (f32 (563 / 100)) (SENSOR_MINDELAY_ONCHANGE) BATCH_RSV_FRAME_COUNT BATCH_MAX_FRAME_COUNT ''android.sensor.step_counter'' (None) (SENSOR_MAXDELAY_ONCHANGE) (SENSOR_FLAG_ON_CHANGE_MODE OR SENSOR_FLAG_WAKE_UP),
  sensor_entry (''BOSCH Geomagnetic Rotation Vector (Wakeup) Sensor'') BSX_SENSOR_ID_GEOMAGNETIC_ROTATION_VECTOR_WAKEUP SENSOR_TYPE_GEOMAGNETIC_ROTATION_VECTOR (1) (f32 (3 / 100000)) (f32 (563 / 100)) (40000) BATCH_RSV_FRAME_COUNT BATCH_MAX_FRAME_COUNT ''android.sensor.geomagnetic_rotation_vector'' (None) (200000) (SENSOR_FLAG_CONTINUOUS_MODE OR SENSOR_FLAG_WAKE_UP),
  sensor_entry (''BOSCH heart rate wakeup'') BSX_SENSOR_ID_HEART_RATE_WAKEUP SENSOR_TYPE_HEART_RATE (1000) (1) (f32 (563 / 100)) (SENSOR_MINDELAY_ONCHANGE) BATCH_RSV_FRAME_COUNT BATCH_MAX_FRAME_COUNT ''android.sensor.heart_rate'' (Some ''android.permission.BODY_SENSORS'') (SENSOR_MAXDELAY_ONCHANGE) (SENSOR_FLAG_ON_CHANGE_MODE OR SENSOR_FLAG_WAKE_UP)]"

definition bosch_sensors_5 :: "sensor_t list" where
 "bosch_sensors_5 = [
  sensor_entry (''BOSCH Tilt Detector Sensor'') BSX_SENSOR_ID_TILT_DETECTOR_WAKEUP SENSOR_TYPE_TILT_DETECTOR (1) (1) (0) (SENSOR_MINDELAY_SPECIAL) 0 0 ''android.sensor.tilt_detector'' (None) (SENSOR_MAXDELAY_SPECIAL) (SENSOR_FLAG_SPECIAL_REPORTING_MODE OR SENSOR_FLAG_WAKE_UP),
  sensor_entry (''BOSCH Wake Gesture Sensor'') BSX_SENSOR_ID_WAKE_GESTURE_WAKEUP SENSOR_TYPE_WAKE_GESTURE (1) (1) (0) (SENSOR_MINDELAY_ONESHOT) 0 0 ''android.sensor.wake_gesture'' (None) (SENSOR_MAXDELAY_ONESHOT) (SENSOR_FLAG_ONE_SHOT_MODE OR SENSOR_FLAG_WAKE_UP),
  sensor_entry (''BOSCH Glance Gesture Sensor'') BSX_SENSOR_ID_GLANCE_GESTURE_WAKEUP SENSOR_TYPE_GLANCE_GESTURE (1) (1) (0) (SENSOR_MINDELAY_ONESHOT) 0 0 ''android.sensor.glance_gesture'' (None) (SENSOR_MAXDELAY_ONESHOT) (SENSOR_FLAG_ONE_SHOT_MODE OR SENSOR_FLAG_WAKE_UP),
  sensor_entry (''BOSCH Pickup Gesture Sensor'') BSX_SENSOR_ID_PICK_UP_GESTURE_WAKEUP SENSOR_TYPE_PICK_UP_GESTURE (1) (1) (0) (SENSOR_MINDELAY_ONESHOT) 0 0 ''android.sensor.pick_up_gesture'' (None) (SENSOR_MAXDELAY_ONESHOT) (SENSOR_FLAG_ONE_SHOT_MODE OR SENSOR_FLAG_WAKE_UP),
  UNUSED_SENSOR_T ''BOSCH magnetic uncal offset wakeup'',
  UNUSED_SENSOR_T ''BOSCH gyroscope uncal offset wakeup'',
  UNUSED_SENSOR_T ''BOSCH power consumption wakeup'',
  sensor_entry (''BOSCH Activity Recognition Sensor'') BSX_SENSOR_ID_ACTIVITY SENSOR_TYPE_BOSCH_ACTIVITY_RECOGNITION (1) (1) (0) (SENSOR_MINDELAY_ONCHANGE) 0 0 ''com.bosch-BoschSensor.www.activityrecognition'' (None) (SENSOR_MAXDELAY_ONCHANGE) (SENSOR_FLAG_ON_CHANGE_MODE OR SENSOR_FLAG_WAKE_UP),
  UNUSED_SENSOR_T ''BOSCH Ambient CO2 (Wakeup) Sensor'',
  UNUSED_SENSOR_T ''BOSCH Ambient IAQ (Wakeup) Sensor'']"

definition bosch_all_sensors :: "sensor_t list" where
  "bosch_all_sensors = bosch_sensors_0 @ bosch_sensors_1 @ bosch_sensors_2 @ bosch_sensors_3 @ bosch_sensors_4 @ bosch_sensors_5"

section \<open>Default configurations\<close>

record bsx_sensor_config =
  data_rate :: u8
  latency_unit :: u8
  max_latency :: u16
  fifo_data_len :: u16
  delay_onchange_Hz :: rat

definition DEFAULT_SENSOR_CONFIG :: "u8 \<Rightarrow> u8 \<Rightarrow> u16 \<Rightarrow> u16 \<Rightarrow> rat \<Rightarrow> bsx_sensor_config" where
  "DEFAULT_SENSOR_CONFIG odr unit latency len delay =
   \<lparr> data_rate = odr, latency_unit = unit, max_latency = latency, fifo_data_len = len,
     delay_onchange_Hz = delay \<rparr>"

definition BSX_sensor_config_nonwk :: "bsx_sensor_config list" where
 "BSX_sensor_config_nonwk = [
  DEFAULT_SENSOR_CONFIG 0 0 0 4 0,
  DEFAULT_SENSOR_CONFIG BSX_CONFSTR_50Hz BSX_CONFSTR_UNITms 200 7 0,
  DEFAULT_SENSOR_CONFIG BSX_CONFSTR_50Hz BSX_CONFSTR_UNITms 200 7 0,
  DEFAULT_SENSOR_CONFIG BSX_CONFSTR_50Hz BSX_CONFSTR_UNITms 200 7 0,
  DEFAULT_SENSOR_CONFIG BSX_CONFSTR_50Hz BSX_CONFSTR_UNITms 200 7 0,
  DEFAULT_SENSOR_CONFIG BSX_CONFSTR_50Hz BSX_CONFSTR_UNITms 200 2 5,
  DEFAULT_SENSOR_CONFIG BSX_CONFSTR_6_25Hz BSX_CONFSTR_UNITms 200 3 0,
  DEFAULT_SENSOR_CONFIG BSX_CONFSTR_1Hz BSX_CONFSTR_UNITms 200 2 5,
  DEFAULT_SENSOR_CONFIG BSX_CONFSTR_50Hz BSX_CONFSTR_UNITms 200 2 0,
  DEFAULT_SENSOR_CONFIG BSX_CONFSTR_50Hz BSX_CONFSTR_UNITms 200 7 0,
  DEFAULT_SENSOR_CONFIG BSX_CONFSTR_50Hz BSX_CONFSTR_UNITms 200 7 0,
  DEFAULT_SENSOR_CONFIG BSX_CONFSTR_50Hz BSX_CONFSTR_UNITms 200 9 0,
  DEFAULT_SENSOR_CONFIG BSX_CONFSTR_1Hz BSX_CONFSTR_UNITms 200 2 5,
  DEFAULT_SENSOR_CONFIG BSX_CONFSTR_1Hz BSX_CONFSTR_UNITms 200 2 5,
  DEFAULT_SENSOR_CONFIG BSX_CONFSTR_50Hz BSX_CONFSTR_UNITms 200 6 0,
  DEFAULT_SENSOR_CONFIG BSX_CONFSTR_50Hz BSX_CONFSTR_UNITms 200 8 0,
  DEFAULT_SENSOR_CONFIG BSX_CONFSTR_50Hz BSX_CONFSTR_UNITms 200 6 0,
  DEFAULT_SENSOR_CONFIG 0 0 0 0 0,
  DEFAULT_SENSOR_CONFIG 0 0 0 0 0,
  DEFAULT_SENSOR_CONFIG BSX_CONFSTR_50Hz BSX_CONFSTR_UNITms 200 4 5,
  DEFAULT_SENSOR_CONFIG BSX_CONFSTR_50Hz BSX_CONFSTR_UNITms 200 9 0,
  DEFAULT_SENSOR_CONFIG BSX_CONFSTR_50Hz BSX_CONFSTR_UNITms 200 1 5,
  DEFAULT_SENSOR_CONFIG 0 0 0 0 0,
  DEFAULT_SENSOR_CONFIG 0 0 0 0 0,
  DEFAULT_SENSOR_CONFIG 0 0 0 0 0,
  DEFAULT_SENSOR_CONFIG 0 0 0 0 0,
  DEFAULT_SENSOR_CONFIG 0 0 0 6 0,
  DEFAULT_SENSOR_CONFIG 0 0 0 6 0,
  DEFAULT_SENSOR_CONFIG 0 0 0 3 0,
  DEFAULT_SENSOR_CONFIG BSX_CONFSTR_1Hz BSX_CONFSTR_UNITms 0 2 5,
  DEFAULT_SENSOR_CONFIG BSX_CONFSTR_1Hz BSX_CONFSTR_UNITms 0 2 5,
  DEFAULT_SENSOR_CONFIG BSX_CONFSTR_1Hz BSX_CONFSTR_UNITms 0 2 5]"

definition BSX_sensor_config_wk :: "bsx_sensor_config list" where
 "BSX_sensor_config_wk = [
  DEFAULT_SENSOR_CONFIG 0 0 0 0 0,
  DEFAULT_SENSOR_CONFIG BSX_CONFSTR_50Hz BSX_CONFSTR_UNITms 200 7 0,
  DEFAULT_SENSOR_CONFIG BSX_CONFSTR_50Hz BSX_CONFSTR_UNITms 200 7 0,
  DEFAULT_SENSOR_CONFIG BSX_CONFSTR_50Hz BSX_CONFSTR_UNITms 200 7 0,
  DEFAULT_SENSOR_CONFIG BSX_CONFSTR_50Hz BSX_CONFSTR_UNITms 200 7 0,
  DEFAULT_SENSOR_CONFIG BSX_CONFSTR_50Hz BSX_CONFSTR_UNITms 200 2 5,
  DEFAULT_SENSOR_CONFIG BSX_CONFSTR_50Hz BSX_CONFSTR_UNITms 200 3 0,
  DEFAULT_SENSOR_CONFIG BSX_CONFSTR_1Hz BSX_CONFSTR_UNITms 200 2 5,
  DEFAULT_SENSOR_CONFIG BSX_CONFSTR_1Hz BSX_CONFSTR_UNITms 200 2 5,
  DEFAULT_SENSOR_CONFIG BSX_CONFSTR_50Hz BSX_CONFSTR_UNITms 200 7 0,
  DEFAULT_SENSOR_CONFIG BSX_CONFSTR_50Hz BSX_CONFSTR_UNITms 200 7 0,
  DEFAULT_SENSOR_CONFIG BSX_CONFSTR_50Hz BSX_CONFSTR_UNITms 200 9 0,
  DEFAULT_SENSOR_CONFIG BSX_CONFSTR_1Hz BSX_CONFSTR_UNITms 200 2 5,
  DEFAULT_SENSOR_CONFIG BSX_CONFSTR_1Hz BSX_CONFSTR_UNITms 200 2 5,
  DEFAULT_SENSOR_CONFIG BSX_CONFSTR_50Hz BSX_CONFSTR_UNITms 200 6 0,
  DEFAULT_SENSOR_CONFIG BSX_CONFSTR_50Hz BSX_CONFSTR_UNITms 200 8 0,
  DEFAULT_SENSOR_CONFIG BSX_CONFSTR_50Hz BSX_CONFSTR_UNITms 200 6 0,
  DEFAULT_SENSOR_CONFIG 0 0 0 0 0,
  DEFAULT_SENSOR_CONFIG 0 0 0 0 0,
  DEFAULT_SENSOR_CONFIG BSX_CONFSTR_50Hz BSX_CONFSTR_UNITms 200 4 5,
  DEFAULT_SENSOR_CONFIG BSX_CONFSTR_50Hz BSX_CONFSTR_UNITms 200 9 0,
  DEFAULT_SENSOR_CONFIG BSX_CONFSTR_50Hz BSX_CONFSTR_UNITms 200 1 5,
  DEFAULT_SENSOR_CONFIG 0 0 0 0 0,
  DEFAULT_SENSOR_CONFIG 0 0 0 0 0,
  DEFAULT_SENSOR_CONFIG 0 0 0 0 0,
  DEFAULT_SENSOR_CONFIG 0 0 0 0 0,
  DEFAULT_SENSOR_CONFIG 0 0 0 6 0,
  DEFAULT_SENSOR_CONFIG 0 0 0 6 0,
  DEFAULT_SENSOR_CONFIG 0 0 0 0 0,
  DEFAULT_SENSOR_CONFIG 0 0 0 2 5,
  DEFAULT_SENSOR_CONFIG 0 0 0 2 0,
  DEFAULT_SENSOR_CONFIG BSX_CONFSTR_1Hz BSX_CONFSTR_UNITms 0 2 0]"

section \<open>Identifiers of the fusion library\<close>

definition bsx_inx_splid_maptbl :: "(int \<times> int) list" where
 "bsx_inx_splid_maptbl = [
  (SENSORLIST_INX_ACCELEROMETER, BSX_OUTPUT_ID_ACCELERATION_CORRECTED),
  (SENSORLIST_INX_MAGNETIC_FIELD, BSX_OUTPUT_ID_MAGNETICFIELD_CORRECTED),
  (SENSORLIST_INX_ORIENTATION, BSX_OUTPUT_ID_ORIENTATION),
  (SENSORLIST_INX_GYROSCOPE, BSX_OUTPUT_ID_ANGULARRATE_CORRECTED),
  (SENSORLIST_INX_GRAVITY, BSX_OUTPUT_ID_GRAVITY),
  (SENSORLIST_INX_LINEAR_ACCELERATION, BSX_OUTPUT_ID_LINEARACCELERATION),
  (SENSORLIST_INX_ROTATION_VECTOR, BSX_OUTPUT_ID_ROTATION),
  (SENSORLIST_INX_MAGNETIC_FIELD_UNCALIBRATED, BSX_OUTPUT_ID_MAGNETICFIELD_RAW),
  (SENSORLIST_INX_GAME_ROTATION_VECTOR, BSX_OUTPUT_ID_ROTATION_GAME),
  (SENSORLIST_INX_GYROSCOPE_UNCALIBRATED, BSX_OUTPUT_ID_ANGULARRATE_RAW),
  (SENSORLIST_INX_STEP_DETECTOR, BSX_OUTPUT_ID_STEPDETECTOR),
  (SENSORLIST_INX_STEP_COUNTER, BSX_OUTPUT_ID_STEPCOUNTER),
  (SENSORLIST_INX_MAGNETIC_ROTATION_VECTOR, BSX_OUTPUT_ID_ROTATION_GEOMAGNETIC),
  (SENSORLIST_INX_WAKEUP_ACCELEROMETER, BSX_WAKEUP_ID_ACCELERATION_CORRECTED),
  (SENSORLIST_INX_WAKEUP_MAGNETIC_FIELD, BSX_WAKEUP_ID_MAGNETICFIELD_CORRECTED),
  (SENSORLIST_INX_WAKEUP_ORIENTATION, BSX_WAKEUP_ID_ORIENTATION),
  (SENSORLIST_INX_WAKEUP_GYROSCOPE, BSX_WAKEUP_ID_ANGULARRATE_CORRECTED),
  (SENSORLIST_INX_WAKEUP_GRAVITY, BSX_WAKEUP_ID_GRAVITY),
  (SENSORLIST_INX_WAKEUP_LINEAR_ACCELERATION, BSX_WAKEUP_ID_LINEARACCELERATION),
  (SENSORLIST_INX_WAKEUP_ROTATION_VECTOR, BSX_WAKEUP_ID_ROTATION),
  (SENSORLIST_INX_WAKEUP_MAGNETIC_FIELD_UNCALIBRATED, BSX_WAKEUP_ID_MAGNETICFIELD_RAW),
  (SENSORLIST_INX_WAKEUP_GAME_ROTATION_VECTOR, BSX_WAKEUP_ID_ROTATION_GAME),
  (SENSORLIST_INX_WAKEUP_GYROSCOPE_UNCALIBRATED, BSX_WAKEUP_ID_ANGULARRATE_RAW),
  (SENSORLIST_INX_WAKEUP_SIGNIFICANT_MOTION, BSX_OUTPUT_ID_SIGNIFICANTMOTION_STATUS),
  (SENSORLIST_INX_WAKEUP_STEP_COUNTER, BSX_WAKEUP_ID_STEPCOUNTER),
  (SENSORLIST_INX_WAKEUP_MAGNETIC_ROTATION_VECTOR, BSX_WAKEUP_ID_ROTATION_GEOMAGNETIC),
  (SENSORLIST_INX_WAKEUP_TILT_DETECTOR, BSX_OUTPUT_ID_TILT_STATUS),
  (SENSORLIST_INX_WAKEUP_WAKE_GESTURE, BSX_OUTPUT_ID_WAKE_STATUS),
  (SENSORLIST_INX_WAKEUP_GLANCE_GESTURE, BSX_OUTPUT_ID_GLANCE_STATUS),
  (SENSORLIST_INX_WAKEUP_PICK_UP_GESTURE, BSX_OUTPUT_ID_PICKUP_STATUS),
  (SENSORLIST_INX_WAKEUP_ACTIVITY, BSX_OUTPUT_ID_ACTIVITY)]"

section \<open>Facts about the tables\<close>

lemmas bosch_sensors_defs =
  bosch_sensors_0_def bosch_sensors_1_def bosch_sensors_2_def bosch_sensors_3_def
  bosch_sensors_4_def bosch_sensors_5_def

lemma bosch_all_sensors_length: "length bosch_all_sensors = 64"
  by (simp add: bosch_all_sensors_def bosch_sensors_defs)

lemma config_table_lengths:
  "length BSX_sensor_config_nonwk = 32" "length BSX_sensor_config_wk = 32"
  by (simp_all add: BSX_sensor_config_nonwk_def BSX_sensor_config_wk_def)

end
