(* ===== verification/Hw_Control.thy ===== *)
theory Hw_Control
  imports Sensor_Table
begin

text \<open>
  The configuration store of \<open>legacy/sensord/sensord_hwcntl.cpp\<close>: the table of available
  sensors (\<open>get_sensor_t\<close>), the encoding of rates and latencies, and the two arrays of
  references to the active sensors, which \<open>activate_configref_resort\<close> keeps sorted by list
  index and \<open>batch_configref_resort\<close> searches.  A reference is modelled by its offset in the
  configuration array it points into, NULL by \<open>None\<close>; an access outside an array, a
  \<open>memmove\<close> of a negative length and a division by zero make the result \<open>None\<close>.
  The main results: the arrays always hold the active set in strictly ascending order, no
  operation is undefined, and each call changes the set and reports the change exactly.
\<close>

section \<open>State\<close>

text \<open>What a pointer member holds: NULL, a live allocation or one that was freed.\<close>

datatype block = Null | Allocated | Released

record bst_sensorlist =
  sl_list_ptr :: block
  sl_list :: "sensor_t list"
  sl_index_ptr :: block
  sl_bsx_list_index :: "int list"
  sl_list_len :: u32

record config_bank =
  bank_config :: "bsx_sensor_config list"
  bank_refers :: "int option list"
  bank_active_cnt :: u32

record hwcntl =
  all_sensors :: "sensor_t list"
  sensorlist :: bst_sensorlist
  bank_nonwk :: config_bank
  bank_wk :: config_bank

definition hwcntl_start :: hwcntl where
  "hwcntl_start = \<lparr> all_sensors = bosch_all_sensors,
     sensorlist = \<lparr> sl_list_ptr = Null, sl_list = [], sl_index_ptr = Null,
       sl_bsx_list_index = [], sl_list_len = 0 \<rparr>,
     bank_nonwk = \<lparr> bank_config = BSX_sensor_config_nonwk,
       bank_refers = replicate (nat (SENSORLIST_INX_AMBIENT_IAQ + 1)) None,
       bank_active_cnt = 0 \<rparr>,
     bank_wk = \<lparr> bank_config = BSX_sensor_config_wk,
       bank_refers = replicate (nat (SENSORLIST_INX_END - SENSORLIST_INX_WAKEUP_SIGNI_PRESSURE)) None,
       bank_active_cnt = 0 \<rparr> \<rparr>"

section \<open>Looking a sensor up\<close>

fun get_sensor_loop :: "int \<Rightarrow> bst_sensorlist \<Rightarrow> nat \<Rightarrow> nat \<Rightarrow> (sensor_t \<times> int) option" where
  "get_sensor_loop sensor_id sl 0 i = None"
| "get_sensor_loop sensor_id sl (Suc left) i =
     (if st_name (sl_list sl ! i) \<noteq> None \<and> sensor_id = st_handle (sl_list sl ! i)
      then Some (sl_list sl ! i, sl_bsx_list_index sl ! i)
      else get_sensor_loop sensor_id sl left (Suc i))"

definition get_sensor_t :: "int \<Rightarrow> hwcntl \<Rightarrow> (sensor_t \<times> int) option" where
  "get_sensor_t sensor_id s =
     get_sensor_loop sensor_id (sensorlist s) (unat (sl_list_len (sensorlist s))) 0"

lemma get_sensor_loop_find:
  "i + n \<le> length (sl_list sl) \<Longrightarrow> length (sl_bsx_list_index sl) = length (sl_list sl) \<Longrightarrow>
   get_sensor_loop h sl n i =
     find (\<lambda>(p, k). st_name p \<noteq> None \<and> st_handle p = h)
       (take n (drop i (zip (sl_list sl) (sl_bsx_list_index sl))))"
proof (induction n arbitrary: i)
  case 0
  then show ?case by simp
next
  case (Suc n)
  then have "drop i (zip (sl_list sl) (sl_bsx_list_index sl)) =
      (sl_list sl ! i, sl_bsx_list_index sl ! i) #
      drop (Suc i) (zip (sl_list sl) (sl_bsx_list_index sl))"
    by (simp add: Cons_nth_drop_Suc [symmetric])
  with Suc show ?case by auto
qed

section \<open>Encoding rates and latencies\<close>

definition encode_datarate :: "int \<Rightarrow> u8" where
  "encode_datarate sampling_period_ns =
     (if sampling_period_ns = 0 then 0 else
      let Hz = f32 (1000000000 / f32 (of_int sampling_period_ns)) in
      if 1600 < Hz \<and> Hz \<le> 2000 then BSX_CONFSTR_2000Hz
      else if 1000 < Hz \<and> Hz \<le> 1600 then BSX_CONFSTR_1600Hz
      else if 800 < Hz \<and> Hz \<le> 1000 then BSX_CONFSTR_1000Hz
      else if 400 < Hz \<and> Hz \<le> 800 then BSX_CONFSTR_800Hz
      else if 200 < Hz \<and> Hz \<le> 400 then BSX_CONFSTR_400Hz
      else if 100 < Hz \<and> Hz \<le> 200 then BSX_CONFSTR_200Hz
      else if 50 < Hz \<and> Hz \<le> 100 then BSX_CONFSTR_100Hz
      else if 25 < Hz \<and> Hz \<le> 50 then BSX_CONFSTR_50Hz
      else if 12 < Hz \<and> Hz \<le> 25 then BSX_CONFSTR_25Hz
      else if 6 < Hz \<and> Hz \<le> 12 then BSX_CONFSTR_12_5Hz
      else if 5 < Hz \<and> Hz \<le> 6 then BSX_CONFSTR_6_25Hz
      else if 1 < Hz \<and> Hz \<le> 5 then BSX_CONFSTR_5Hz
      else if Hz \<le> 1 then BSX_CONFSTR_1Hz
      else 0)"

definition CONVERT_DATARATE_CODE :: "u8 \<Rightarrow> rat" where
  "CONVERT_DATARATE_CODE code =
     (if code = BSX_CONFSTR_2000Hz then 2000
      else if code = BSX_CONFSTR_1600Hz then 1600
      else if code = BSX_CONFSTR_1000Hz then 1000
      else if code = BSX_CONFSTR_800Hz then 800
      else if code = BSX_CONFSTR_400Hz then 400
      else if code = BSX_CONFSTR_200Hz then 200
      else if code = BSX_CONFSTR_100Hz then 100
      else if code = BSX_CONFSTR_50Hz then 50
      else if code = BSX_CONFSTR_25Hz then 25
      else if code = BSX_CONFSTR_12_5Hz then 125 / 10
      else if code = BSX_CONFSTR_6_25Hz then 625 / 100
      else if code = BSX_CONFSTR_5Hz then 5
      else if code = BSX_CONFSTR_1Hz then 1
      else 0)"

text \<open>The value is cast to \<open>uint16_t\<close>, which keeps it modulo \<open>2 ^ 16\<close>.\<close>

definition encode_max_latency :: "int \<Rightarrow> u16 \<times> u8" where
  "encode_max_latency max_report_latency_ns =
     (if 1000000 \<le> max_report_latency_ns \<and> max_report_latency_ns < 1000000000
      then (word_of_int (c_div max_report_latency_ns 1000000), BSX_CONFSTR_UNITms)
      else if 1000 \<le> max_report_latency_ns \<and> max_report_latency_ns < 1000000
      then (word_of_int (c_div max_report_latency_ns 1000), BSX_CONFSTR_UNITus)
      else if max_report_latency_ns < 1000
      then (word_of_int max_report_latency_ns, BSX_CONFSTR_UNITns)
      else if 1000000000 \<le> max_report_latency_ns \<and> max_report_latency_ns < 16383000000000
      then (word_of_int (c_div max_report_latency_ns 1000000000), BSX_CONFSTR_UNITs)
      else (16383, BSX_CONFSTR_UNITs))"

section \<open>The arrays of active references\<close>

definition memmove_refers :: "nat \<Rightarrow> nat \<Rightarrow> int \<Rightarrow> 'a list \<Rightarrow> 'a list option" where
  "memmove_refers dst src n xs =
     (if n < 0 \<or> length xs < dst + nat n \<or> length xs < src + nat n then None
      else Some (take dst xs @ take (nat n) (drop src xs) @ drop (dst + nat n) xs))"

definition is_nonwk :: "int \<Rightarrow> bool" where
  "is_nonwk bsx_list_index \<longleftrightarrow> bsx_list_index \<le> SENSORLIST_INX_AMBIENT_IAQ"

definition listinx_base :: "int \<Rightarrow> int" where
  "listinx_base bsx_list_index = (if is_nonwk bsx_list_index
     then SENSORLIST_INX_GAS_RESIST else SENSORLIST_INX_WAKEUP_SIGNI_PRESSURE)"

definition loop_end :: "int \<Rightarrow> nat" where
  "loop_end bsx_list_index = nat (if is_nonwk bsx_list_index
     then SENSORLIST_INX_AMBIENT_IAQ - SENSORLIST_INX_GAS_RESIST + 1
     else SENSORLIST_INX_END - SENSORLIST_INX_WAKEUP_SIGNI_PRESSURE)"

definition select_bank :: "int \<Rightarrow> hwcntl \<Rightarrow> config_bank" where
  "select_bank bsx_list_index s =
     (if is_nonwk bsx_list_index then bank_nonwk s else bank_wk s)"

definition store_bank :: "int \<Rightarrow> config_bank \<Rightarrow> hwcntl \<Rightarrow> hwcntl" where
  "store_bank bsx_list_index b s =
     (if is_nonwk bsx_list_index then s\<lparr>bank_nonwk := b\<rparr> else s\<lparr>bank_wk := b\<rparr>)"

definition refers_insert :: "int \<Rightarrow> nat \<Rightarrow> config_bank \<Rightarrow> (int \<times> config_bank) option" where
  "refers_insert off i b = do {
     refs \<leftarrow> memmove_refers (i + 1) i (uint (bank_active_cnt b) - int i) (bank_refers b);
     if length refs \<le> i then None
     else Some (1, b\<lparr>bank_refers := refs[i := Some off],
       bank_active_cnt := bank_active_cnt b + 1\<rparr>)
   }"

definition refers_delete :: "nat \<Rightarrow> config_bank \<Rightarrow> (int \<times> config_bank) option" where
  "refers_delete i b = do {
     let cnt = bank_active_cnt b - 1;
     refs \<leftarrow> memmove_refers i (i + 1) (uint cnt - int i) (bank_refers b);
     if length refs \<le> unat cnt then None
     else Some (1, b\<lparr>bank_refers := refs[unat cnt := None], bank_active_cnt := cnt\<rparr>)
   }"

fun activate_loop ::
    "int \<Rightarrow> bool \<Rightarrow> int \<Rightarrow> nat \<Rightarrow> nat \<Rightarrow> config_bank \<Rightarrow> (int \<times> config_bank) option" where
  "activate_loop idx is_enable base 0 i b = Some (0, b)"
| "activate_loop idx is_enable base (Suc left) i b =
     (if length (bank_refers b) \<le> i then None
      else case bank_refers b ! i of
        None \<Rightarrow>
          if is_enable then Some (1, b\<lparr>bank_refers := (bank_refers b)[i := Some (idx - base)],
            bank_active_cnt := bank_active_cnt b + 1\<rparr>)
          else Some (0, b)
      | Some off \<Rightarrow>
          let current_bsxindex = base + off in
          if current_bsxindex < idx then activate_loop idx is_enable base left (Suc i) b
          else if idx = current_bsxindex then
            if is_enable then Some (0, b) else refers_delete i b
          else
            if is_enable then refers_insert (idx - base) i b else Some (0, b))"

definition activate_configref_resort :: "int \<Rightarrow> int \<Rightarrow> hwcntl \<Rightarrow> (int \<times> hwcntl) option" where
  "activate_configref_resort bsx_list_index is_enable s = do {
     (ret, b) \<leftarrow> activate_loop bsx_list_index (is_enable \<noteq> 0) (listinx_base bsx_list_index)
        (loop_end bsx_list_index) 0 (select_bank bsx_list_index s);
     Some (ret, store_bank bsx_list_index b s)
   }"

text \<open>The four assignments that both branches of \<open>batch_configref_resort\<close> make.\<close>

definition configure :: "int \<Rightarrow> int \<Rightarrow> rat \<Rightarrow> bsx_sensor_config \<Rightarrow> bsx_sensor_config option" where
  "configure sampling_period_ns max_report_latency_ns delay_Hz c =
     (if sampling_period_ns = 0 then None
      else let (value, unit) = encode_max_latency max_report_latency_ns in
        Some (c\<lparr>data_rate := encode_datarate sampling_period_ns,
                max_latency := value, latency_unit := unit, delay_onchange_Hz := delay_Hz,
                fifo_data_len := word_of_int (c_div max_report_latency_ns sampling_period_ns)\<rparr>))"

definition configure_at ::
    "int \<Rightarrow> int \<Rightarrow> int \<Rightarrow> rat \<Rightarrow> config_bank \<Rightarrow> config_bank option" where
  "configure_at off sampling_period_ns max_report_latency_ns delay_Hz b =
     (if off < 0 \<or> int (length (bank_config b)) \<le> off then None
      else do {
        c \<leftarrow> configure sampling_period_ns max_report_latency_ns delay_Hz (bank_config b ! nat off);
        Some (b\<lparr>bank_config := (bank_config b)[nat off := c]\<rparr>)
      })"

fun batch_loop ::
    "int \<Rightarrow> int \<Rightarrow> int \<Rightarrow> rat \<Rightarrow> int \<Rightarrow> nat \<Rightarrow> nat \<Rightarrow> config_bank \<Rightarrow> (int \<times> config_bank) option" where
  "batch_loop idx period latency delay_Hz base 0 i b = do {
     b' \<leftarrow> configure_at (idx - base) period latency delay_Hz b;
     Some (0, b')
   }"
| "batch_loop idx period latency delay_Hz base (Suc left) i b =
     (if length (bank_refers b) \<le> i then None
      else case bank_refers b ! i of
        None \<Rightarrow> None
      | Some off \<Rightarrow>
          if idx = base + off then do {
            b' \<leftarrow> configure_at off period latency delay_Hz b;
            Some (1, b')
          }
          else batch_loop idx period latency delay_Hz base left (Suc i) b)"

definition batch_configref_resort ::
    "int \<Rightarrow> int \<Rightarrow> int \<Rightarrow> rat \<Rightarrow> hwcntl \<Rightarrow> (int \<times> hwcntl) option" where
  "batch_configref_resort bsx_list_index sampling_period_ns max_report_latency_ns delay_Hz s = do {
     let b = select_bank bsx_list_index s;
     (ret, b') \<leftarrow> batch_loop bsx_list_index sampling_period_ns max_report_latency_ns delay_Hz
        (listinx_base bsx_list_index) (unat (bank_active_cnt b)) 0 b;
     Some (ret, store_bank bsx_list_index b' s)
   }"

section \<open>Identifiers of the fusion library\<close>

definition convert_BSX_ListInx :: "int \<Rightarrow> int" where
  "convert_BSX_ListInx bsx_list_inx =
     (case find (\<lambda>(inx, supl). inx = bsx_list_inx) bsx_inx_splid_maptbl of
        Some (inx, supl) \<Rightarrow> supl
      | None \<Rightarrow> BSX_VIRTUAL_SENSOR_ID_INVALID)"

section \<open>The invariant of the active references\<close>

definition bank_holds :: "int list \<Rightarrow> config_bank \<Rightarrow> bool" where
  "bank_holds ks b \<longleftrightarrow>
     bank_refers b = map Some ks @ replicate (32 - length ks) None \<and>
     sorted_wrt (<) ks \<and> set ks \<subseteq> {0..<32} \<and>
     unat (bank_active_cnt b) = length ks \<and> length (bank_config b) = 32"

definition bank_inv :: "config_bank \<Rightarrow> bool" where
  "bank_inv b \<longleftrightarrow> (\<exists>ks. bank_holds ks b)"

definition bank_active :: "config_bank \<Rightarrow> int set" where
  "bank_active b = {k. Some k \<in> set (bank_refers b)}"

definition hw_inv :: "hwcntl \<Rightarrow> bool" where
  "hw_inv s \<longleftrightarrow> bank_inv (bank_nonwk s) \<and> bank_inv (bank_wk s)"

text \<open>The set of active list indices, the abstraction of the two arrays.\<close>

definition active_indices :: "hwcntl \<Rightarrow> int set" where
  "active_indices s = bank_active (bank_nonwk s) \<union> (\<lambda>k. 32 + k) ` bank_active (bank_wk s)"

lemma bank_holdsD:
  assumes "bank_holds ks b"
  shows "bank_refers b = map Some ks @ replicate (32 - length ks) None"
    and "sorted_wrt (<) ks" and "set ks \<subseteq> {0..<32}"
    and "unat (bank_active_cnt b) = length ks" and "length (bank_config b) = 32"
  using assms unfolding bank_holds_def by blast+

lemma bank_active_holds: "bank_holds ks b \<Longrightarrow> bank_active b = set ks"
  by (auto simp: bank_holds_def bank_active_def)

lemma strict_below_length:
  assumes "sorted_wrt (<) (ks :: int list)" "set ks \<subseteq> {0..<n}"
  shows "length ks \<le> nat n"
proof -
  have "length ks = card (set ks)"
    using assms(1) by (simp add: strict_sorted_iff distinct_card)
  also have "\<dots> \<le> card {0..<n}" using assms(2) by (intro card_mono) auto
  finally show ?thesis by simp
qed

lemma bank_holds_length: "bank_holds ks b \<Longrightarrow> length ks \<le> 32"
  using strict_below_length [OF bank_holdsD(2,3)] by simp

lemma bank_holds_refers_length: "bank_holds ks b \<Longrightarrow> length (bank_refers b) = 32"
  using bank_holds_length [of ks b] by (simp add: bank_holdsD(1))

lemma bank_holds_cnt: "bank_holds ks b \<Longrightarrow> uint (bank_active_cnt b) = int (length ks)"
  by (rule uint_of_unat [OF bank_holdsD(4)])

lemma memmove_refers_int:
  "memmove_refers dst src (int n) xs =
     (if length xs < dst + n \<or> length xs < src + n then None
      else Some (take dst xs @ take n (drop src xs) @ drop (dst + n) xs))"
  by (simp add: memmove_refers_def)

lemma memmove_up:
  "memmove_refers (Suc (length xs)) (length xs) (int (length ys)) (xs @ ys @ z # zs) =
     Some (xs @ hd (ys @ [z]) # ys @ zs)"
  unfolding memmove_refers_int by (cases ys) simp_all

lemma memmove_down:
  "memmove_refers (length xs) (Suc (length xs)) (int (length ys)) (xs @ x # ys @ zs) =
     Some (xs @ ys @ last (x # ys) # zs)"
  unfolding memmove_refers_int by (cases ys rule: rev_cases) simp_all

lemma free_slot:
  assumes "n < 32"
  shows "replicate (32 - n) None = None # replicate (32 - Suc n) None"
proof -
  have "32 - n = Suc (32 - Suc n)" using assms by arith
  then show ?thesis by (simp only: replicate_Suc)
qed

lemma bank_insert_room:
  assumes "bank_holds (as @ bs) b" "0 \<le> off" "off < 32"
    "\<forall>k\<in>set as. k < off" "\<forall>k\<in>set bs. off < k"
  shows "sorted_wrt (<) (as @ off # bs)" "length (as @ bs) < 32"
proof -
  show s: "sorted_wrt (<) (as @ off # bs)"
    using assms by (auto simp: bank_holds_def sorted_wrt_append)
  have "length (as @ off # bs) \<le> nat 32"
    by (rule strict_below_length [OF s]) (use assms in \<open>auto simp: bank_holds_def\<close>)
  then show "length (as @ bs) < 32" by simp
qed

lemma unat_cnt_plus: "unat (c :: u32) < 32 \<Longrightarrow> unat (c + 1) = Suc (unat c)"
  by (rule unat_Suc_word [of _ 32]) (simp add: word_less_nat_alt)

text \<open>The three array updates, on the list of offsets.\<close>

lemma refers_insert_step:
  assumes "bank_holds (as @ bs) b" "0 \<le> off" "off < 32"
    "\<forall>k\<in>set as. k < off" "\<forall>k\<in>set bs. off < k"
  obtains b' where "refers_insert off (length as) b = Some (1, b')"
    "bank_holds (as @ off # bs) b'" "bank_config b' = bank_config b"
proof -
  note room = bank_insert_room [OF assms]
  let ?rest = "replicate (32 - Suc (length (as @ bs))) None"
  have refs: "bank_refers b = map Some as @ map Some bs @ None # ?rest"
    using assms(1) room(2) free_slot [of "length (as @ bs)"] by (simp add: bank_holds_def)
  have cnt: "uint (bank_active_cnt b) - int (length as) = int (length (map Some bs))"
    using bank_holds_cnt [OF assms(1)] by simp
  have mm: "memmove_refers (Suc (length as)) (length as)
      (uint (bank_active_cnt b) - int (length as)) (bank_refers b) =
      Some (map Some as @ hd (map Some bs @ [None]) # map Some bs @ ?rest)"
    using memmove_up [of "map Some as" "map Some bs" None ?rest] unfolding refs cnt by simp
  let ?b = "b\<lparr>bank_refers := map Some as @ Some off # map Some bs @ ?rest,
    bank_active_cnt := bank_active_cnt b + 1\<rparr>"
  have "refers_insert off (length as) b = Some (1, ?b)"
    by (simp add: refers_insert_def mm list_update_append del: replicate.simps)
  moreover have "bank_holds (as @ off # bs) ?b"
    unfolding bank_holds_def
  proof (intro conjI)
    show "set (as @ off # bs) \<subseteq> {0..<32}"
      using bank_holdsD(3) [OF assms(1)] assms(2,3) by auto
    show "unat (bank_active_cnt ?b) = length (as @ off # bs)"
      using unat_cnt_plus [of "bank_active_cnt b"] bank_holdsD(4) [OF assms(1)] room(2) by simp
  qed (use room(1) bank_holdsD(5) [OF assms(1)] in simp_all)
  ultimately show ?thesis by (rule that) simp
qed

lemma refers_delete_step:
  assumes "bank_holds (as @ k # bs) b"
  obtains b' where "refers_delete (length as) b = Some (1, b')"
    "bank_holds (as @ bs) b'" "bank_config b' = bank_config b"
proof -
  let ?rest = "replicate (32 - length (as @ k # bs)) None"
  have len: "length (as @ k # bs) \<le> 32" by (rule bank_holds_length [OF assms])
  have refs: "bank_refers b = map Some as @ Some k # map Some bs @ ?rest"
    using assms by (simp add: bank_holds_def)
  have nz: "bank_active_cnt b \<noteq> 0"
    using assms by (auto simp: bank_holds_def)
  have "length (as @ bs) < 32" using len by simp
  from nz have cnt: "unat (bank_active_cnt b - 1) = length as + length bs"
    using assms by (simp add: unat_pred_word [OF nz] bank_holds_def)
  then have "uint (bank_active_cnt b - 1) - int (length as) = int (length (map Some bs))"
    by (simp add: uint_of_unat [OF cnt])
  then have mm: "memmove_refers (length as) (Suc (length as))
      (uint (bank_active_cnt b - 1) - int (length as)) (bank_refers b) =
      Some (map Some as @ map Some bs @ last (Some k # map Some bs) # ?rest)"
    using memmove_down [of "map Some as" "map Some bs" "Some k" ?rest] unfolding refs by simp
  let ?b = "b\<lparr>bank_refers := map Some as @ map Some bs @ None # ?rest,
    bank_active_cnt := bank_active_cnt b - 1\<rparr>"
  have "refers_delete (length as) b = Some (1, ?b)"
    by (simp add: refers_delete_def Let_def mm cnt list_update_append del: replicate.simps last.simps)
  moreover have "bank_holds (as @ bs) ?b"
    unfolding bank_holds_def
  proof (intro conjI)
    show "bank_refers ?b = map Some (as @ bs) @ replicate (32 - length (as @ bs)) None"
      unfolding free_slot [OF \<open>length (as @ bs) < 32\<close>] by simp
    show "sorted_wrt (<) (as @ bs)" "set (as @ bs) \<subseteq> {0..<32}"
      using bank_holdsD(2,3) [OF assms] by (auto simp: sorted_wrt_append)
  qed (use cnt bank_holdsD(5) [OF assms] in simp_all)
  ultimately show ?thesis by (rule that) simp
qed

text \<open>The walk over the array, from the first index that may still match.\<close>

definition set_active :: "bool \<Rightarrow> int \<Rightarrow> int set \<Rightarrow> int set" where
  "set_active is_enable k A = (if is_enable then insert k A else A - {k})"

definition bank_step :: "bool \<Rightarrow> int \<Rightarrow> config_bank \<Rightarrow> (int \<times> config_bank) option \<Rightarrow> bool" where
  "bank_step is_enable off b res \<longleftrightarrow>
     (case res of None \<Rightarrow> False
      | Some (ret, b') \<Rightarrow> bank_inv b' \<and> bank_config b' = bank_config b \<and>
          bank_active b' = set_active is_enable off (bank_active b) \<and>
          ret = (if bank_active b' = bank_active b then 0 else 1))"

lemma bank_step_skip:
  "bank_holds ks b \<Longrightarrow> is_enable = (off \<in> set ks) \<Longrightarrow> bank_step is_enable off b (Some (0, b))"
  using bank_active_holds [of ks b] by (auto simp: bank_step_def bank_inv_def set_active_def)

lemma bank_step_insert:
  "bank_holds (as @ bs) b \<Longrightarrow> off \<notin> set (as @ bs) \<Longrightarrow> bank_holds (as @ off # bs) b' \<Longrightarrow>
   bank_config b' = bank_config b \<Longrightarrow> bank_step True off b (Some (1, b'))"
  using bank_active_holds [of "as @ bs" b] bank_active_holds [of "as @ off # bs" b']
  by (auto simp: bank_step_def bank_inv_def set_active_def)

lemma bank_step_delete:
  assumes "bank_holds (as @ off # bs) b" "bank_holds (as @ bs) b'"
    "bank_config b' = bank_config b"
  shows "bank_step False off b (Some (1, b'))"
proof -
  have "off \<notin> set (as @ bs)"
    using bank_holdsD(2) [OF assms(1)] by (auto simp: sorted_wrt_append)
  then show ?thesis
    using bank_active_holds [OF assms(1)] bank_active_holds [OF assms(2)] assms(2,3)
    by (auto simp: bank_step_def bank_inv_def set_active_def)
qed

lemma activate_loop_step:
  assumes "bank_holds (as @ bs) b" "0 \<le> off" "off < 32" "\<forall>k\<in>set as. k < off"
  shows "bank_step is_enable off b
    (activate_loop (base + off) is_enable base (32 - length as) (length as) b)"
  using assms
proof (induction bs arbitrary: as)
  case Nil
  then have holds: "bank_holds as b" by simp
  have room: "length as < 32"
    using bank_insert_room(2) [of as "[]" b off] Nil by simp
  then have left: "32 - length as = Suc (31 - length as)" by simp
  have slot: "bank_refers b ! length as = None" "length as < length (bank_refers b)"
    using room bank_holds_refers_length [OF holds] by (simp_all add: bank_holdsD(1) [OF holds] nth_append)
  show ?case
  proof (cases is_enable)
    case True
    let ?b = "b\<lparr>bank_refers := (bank_refers b)[length as := Some off],
      bank_active_cnt := bank_active_cnt b + 1\<rparr>"
    have "bank_holds (as @ off # []) ?b"
      unfolding bank_holds_def
    proof (intro conjI)
      show "bank_refers ?b = map Some (as @ off # []) @ replicate (32 - length (as @ off # [])) None"
        by (simp add: bank_holdsD(1) [OF holds] free_slot [OF room] list_update_append)
      show "sorted_wrt (<) (as @ off # [])"
        using bank_insert_room(1) [of as "[]" b off] Nil by simp
      show "unat (bank_active_cnt ?b) = length (as @ off # [])"
        using unat_cnt_plus [of "bank_active_cnt b"] bank_holdsD(4) [OF holds] room by simp
    qed (use bank_holdsD(3,5) [OF holds] Nil in auto)
    from bank_step_insert [OF _ _ this] show ?thesis
      using slot Nil True by (auto simp: left)
  next
    case False
    then show ?thesis
      using slot Nil bank_step_skip [OF holds, of is_enable off] by (auto simp: left)
  qed
next
  case (Cons k bs)
  let ?go = "activate_loop (base + off) is_enable base (32 - length as) (length as) b"
  have room: "length as < 32"
    using bank_holds_length [OF Cons.prems(1)] by simp
  then have left: "32 - length as = Suc (31 - length as)" by simp
  have slot: "bank_refers b ! length as = Some k" "length as < length (bank_refers b)"
    using room bank_holds_refers_length [OF Cons.prems(1)]
    by (simp_all add: bank_holdsD(1) [OF Cons.prems(1)] nth_append)
  have above: "\<forall>j\<in>set bs. k < j" "\<forall>j\<in>set as. j < k"
    using bank_holdsD(2) [OF Cons.prems(1)] by (auto simp: sorted_wrt_append)
  consider "k < off" | "k = off" | "off < k" by linarith
  then show ?case
  proof cases
    case 1
    have "bank_step is_enable off b
      (activate_loop (base + off) is_enable base (32 - length (as @ [k])) (length (as @ [k])) b)"
      using Cons.prems 1 by (intro Cons.IH) auto
    with 1 slot show ?thesis by (simp add: left)
  next
    case 2
    then have "?go = (if is_enable then Some (0, b) else refers_delete (length as) b)"
      using slot by (simp add: left)
    with 2 show ?thesis
      using refers_delete_step [OF Cons.prems(1)] bank_step_delete [of as off bs b]
        bank_step_skip [OF Cons.prems(1), of is_enable off] Cons.prems(1)
      by (metis in_set_conv_decomp)
  next
    case 3
    then have "?go = (if is_enable then refers_insert off (length as) b else Some (0, b))"
      using slot by (simp add: left)
    moreover have "off \<notin> set (as @ k # bs)"
      using 3 above Cons.prems(4) by auto
    moreover have "\<forall>j\<in>set (k # bs). off < j" using 3 above by auto
    ultimately show ?thesis
      using refers_insert_step [OF Cons.prems(1-4)] bank_step_insert [OF Cons.prems(1)]
        bank_step_skip [OF Cons.prems(1), of is_enable off]
      by metis
  qed
qed

section \<open>The two operations on the active set\<close>

definition list_index :: "int \<Rightarrow> bool" where
  "list_index idx \<longleftrightarrow> SENSORLIST_INX_GAS_RESIST \<le> idx \<and> idx < SENSORLIST_INX_END"

lemma hw_inv_start: "hw_inv hwcntl_start \<and> active_indices hwcntl_start = {}"
proof -
  have "bank_holds [] (bank_nonwk hwcntl_start)" "bank_holds [] (bank_wk hwcntl_start)"
    by (simp_all add: hwcntl_start_def bank_holds_def config_table_lengths)
  then show ?thesis
    by (auto simp: hw_inv_def bank_inv_def active_indices_def dest: bank_active_holds)
qed

lemma hw_inv_bank: "hw_inv s \<Longrightarrow> bank_inv (select_bank idx s)"
  by (simp add: hw_inv_def select_bank_def)

lemma hw_inv_store: "hw_inv s \<Longrightarrow> bank_inv b \<Longrightarrow> hw_inv (store_bank idx b s)"
  by (simp add: hw_inv_def store_bank_def)

lemma bank_active_range: "bank_inv b \<Longrightarrow> bank_active b \<subseteq> {0..<32}"
  using bank_active_holds [of _ b] bank_holdsD(3) [of _ b] by (force simp: bank_inv_def)

lemma wk_image: "k \<in> (\<lambda>j. 32 + j) ` A \<longleftrightarrow> k - (32 :: int) \<in> A"
  by (auto intro: image_eqI [of _ _ "k - 32"])

lemma active_member:
  "hw_inv s \<Longrightarrow> list_index idx \<Longrightarrow>
   idx \<in> active_indices s \<longleftrightarrow> idx - listinx_base idx \<in> bank_active (select_bank idx s)"
  using bank_active_range [of "bank_nonwk s"] bank_active_range [of "bank_wk s"]
  by (auto simp: active_indices_def hw_inv_def list_index_def listinx_base_def select_bank_def
      is_nonwk_def wk_image)

text \<open>Changing one bank changes the active set at the one index.\<close>

lemma active_store:
  assumes "hw_inv s" "list_index idx"
    and "bank_active b = set_active e (idx - listinx_base idx) (bank_active (select_bank idx s))"
  shows "active_indices (store_bank idx b s) = set_active e idx (active_indices s)"
proof (rule set_eqI)
  fix j
  have r: "bank_active (bank_nonwk s) \<subseteq> {0..<32}" "bank_active (bank_wk s) \<subseteq> {0..<32}"
    using assms(1) by (simp_all add: hw_inv_def bank_active_range)
  show "j \<in> active_indices (store_bank idx b s) \<longleftrightarrow> j \<in> set_active e idx (active_indices s)"
    using assms(2,3) r
    by (cases "is_nonwk idx"; cases e)
      (auto simp: active_indices_def store_bank_def select_bank_def set_active_def wk_image
        listinx_base_def list_index_def is_nonwk_def)
qed

text \<open>The configuration tables of both banks.\<close>

definition config_tables :: "hwcntl \<Rightarrow> bsx_sensor_config list \<times> bsx_sensor_config list" where
  "config_tables s = (bank_config (bank_nonwk s), bank_config (bank_wk s))"

lemma loop_end_32: "loop_end idx = 32"
  by (simp add: loop_end_def)

lemma offset_range: "list_index idx \<Longrightarrow> 0 \<le> idx - listinx_base idx \<and> idx - listinx_base idx < 32"
  by (auto simp: list_index_def listinx_base_def is_nonwk_def)

lemma store_bank_same [simp]: "store_bank idx (select_bank idx s) s = s"
  by (simp add: store_bank_def select_bank_def)

lemma config_tables_store:
  "bank_config b = bank_config (select_bank idx s) \<Longrightarrow>
   config_tables (store_bank idx b s) = config_tables s"
  by (simp add: config_tables_def store_bank_def select_bank_def split: if_splits)

lemma store_bank_frame [simp]:
  "all_sensors (store_bank idx b s) = all_sensors s"
  "sensorlist (store_bank idx b s) = sensorlist s"
  by (simp_all add: store_bank_def)

lemma activate_resort_step:
  assumes "hw_inv s" "list_index idx"
  shows "\<exists>ret s'. activate_configref_resort idx is_enable s = Some (ret, s') \<and> hw_inv s' \<and>
    active_indices s' = set_active (is_enable \<noteq> 0) idx (active_indices s) \<and>
    ret = (if active_indices s' = active_indices s then 0 else 1) \<and>
    config_tables s' = config_tables s"
proof -
  let ?b = "select_bank idx s" and ?off = "idx - listinx_base idx"
  obtain ks where holds: "bank_holds ks ?b"
    using hw_inv_bank [OF assms(1)] unfolding bank_inv_def by blast
  have step: "bank_step (is_enable \<noteq> 0) ?off ?b
    (activate_loop idx (is_enable \<noteq> 0) (listinx_base idx) (loop_end idx) 0 ?b)"
    using activate_loop_step [of "[]" ks ?b ?off "is_enable \<noteq> 0" "listinx_base idx"]
      holds offset_range [OF assms(2)] by (simp add: loop_end_32)
  then obtain ret b where run: "activate_loop idx (is_enable \<noteq> 0) (listinx_base idx)
      (loop_end idx) 0 ?b = Some (ret, b)"
    and b: "bank_inv b" "bank_config b = bank_config ?b"
      "bank_active b = set_active (is_enable \<noteq> 0) ?off (bank_active ?b)"
      "ret = (if bank_active b = bank_active ?b then 0 else 1)"
    by (auto simp: bank_step_def split: option.splits)
  let ?s = "store_bank idx b s"
  have active: "active_indices ?s = set_active (is_enable \<noteq> 0) idx (active_indices s)"
    by (rule active_store [OF assms b(3)])
  have "bank_active b = bank_active ?b \<longleftrightarrow> active_indices ?s = active_indices s"
    using active_member [OF assms] unfolding active b(3) by (auto simp: set_active_def)
  then have "activate_configref_resort idx is_enable s = Some (ret, ?s)"
    "ret = (if active_indices ?s = active_indices s then 0 else 1)"
    using run b(4) by (simp_all add: activate_configref_resort_def)
  then show ?thesis
    using active hw_inv_store [OF assms(1) b(1)] config_tables_store [OF b(2)] by blast
qed

text \<open>C11: activate_configref_resort refines insertion into and deletion from the set of
  active list indices: on every state whose reference arrays are sorted prefixes it is
  defined (no memmove or array access out of bounds, even with all 32 slots taken), keeps
  the arrays sorted, leaves the configurations alone, changes the set at the given index
  only and answers 1 exactly when the set changed.\<close>

theorem activate_configref_resort_set:
  assumes "hw_inv s" "list_index idx"
  shows "\<exists>ret s'. activate_configref_resort idx is_enable s = Some (ret, s') \<and> hw_inv s' \<and>
    active_indices s' = set_active (is_enable \<noteq> 0) idx (active_indices s) \<and>
    ret = (if active_indices s' = active_indices s then 0 else 1) \<and>
    config_tables s' = config_tables s"
  using assms by (rule activate_resort_step)

lemma activate_configref_resort_set_witness:
  "\<exists>ret s'. activate_configref_resort 16 1 hwcntl_start = Some (ret, s') \<and>
     active_indices s' = {16} \<and> ret = 1"
  using activate_configref_resort_set [of hwcntl_start 16 1] hw_inv_start
  by (auto simp: list_index_def set_active_def)

lemma batch_loop_configures:
  assumes "bank_holds (as @ bs) b" "off \<notin> set as"
  shows "batch_loop (base + off) period latency delay_Hz base (length bs) (length as) b =
    map_option (Pair (if off \<in> set bs then 1 else 0)) (configure_at off period latency delay_Hz b)"
  using assms
proof (induction bs arbitrary: as)
  case Nil
  then show ?case by (simp add: map_option_case split: option.split)
next
  case (Cons k bs)
  have room: "length as < length (bank_refers b)"
    using bank_holds_length [OF Cons.prems(1)] bank_holds_refers_length [OF Cons.prems(1)] by simp
  have slot: "bank_refers b ! length as = Some k"
    by (simp add: bank_holdsD(1) [OF Cons.prems(1)] nth_append)
  show ?case
  proof (cases "k = off")
    case True
    then show ?thesis using room slot by (simp add: map_option_case split: option.split)
  next
    case False
    with Cons.IH [of "as @ [k]"] Cons.prems show ?thesis using room slot by simp
  qed
qed

lemma configure_at_config:
  assumes "0 \<le> off" "off < int (length (bank_config b))" "period \<noteq> 0"
  obtains c where "configure period latency delay_Hz (bank_config b ! nat off) = Some c"
    "configure_at off period latency delay_Hz b =
       Some (b\<lparr>bank_config := (bank_config b)[nat off := c]\<rparr>)"
  using assms by (cases "encode_max_latency latency") (auto simp: configure_at_def configure_def)

definition config_of :: "int \<Rightarrow> hwcntl \<Rightarrow> bsx_sensor_config" where
  "config_of idx s = bank_config (select_bank idx s) ! nat (idx - listinx_base idx)"

lemma config_of_store:
  assumes "list_index idx" "list_index j" "length (bank_config (select_bank idx s)) = 32"
  shows "config_of j (store_bank idx ((select_bank idx s)\<lparr>bank_config :=
      (bank_config (select_bank idx s))[nat (idx - listinx_base idx) := c]\<rparr>) s) =
    (if j = idx then c else config_of j s)"
  using assms
  by (auto simp: config_of_def store_bank_def select_bank_def list_index_def listinx_base_def
      is_nonwk_def nth_list_update)

lemma bank_inv_config:
  "bank_inv b \<Longrightarrow> length cs = 32 \<Longrightarrow> bank_inv (b\<lparr>bank_config := cs\<rparr>)"
  unfolding bank_inv_def bank_holds_def by auto

lemma bank_inv_config_length: "bank_inv b \<Longrightarrow> length (bank_config b) = 32"
  unfolding bank_inv_def bank_holds_def by auto

lemma batch_resort_step:
  assumes "hw_inv s" "list_index idx" "period \<noteq> 0"
  shows "\<exists>s' c. batch_configref_resort idx period latency delay_Hz s =
      Some (if idx \<in> active_indices s then 1 else 0, s') \<and>
    configure period latency delay_Hz (config_of idx s) = Some c \<and>
    hw_inv s' \<and> active_indices s' = active_indices s \<and>
    (\<forall>j. list_index j \<longrightarrow> config_of j s' = (if j = idx then c else config_of j s))"
proof -
  let ?b = "select_bank idx s" and ?off = "idx - listinx_base idx"
  have inv: "bank_inv ?b" by (rule hw_inv_bank [OF assms(1)])
  then obtain ks where holds: "bank_holds ks ?b" unfolding bank_inv_def by blast
  note len = bank_inv_config_length [OF inv]
  obtain c where c: "configure period latency delay_Hz (config_of idx s) = Some c"
    "configure_at ?off period latency delay_Hz ?b =
       Some (?b\<lparr>bank_config := (bank_config ?b)[nat ?off := c]\<rparr>)"
    using configure_at_config [of ?off ?b period latency delay_Hz] offset_range [OF assms(2)]
      assms(3) len unfolding config_of_def by (metis of_nat_numeral)
  let ?b' = "?b\<lparr>bank_config := (bank_config ?b)[nat ?off := c]\<rparr>"
  let ?s = "store_bank idx ?b' s"
  have "(?off \<in> set ks) = (idx \<in> active_indices s)"
    by (simp add: active_member [OF assms(1,2)] bank_active_holds [OF holds])
  then have "batch_configref_resort idx period latency delay_Hz s =
      Some (if idx \<in> active_indices s then 1 else 0, ?s)"
    using batch_loop_configures [of "[]" ks ?b ?off "listinx_base idx" period latency delay_Hz]
      holds c(2) by (simp add: batch_configref_resort_def bank_holdsD(4) [OF holds] Let_def)
  moreover have "hw_inv ?s"
    using hw_inv_store [OF assms(1) bank_inv_config [OF inv]] len by simp
  moreover have "active_indices ?s = active_indices s"
    by (simp add: active_indices_def store_bank_def select_bank_def bank_active_def)
  moreover have "\<forall>j. list_index j \<longrightarrow> config_of j ?s = (if j = idx then c else config_of j s)"
    using config_of_store [OF assms(2) _ len] by blast
  ultimately show ?thesis using c(1) by blast
qed



text \<open>With sampling_period_ns = 0, which ap_batch passes for on-change sensors,
  batch_configref_resort divides by zero for every sensor, active or not.\<close>

theorem batch_zero_period_undefined:
  assumes "hw_inv s" "list_index idx"
  shows "batch_configref_resort idx 0 latency delay_Hz s = None"
proof -
  let ?b = "select_bank idx s" and ?off = "idx - listinx_base idx"
  obtain ks where holds: "bank_holds ks ?b"
    using hw_inv_bank [OF assms(1)] unfolding bank_inv_def by blast
  have "configure_at ?off 0 latency delay_Hz ?b = None"
    by (simp add: configure_at_def configure_def)
  then show ?thesis
    using batch_loop_configures [of "[]" ks ?b ?off "listinx_base idx" 0 latency delay_Hz] holds
    by (simp add: batch_configref_resort_def bank_holdsD(4) [OF holds] Let_def)
qed

lemma batch_zero_period_undefined_witness:
  "batch_configref_resort 5 0 1000 5 hwcntl_start = None"
  using batch_zero_period_undefined [of hwcntl_start 5 1000 5] hw_inv_start
  by (simp add: list_index_def)

section \<open>Encoded values\<close>

definition unit_ns :: "u8 \<Rightarrow> int" where
  "unit_ns unit = (if unit = BSX_CONFSTR_UNITns then 1 else if unit = BSX_CONFSTR_UNITus then 1000
     else if unit = BSX_CONFSTR_UNITms then 1000000 else 1000000000)"

lemma scaled_value:
  assumes "0 \<le> ns" "ns < 16384 * d" "0 < d"
  shows "uint (word_of_int (c_div ns d) :: u16) = ns div d" "ns div d < 2 ^ 14"
    "ns div d * d \<le> ns" "ns < (ns div d + 1) * d"
proof -
  have parts: "ns = ns div d * d + ns mod d" "0 \<le> ns mod d" "ns mod d < d"
    using assms(3) by simp_all
  then show "ns div d * d \<le> ns" by linarith
  from parts show "ns < (ns div d + 1) * d" unfolding distrib_right by linarith
  have "0 \<le> ns div d" using assms by (simp add: pos_imp_zdiv_nonneg_iff)
  moreover show "ns div d < 2 ^ 14"
  proof (rule ccontr)
    assume "\<not> ?thesis"
    then have "16384 * d \<le> ns div d * d" using assms(3) by (intro mult_right_mono) simp_all
    with assms parts show False by linarith
  qed
  ultimately show "uint (word_of_int (c_div ns d) :: u16) = ns div d"
    using assms by (simp add: uint_word_of_int_eq take_bit_eq_mod)
qed

text \<open>encode_max_latency of a non-negative latency yields a 14-bit value and a unit with value
  * unit <= latency, and latency < (value + 1) * unit below the saturation point.\<close>

theorem encode_max_latency_rounds_down:
  assumes "0 \<le> ns" "encode_max_latency ns = (value, unit)"
  shows "uint value < 2 ^ 14 \<and> uint value * unit_ns unit \<le> ns \<and>
    (ns < 16384000000000 \<longrightarrow> ns < (uint value + 1) * unit_ns unit)"
proof -
  consider "ns < 1000" | "1000 \<le> ns" "ns < 1000000" | "1000000 \<le> ns" "ns < 1000000000"
    | "1000000000 \<le> ns" "ns < 16383000000000" | "16383000000000 \<le> ns" by linarith
  then show ?thesis
  proof cases
    case 1
    then have "value = word_of_int (c_div ns 1)" "unit = 0"
      using assms by (auto simp: encode_max_latency_def)
    then show ?thesis using scaled_value [of ns 1] assms(1) 1 by (simp add: unit_ns_def)
  next
    case 2
    then have "value = word_of_int (c_div ns 1000)" "unit = 64"
      using assms by (auto simp: encode_max_latency_def)
    then show ?thesis using scaled_value [of ns 1000] assms(1) 2 by (simp add: unit_ns_def)
  next
    case 3
    then have "value = word_of_int (c_div ns 1000000)" "unit = 128"
      using assms by (auto simp: encode_max_latency_def)
    then show ?thesis using scaled_value [of ns 1000000] assms(1) 3 by (simp add: unit_ns_def)
  next
    case 4
    then have "value = word_of_int (c_div ns 1000000000)" "unit = 192"
      using assms by (auto simp: encode_max_latency_def)
    then show ?thesis using scaled_value [of ns 1000000000] assms(1) 4 by (simp add: unit_ns_def)
  next
    case 5
    then have "value = 16383" "unit = 192"
      using assms by (auto simp: encode_max_latency_def)
    then show ?thesis using 5 by (simp add: unit_ns_def)
  qed
qed

lemma encode_max_latency_rounds_down_witness:
  "encode_max_latency 1500 = (1, 64) \<and> uint (1 :: u16) * unit_ns 64 \<le> 1500 \<and>
   1500 < (uint (1 :: u16) + 1) * unit_ns 64"
proof -
  have e: "encode_max_latency 1500 = (1, 64)" by (simp add: encode_max_latency_def)
  from encode_max_latency_rounds_down [OF _ e] e show ?thesis by (simp add: unit_ns_def)
qed

section \<open>The encoded rate\<close>

definition reported_Hz :: "int \<Rightarrow> rat" where
  "reported_Hz period = f32 (1000000000 / f32 (of_int period))"

lemma reported_Hz_positive: "0 < period \<Longrightarrow> 0 < reported_Hz period"
  by (simp add: reported_Hz_def)

lemma reported_Hz_le:
  assumes "500000 \<le> period"
  shows "reported_Hz period \<le> 2000"
proof -
  have "f32 500000 \<le> f32 (of_int period)" using assms by (intro fl_mono) simp_all
  then have "1000000000 / f32 (of_int period) \<le> 1000000000 / 500000"
    using assms by (intro divide_left_mono) simp_all
  then show ?thesis unfolding reported_Hz_def by (intro fl_le) simp_all
qed

lemma encode_datarate_covers:
  assumes "0 < period" "reported_Hz period \<le> 2000"
  shows "reported_Hz period \<le> CONVERT_DATARATE_CODE (encode_datarate period)"
proof -
  have e: "encode_datarate period =
     (let Hz = reported_Hz period in
      if 1600 < Hz \<and> Hz \<le> 2000 then 18 else if 1000 < Hz \<and> Hz \<le> 1600 then 17
      else if 800 < Hz \<and> Hz \<le> 1000 then 16 else if 400 < Hz \<and> Hz \<le> 800 then 15
      else if 200 < Hz \<and> Hz \<le> 400 then 1 else if 100 < Hz \<and> Hz \<le> 200 then 2
      else if 50 < Hz \<and> Hz \<le> 100 then 3 else if 25 < Hz \<and> Hz \<le> 50 then 4
      else if 12 < Hz \<and> Hz \<le> 25 then 5 else if 6 < Hz \<and> Hz \<le> 12 then 6
      else if 5 < Hz \<and> Hz \<le> 6 then 7 else if 1 < Hz \<and> Hz \<le> 5 then 8
      else if Hz \<le> 1 then 9 else 0)"
    using assms(1) by (simp add: encode_datarate_def reported_Hz_def cong: if_cong)
  show ?thesis
    unfolding e Let_def using assms(2) by (simp add: CONVERT_DATARATE_CODE_def)
qed

text \<open>Two roundings lose at most \<open>2 ^ -22\<close> of the rate.\<close>

lemma reported_Hz_error:
  assumes "0 < period"
  shows "1000000000 \<le> reported_Hz period * of_int period * (1 + 1 / 2 ^ 22)"
proof -
  let ?p = "of_int period :: rat" and ?F = "f32 (of_int period)"
  have F: "0 < ?F" using assms by simp
  have up: "?F \<le> ?p * (1 + 1 / 2 ^ 24)"
    using assms by (intro fl_upper) simp_all
  have H: "1000000000 / ?F * (1 - 1 / 2 ^ 24) \<le> reported_Hz period"
    using less_imp_le [OF F] unfolding reported_Hz_def by (intro fl_lower) simp_all
  then have "1000000000 * (1 - 1 / 2 ^ 24) \<le> reported_Hz period * ?F"
    using F by (simp add: field_simps)
  also have "\<dots> \<le> reported_Hz period * (?p * (1 + 1 / 2 ^ 24))"
    using reported_Hz_positive [OF assms] by (intro mult_left_mono up) simp
  finally show ?thesis
    using reported_Hz_positive [OF assms] assms by (simp add: field_simps)
qed

lemma encode_datarate_rate:
  assumes "500000 \<le> period"
  shows "1000000000 \<le>
    CONVERT_DATARATE_CODE (encode_datarate period) * of_int period * (1 + 1 / 2 ^ 22)"
proof -
  have pos: "0 < period" using assms by simp
  have "reported_Hz period * of_int period * (1 + 1 / 2 ^ 22) \<le>
      CONVERT_DATARATE_CODE (encode_datarate period) * of_int period * (1 + 1 / 2 ^ 22)"
    using encode_datarate_covers [OF pos reported_Hz_le [OF assms]] pos
    by (intro mult_right_mono) simp_all
  then show ?thesis using reported_Hz_error [OF pos] by linarith
qed

text \<open>For every sampling period of at least 500 us the rate that encode_datarate and
  CONVERT_DATARATE_CODE choose is at least the requested one, up to the 2^-22 relative
  error of the two float roundings.\<close>

theorem encode_datarate_meets_request:
  assumes "500000 \<le> period"
  shows "1000000000 \<le>
    CONVERT_DATARATE_CODE (encode_datarate period) * of_int period * (1 + 1 / 2 ^ 22)"
  using assms by (rule encode_datarate_rate)

lemma encode_datarate_meets_request_witness:
  "1000000000 \<le> CONVERT_DATARATE_CODE (encode_datarate 5000000) * 5000000 * (1 + 1 / 2 ^ 22)"
  using encode_datarate_meets_request [of 5000000] by simp

end
