(* ===== verification/Util_Misc.thy ===== *)
theory Util_Misc
  imports Prelude
begin

text \<open>
  The bit counters of \<open>legacy/sensord/util_misc.c\<close>: \<open>sensord_popcount_32\<close> and
  \<open>sensord_popcount_64\<close>, which add neighbouring bit fields of doubling width.  Both are
  proved equal to the number of set bits; the proof reads a word as a list of fields
  (\<open>field_sum\<close>) and shows once, for every field width, that one masking step adds the fields
  pairwise (\<open>pair_fields\<close>) without a carry between them.
\<close>

section \<open>The two functions\<close>

definition popcount_step :: "nat \<Rightarrow> 'a::len word \<Rightarrow> 'a word \<Rightarrow> 'a word" where
  "popcount_step w m x = (x AND m) + (drop_bit w x AND m)"

definition sensord_popcount_32 :: "u32 \<Rightarrow> u32" where
  "sensord_popcount_32 x =
     (let m1 = 0x55555555; m2 = 0x33333333; m4 = 0x0f0f0f0f; m8 = 0x00ff00ff; m16 = 0x0000ffff;
          x = popcount_step 1 m1 x;
          x = popcount_step 2 m2 x;
          x = popcount_step 4 m4 x;
          x = popcount_step 8 m8 x;
          x = popcount_step 16 m16 x
      in x)"

definition sensord_popcount_64 :: "u64 \<Rightarrow> u32" where
  "sensord_popcount_64 x =
     (let m1 = 0x5555555555555555; m2 = 0x3333333333333333; m4 = 0x0f0f0f0f0f0f0f0f;
          m8 = 0x00ff00ff00ff00ff; m16 = 0x0000ffff0000ffff; m32 = 0x00000000ffffffff;
          x = popcount_step 1 m1 x;
          x = popcount_step 2 m2 x;
          x = popcount_step 4 m4 x;
          x = popcount_step 8 m8 x;
          x = popcount_step 16 m16 x;
          x = popcount_step 32 m32 x
      in ucast x)"

text \<open>The reference: count the positions whose bit is set.\<close>

definition bit_count :: "'a::len word \<Rightarrow> nat" where
  "bit_count x = length (filter (bit x) [0..<LENGTH('a)])"

section \<open>Words as lists of fields\<close>

fun field_sum :: "nat \<Rightarrow> nat \<Rightarrow> nat \<Rightarrow> nat" where
  "field_sum w 0 x = 0"
| "field_sum w (Suc n) x = take_bit w x + field_sum w n (drop_bit w x)"

fun pair_fields :: "nat \<Rightarrow> nat \<Rightarrow> nat \<Rightarrow> nat" where
  "pair_fields w 0 x = 0"
| "pair_fields w (Suc n) x =
     (take_bit w x + take_bit w (drop_bit w x)) + 2 ^ (2 * w) * pair_fields w n (drop_bit (2 * w) x)"

fun field_mask :: "nat \<Rightarrow> nat \<Rightarrow> nat" where
  "field_mask w 0 = 0"
| "field_mask w (Suc n) = (2 ^ w - 1) + 2 ^ (2 * w) * field_mask w n"

lemma two_fields_fit:
  assumes "0 < w"
  shows "take_bit w x + take_bit w y < (2 ^ (2 * w) :: nat)"
proof -
  have "take_bit w x + take_bit w y < 2 ^ w + (2 ^ w :: nat)"
    by (simp add: add_strict_mono)
  also have "2 ^ w + 2 ^ w = (2 ^ Suc w :: nat)" by simp
  also have "2 ^ Suc w \<le> (2 ^ (2 * w) :: nat)"
    using assms by (intro power_increasing) auto
  finally show ?thesis .
qed

lemma pair_fields_bound:
  assumes "0 < w"
  shows "pair_fields w n x < 2 ^ (2 * w * n)"
proof (induction n arbitrary: x)
  case 0
  then show ?case by simp
next
  case (Suc n)
  have "Suc (pair_fields w n (drop_bit (2 * w) x)) \<le> 2 ^ (2 * w * n)"
    using Suc [of "drop_bit (2 * w) x"] by simp
  then have "2 ^ (2 * w) * Suc (pair_fields w n (drop_bit (2 * w) x)) \<le> 2 ^ (2 * w) * 2 ^ (2 * w * n)"
    by (rule mult_le_mono2)
  then show ?case
    using two_fields_fit [OF assms, of x "drop_bit w x"] by (simp add: power_add)
qed

lemma field_split:
  assumes "(s :: nat) < 2 ^ k"
  shows "take_bit k (s + 2 ^ k * r) = s" "drop_bit k (s + 2 ^ k * r) = r"
  using assms by (simp_all add: take_bit_eq_mod drop_bit_eq_div)

lemma field_sum_pair_fields:
  assumes "0 < w"
  shows "field_sum (2 * w) n (pair_fields w n x) = field_sum w (2 * n) x"
proof (induction n arbitrary: x)
  case 0
  then show ?case by simp
next
  case (Suc n)
  have "drop_bit w (drop_bit w x) = drop_bit (2 * w) x"
    by (simp add: mult_2)
  with Suc show ?case
    by (simp add: field_split [OF two_fields_fit [OF assms]] del: drop_bit_drop_bit)
qed

lemma and_field_mask:
  "(x :: nat) AND field_mask w (Suc n) =
     take_bit w x + 2 ^ (2 * w) * (drop_bit (2 * w) x AND field_mask w n)"
proof -
  have "mask w + push_bit (2 * w) (field_mask w n) = mask w OR push_bit (2 * w) (field_mask w n)"
    by (rule disjunctive_add) (auto simp: bit_simps)
  then have m: "field_mask w (Suc n) = mask w OR push_bit (2 * w) (field_mask w n)"
    by (simp add: mask_eq_exp_minus_1 push_bit_eq_mult mult.commute)
  have "x AND field_mask w (Suc n) =
      take_bit w x OR push_bit (2 * w) (drop_bit (2 * w) x AND field_mask w n)"
    unfolding m by (auto simp: bit_eq_iff bit_simps)
  also have "\<dots> = take_bit w x + push_bit (2 * w) (drop_bit (2 * w) x AND field_mask w n)"
    by (rule disjunctive_add [symmetric]) (auto simp: bit_simps)
  finally show ?thesis by (simp add: push_bit_eq_mult mult.commute)
qed

lemma masked_fields_add:
  "(x AND field_mask w n) + (drop_bit w x AND field_mask w n) = pair_fields w n x"
proof (induction n arbitrary: x)
  case 0
  then show ?case by simp
next
  case (Suc n)
  let ?y = "drop_bit (2 * w) x"
  have "drop_bit (2 * w) (drop_bit w x) = drop_bit w ?y"
    by (simp add: add.commute)
  then have "(x AND field_mask w (Suc n)) + (drop_bit w x AND field_mask w (Suc n)) =
      take_bit w x + take_bit w (drop_bit w x) +
      2 ^ (2 * w) * ((?y AND field_mask w n) + (drop_bit w ?y AND field_mask w n))"
    unfolding and_field_mask distrib_left by simp
  then show ?case by (simp only: Suc pair_fields.simps)
qed

section \<open>One step on words\<close>

lemma unat_popcount_step:
  fixes x m :: "'a::len word"
  assumes "0 < w" "2 * w * n = LENGTH('a)" "unat m = field_mask w n"
  shows "unat (popcount_step w m x) = pair_fields w n (unat x)"
proof -
  have sum: "unat (x AND m) + unat (drop_bit w x AND m) = pair_fields w n (unat x)"
    using assms(3) masked_fields_add [of "unat x" w n]
    by (simp add: unsigned_and_eq unsigned_drop_bit_eq)
       (simp add: drop_bit_eq_div take_bit_eq_mod div_le_dividend
          order_le_less_trans [OF div_le_dividend unsigned_less])
  then have "unat (x AND m) + unat (drop_bit w x AND m) < 2 ^ LENGTH('a)"
    using pair_fields_bound [OF assms(1), of n "unat x"] assms(2) by simp
  with sum show ?thesis
    by (simp add: popcount_step_def unat_word_ariths(1))
qed

section \<open>The number of set bits\<close>

lemma bit_count_field_sum:
  "bit_count x = field_sum 1 LENGTH('a) (unat (x :: 'a::len word))"
proof -
  have "length (filter (bit y) [k..<k + n]) = field_sum 1 n (drop_bit k y)" for y k n :: nat
  proof (induction n arbitrary: k)
    case 0
    then show ?case by simp
  next
    case (Suc n)
    have "[k..<k + Suc n] = k # [Suc k..<Suc k + n]"
      by (simp add: upt_conv_Cons del: upt_Suc)
    then show ?case
      using Suc [of "Suc k"]
      by (auto simp: take_bit_eq_mod drop_bit_eq_div bit_iff_odd odd_iff_mod_2_eq_one
          even_iff_mod_2_eq_zero div_mult2_eq [symmetric] mult.commute)
  qed
  from this [of "unat x" 0 "LENGTH('a)"] show ?thesis
    by (simp add: bit_count_def bit_unsigned_iff cong: filter_cong)
qed

text \<open>One step keeps the sum of the fields while their width doubles.\<close>

lemma popcount_step_keeps_sum:
  fixes x m :: "'a::len word"
  assumes "0 < w" "2 * w * n = LENGTH('a)" "unat m = field_mask w n"
  shows "field_sum (2 * w) n (unat (popcount_step w m x)) = field_sum w (2 * n) (unat x)"
  by (simp add: unat_popcount_step [OF assms] field_sum_pair_fields [OF assms(1)])

lemma field_sum_single: "x < 2 ^ w \<Longrightarrow> field_sum w (Suc 0) x = x"
  by (simp add: take_bit_eq_mod)

lemma field_mask_numeral [simp]:
  "field_mask w (numeral k) = (2 ^ w - 1) + 2 ^ (2 * w) * field_mask w (pred_numeral k)"
  by (simp add: numeral_eq_Suc)

lemma field_masks_32:
  "unat (0x55555555 :: u32) = field_mask 1 16" "unat (0x33333333 :: u32) = field_mask 2 8"
  "unat (0x0f0f0f0f :: u32) = field_mask 4 4" "unat (0x00ff00ff :: u32) = field_mask 8 2"
  "unat (0x0000ffff :: u32) = field_mask 16 1"
  by simp_all

lemma field_masks_64:
  "unat (0x5555555555555555 :: u64) = field_mask 1 32"
  "unat (0x3333333333333333 :: u64) = field_mask 2 16"
  "unat (0x0f0f0f0f0f0f0f0f :: u64) = field_mask 4 8"
  "unat (0x00ff00ff00ff00ff :: u64) = field_mask 8 4"
  "unat (0x0000ffff0000ffff :: u64) = field_mask 16 2"
  "unat (0x00000000ffffffff :: u64) = field_mask 32 1"
  by simp_all

lemma popcount_32_bit_count: "unat (sensord_popcount_32 x) = bit_count x"
proof -
  define x1 where "x1 = popcount_step 1 0x55555555 x"
  define x2 where "x2 = popcount_step 2 0x33333333 x1"
  define x4 where "x4 = popcount_step 4 0x0f0f0f0f x2"
  define x8 where "x8 = popcount_step 8 0x00ff00ff x4"
  define x16 where "x16 = popcount_step 16 0x0000ffff x8"
  note step = popcount_step_keeps_sum [where 'a = 32, OF _ _ field_masks_32(1), of x]
    popcount_step_keeps_sum [where 'a = 32, OF _ _ field_masks_32(2), of x1]
    popcount_step_keeps_sum [where 'a = 32, OF _ _ field_masks_32(3), of x2]
    popcount_step_keeps_sum [where 'a = 32, OF _ _ field_masks_32(4), of x4]
    popcount_step_keeps_sum [where 'a = 32, OF _ _ field_masks_32(5), of x8]
  have "unat x16 = field_sum 32 1 (unat x16)"
    using unsigned_less [of x16, where 'a = nat] by (simp add: take_bit_eq_mod)
  also have "\<dots> = field_sum 1 32 (unat x)"
    using step by (simp add: x1_def [symmetric] x2_def [symmetric] x4_def [symmetric]
        x8_def [symmetric] x16_def [symmetric] del: field_sum.simps One_nat_def)
  also have "\<dots> = bit_count x"
    by (simp add: bit_count_field_sum del: field_sum.simps)
  finally show ?thesis
    by (simp add: sensord_popcount_32_def Let_def x16_def x8_def x4_def x2_def x1_def)
qed

lemma popcount_64_bit_count: "unat (sensord_popcount_64 x) = bit_count x"
proof -
  define x1 where "x1 = popcount_step 1 0x5555555555555555 x"
  define x2 where "x2 = popcount_step 2 0x3333333333333333 x1"
  define x4 where "x4 = popcount_step 4 0x0f0f0f0f0f0f0f0f x2"
  define x8 where "x8 = popcount_step 8 0x00ff00ff00ff00ff x4"
  define x16 where "x16 = popcount_step 16 0x0000ffff0000ffff x8"
  define x32 where "x32 = popcount_step 32 0x00000000ffffffff x16"
  note step = popcount_step_keeps_sum [where 'a = 64, OF _ _ field_masks_64(1), of x]
    popcount_step_keeps_sum [where 'a = 64, OF _ _ field_masks_64(2), of x1]
    popcount_step_keeps_sum [where 'a = 64, OF _ _ field_masks_64(3), of x2]
    popcount_step_keeps_sum [where 'a = 64, OF _ _ field_masks_64(4), of x4]
    popcount_step_keeps_sum [where 'a = 64, OF _ _ field_masks_64(5), of x8]
    popcount_step_keeps_sum [where 'a = 64, OF _ _ field_masks_64(6), of x16]
  have "unat x32 = field_sum 64 1 (unat x32)"
    using unsigned_less [of x32, where 'a = nat] by (simp add: take_bit_eq_mod)
  also have "\<dots> = field_sum 1 64 (unat x)"
    using step by (simp add: x1_def [symmetric] x2_def [symmetric] x4_def [symmetric]
        x8_def [symmetric] x16_def [symmetric] x32_def [symmetric] del: field_sum.simps One_nat_def)
  also have "\<dots> = bit_count x"
    by (simp add: bit_count_field_sum del: field_sum.simps)
  finally have count: "unat x32 = bit_count x" .
  have "bit_count x \<le> 64"
    using length_filter_le [of "bit x" "[0..<64]"] by (simp add: bit_count_def)
  with count have "take_bit 32 (unat x32) = bit_count x"
    by (simp add: take_bit_eq_mod)
  then show ?thesis
    by (simp add: sensord_popcount_64_def Let_def x32_def x16_def x8_def x4_def x2_def x1_def
        unsigned_ucast_eq)
qed

section \<open>Properties\<close>

text \<open>sensord_popcount_64 returns the number of set bits of its 64-bit argument; no field
  addition carries into its neighbour and the cast to uint32_t loses nothing.\<close>

theorem sensord_popcount_64_counts: "unat (sensord_popcount_64 x) = bit_count x"
  by (rule popcount_64_bit_count)

text \<open>sensord_popcount_32 returns the number of set bits of its 32-bit argument.\<close>

theorem sensord_popcount_32_counts: "unat (sensord_popcount_32 x) = bit_count x"
  by (rule popcount_32_bit_count)

end
