(* ===== verification/Ap_Control.thy ===== *)
theory Ap_Control
  imports Hw_Control Util_Misc
begin

text \<open>
  The control operations of \<open>legacy/sensord/sensord_hwcntl_implement.cpp\<close>: the sensor list
  (\<open>ap_get_sensorlist\<close>), activation, batching and flushing, and the physical sampling interval
  they set for the polling thread.  The state holds the configuration store of \<open>Hw_Control\<close>,
  the settings of \<open>sensord_cfg.cpp\<close> and the file-scope variables of the file.  An operation
  returns \<open>None\<close> when the code's behaviour is undefined.
\<close>

section \<open>State\<close>

abbreviation (input) "SOLUTION_IMU \<equiv> (2 :: int)"
abbreviation (input) "ACC_CHIP_SMI240 \<equiv> (1 :: int)"
abbreviation (input) "GYR_CHIP_SMI240 \<equiv> (1 :: int)"
abbreviation (input) "EINVAL \<equiv> (22 :: int)"
abbreviation (input) "ENODEV \<equiv> (19 :: int)"

record sensord_cfg =
  g_place_a :: int
  g_place_m :: int
  g_place_g :: int
  solution_type :: int
  accl_chip :: int
  gyro_chip :: int
  magn_chip :: int
  accl_range :: int
  gyro_range :: int
  algo_pass :: int
  amsh_intr_pin :: int
  amsh_calibration :: int
  data_log :: int
  bsx_datalog :: int
  trace_level :: int
  trace_to_logcat :: int
  sensors_mask :: u64

definition default_cfg :: sensord_cfg where
  "default_cfg = \<lparr> g_place_a = 0, g_place_m = 0, g_place_g = 0, solution_type = SOLUTION_IMU,
     accl_chip = ACC_CHIP_SMI240, gyro_chip = GYR_CHIP_SMI240, magn_chip = 0, accl_range = 16,
     gyro_range = 300, algo_pass = 1, amsh_intr_pin = 0, amsh_calibration = 0, data_log = 0,
     bsx_datalog = 0, trace_level = 0x1C, trace_to_logcat = 1, sensors_mask = 0 \<rparr>"

abbreviation (input) "US_PER_SEC \<equiv> (1000000 :: int)"
abbreviation (input) "SAMPLING_INTERVAL_OFFSET \<equiv> (600 :: u32)"

record ap_state =
  hw :: hwcntl
  cfg :: sensord_cfg
  sampling_interval :: u32
  acc_fd :: int
  gyr_fd :: int

definition ap_start :: ap_state where
  "ap_start = \<lparr> hw = hwcntl_start, cfg = default_cfg, sampling_interval = 1000000,
     acc_fd = - 1, gyr_fd = - 1 \<rparr>"

section \<open>The sensor list\<close>

definition set_maxRange :: "rat \<Rightarrow> int \<Rightarrow> sensor_t list \<Rightarrow> sensor_t list" where
  "set_maxRange r i all = all[nat i := (all ! nat i)\<lparr>st_maxRange := r\<rparr>]"

definition set_accl_ranges :: "int \<Rightarrow> sensor_t list \<Rightarrow> sensor_t list" where
  "set_accl_ranges rng all =
     (if rng \<in> {2, 4, 8, 16} then
        fold (set_maxRange (f32 (of_int rng * GRAVITY_EARTH)))
          [SENSORLIST_INX_ACCELEROMETER, SENSORLIST_INX_LINEAR_ACCELERATION,
           SENSORLIST_INX_GRAVITY, SENSORLIST_INX_WAKEUP_ACCELEROMETER,
           SENSORLIST_INX_WAKEUP_LINEAR_ACCELERATION, SENSORLIST_INX_WAKEUP_GRAVITY] all
      else all)"

definition avail_sens_regval :: u64 where
  "avail_sens_regval = push_bit (nat SENSORLIST_INX_ACCELEROMETER) 1 OR
     push_bit (nat SENSORLIST_INX_GYROSCOPE_UNCALIBRATED) 1"

text \<open>The copy loop: the entries whose bit is set, with their index.\<close>

fun collect_sensors :: "sensor_t list \<Rightarrow> nat \<Rightarrow> nat \<Rightarrow> u64 \<Rightarrow> (sensor_t \<times> int) list" where
  "collect_sensors all 0 i regval = []"
| "collect_sensors all (Suc left) i regval =
     (if regval = 0 then []
      else if regval AND 1 \<noteq> 0
      then (all ! i, int i) # collect_sensors all left (Suc i) (drop_bit 1 regval)
      else collect_sensors all left (Suc i) (drop_bit 1 regval))"

text \<open>\<open>malloc1\<close> and \<open>malloc2\<close> say whether the two allocations succeed; storing more entries than
  \<open>sensor_amount\<close> would overrun them.\<close>

definition ap_get_sensorlist :: "bool \<Rightarrow> bool \<Rightarrow> ap_state \<Rightarrow> (u32 \<times> ap_state) option" where
  "ap_get_sensorlist malloc1 malloc2 s =
     (if sl_list_len (sensorlist (hw s)) \<noteq> 0
      then Some (sl_list_len (sensorlist (hw s)), s)
      else
        let all = set_accl_ranges (accl_range (cfg s)) (all_sensors (hw s));
            h = (hw s)\<lparr>all_sensors := all\<rparr>;
            sl = sensorlist h;
            sensor_amount = sensord_popcount_64 avail_sens_regval in
        if \<not> malloc1 then Some (0, s\<lparr>hw := h\<lparr>sensorlist := sl\<lparr>sl_list_ptr := Null\<rparr>\<rparr>\<rparr>)
        else if \<not> malloc2 then
          Some (0, s\<lparr>hw := h\<lparr>sensorlist := sl\<lparr>sl_list_ptr := Released, sl_index_ptr := Null\<rparr>\<rparr>\<rparr>)
        else
          let entries = collect_sensors all (nat SENSORLIST_INX_END) 0 avail_sens_regval in
          if unat sensor_amount < length entries then None
          else Some (sensor_amount, s\<lparr>hw := h\<lparr>sensorlist :=
            \<lparr> sl_list_ptr = Allocated, sl_list = map fst entries,
              sl_index_ptr = Allocated, sl_bsx_list_index = map snd entries,
              sl_list_len = sensor_amount \<rparr>\<rparr>\<rparr>))"

section \<open>The physical sensors\<close>

definition SMI240_convert_ODR :: "int \<Rightarrow> rat \<Rightarrow> int" where
  "SMI240_convert_ODR bsx_list_inx Hz =
     (if 200 < Hz then 400
      else if 100 < Hz \<and> Hz \<le> 200 then 200
      else if 50 < Hz \<and> Hz \<le> 100 then 100
      else if 5 < Hz \<and> Hz \<le> 50 then 50
      else if Hz \<le> 5 then 5
      else 0)"

abbreviation (input) "SAMPLE_RATE_DISABLED \<equiv> (65535 :: rat)"

definition ap_config_phyACC :: "rat \<Rightarrow> u16 \<Rightarrow> ap_state \<Rightarrow> ap_state option" where
  "ap_config_phyACC sample_rate fifo_len s =
     (if accl_chip (cfg s) = ACC_CHIP_SMI240 \<and> sample_rate \<noteq> SAMPLE_RATE_DISABLED then
        let odr_Hz = SMI240_convert_ODR SENSORLIST_INX_ACCELEROMETER sample_rate in
        if odr_Hz = 0 then None
        else Some (s\<lparr>sampling_interval := word_of_int (c_div US_PER_SEC odr_Hz)\<rparr>)
      else Some s)"

definition ap_config_phyGYR :: "rat \<Rightarrow> u16 \<Rightarrow> ap_state \<Rightarrow> ap_state option" where
  "ap_config_phyGYR sample_rate fifo_len s = Some s"

abbreviation (input) "BSX_PHYSICAL_SENSOR_ID_INVALID \<equiv> (0 :: int)"
abbreviation (input) "BSX_INPUT_ID_ACCELERATION \<equiv> (1 :: int)"
abbreviation (input) "BSX_INPUT_ID_ANGULARRATE \<equiv> (3 :: int)"

definition ap_config_physensor :: "int \<Rightarrow> rat \<Rightarrow> u16 \<Rightarrow> ap_state \<Rightarrow> ap_state option" where
  "ap_config_physensor input_id sample_rate fifo_len s =
     (if input_id = BSX_PHYSICAL_SENSOR_ID_INVALID then Some s
      else if input_id = BSX_INPUT_ID_ACCELERATION then ap_config_phyACC sample_rate fifo_len s
      else if input_id = BSX_INPUT_ID_ANGULARRATE then ap_config_phyGYR sample_rate fifo_len s
      else Some s)"

definition input_id_of :: "int \<Rightarrow> int option" where
  "input_id_of bsx_list_inx =
     (if bsx_list_inx = SENSORLIST_INX_ACCELEROMETER then Some BSX_INPUT_ID_ACCELERATION
      else if bsx_list_inx = SENSORLIST_INX_GYROSCOPE_UNCALIBRATED then Some BSX_INPUT_ID_ANGULARRATE
      else None)"

definition reporting_mode :: "sensor_t \<Rightarrow> u32" where
  "reporting_mode p = st_flags p AND SENSOR_FLAG_MASK_REPORTING_MODE"

definition ap_send_config :: "int \<Rightarrow> ap_state \<Rightarrow> ap_state option" where
  "ap_send_config bsx_list_inx s =
     (if convert_BSX_ListInx bsx_list_inx = BSX_VIRTUAL_SENSOR_ID_INVALID then Some s
      else
        let c = config_of bsx_list_inx (hw s);
            p_sensor = all_sensors (hw s) ! nat bsx_list_inx;
            rate = (if reporting_mode p_sensor = SENSOR_FLAG_ON_CHANGE_MODE
                    then delay_onchange_Hz c else CONVERT_DATARATE_CODE (data_rate c));
            rate = (if bsx_list_inx = SENSORLIST_INX_WAKEUP_ACTIVITY then 0 else rate) in
        case input_id_of bsx_list_inx of
          None \<Rightarrow> Some s
        | Some input_id \<Rightarrow> ap_config_physensor input_id rate (fifo_data_len c) s)"

definition ap_send_disable_config :: "int \<Rightarrow> ap_state \<Rightarrow> ap_state option" where
  "ap_send_disable_config bsx_list_inx s =
     (if convert_BSX_ListInx bsx_list_inx = BSX_VIRTUAL_SENSOR_ID_INVALID then Some s
      else case input_id_of bsx_list_inx of
          None \<Rightarrow> Some s
        | Some input_id \<Rightarrow> ap_config_physensor input_id SAMPLE_RATE_DISABLED 0 s)"

section \<open>Activate, batch, flush\<close>

definition ap_activate :: "int \<Rightarrow> int \<Rightarrow> ap_state \<Rightarrow> (int \<times> ap_state) option" where
  "ap_activate handle enabled s =
     (if handle = BSX_SENSOR_ID_INVALID then Some (0, s)
      else case get_sensor_t handle (hw s) of
        None \<Rightarrow> Some (- EINVAL, s)
      | Some (p_sensor, bsx_list_inx) \<Rightarrow> do {
          (ret, h) \<leftarrow> activate_configref_resort bsx_list_inx enabled (hw s);
          s' \<leftarrow> (if enabled \<noteq> 0 then ap_send_config bsx_list_inx (s\<lparr>hw := h\<rparr>)
                 else ap_send_disable_config bsx_list_inx (s\<lparr>hw := h\<rparr>));
          Some (0, s')
        })"

definition clamp_period :: "sensor_t \<Rightarrow> int \<Rightarrow> int" where
  "clamp_period p_sensor sampling_period_ns =
     (if sampling_period_ns < st_minDelay p_sensor * 1000 then st_minDelay p_sensor * 1000
      else if st_maxDelay p_sensor * 1000 < sampling_period_ns then st_maxDelay p_sensor * 1000
      else sampling_period_ns)"

definition ap_batch :: "int \<Rightarrow> int \<Rightarrow> int \<Rightarrow> int \<Rightarrow> ap_state \<Rightarrow> (int \<times> ap_state) option" where
  "ap_batch handle flags sampling_period_ns max_report_latency_ns s =
     (case get_sensor_t handle (hw s) of
        None \<Rightarrow> if max_report_latency_ns = 0 then Some (0, s) else Some (- EINVAL, s)
      | Some (p_sensor, bsx_list_inx) \<Rightarrow>
          if reporting_mode p_sensor = SENSOR_FLAG_ONE_SHOT_MODE then Some (0, s)
          else if reporting_mode p_sensor = SENSOR_FLAG_SPECIAL_REPORTING_MODE then Some (0, s)
          else
            let period = clamp_period p_sensor sampling_period_ns;
                on_change = (reporting_mode p_sensor = SENSOR_FLAG_ON_CHANGE_MODE);
                delay = (if on_change then f32 (1000000000 / f32 (of_int period)) else 0);
                period = (if on_change then 0 else period) in do {
            (ret, h) \<leftarrow> batch_configref_resort bsx_list_inx period max_report_latency_ns delay (hw s);
            s' \<leftarrow> (if ret \<noteq> 0 then ap_send_config bsx_list_inx (s\<lparr>hw := h\<rparr>) else Some (s\<lparr>hw := h\<rparr>));
            Some (0, s')
          })"

text \<open>The flush answer, and the handle whose flush-complete event is sent.\<close>

definition ap_flush :: "int \<Rightarrow> ap_state \<Rightarrow> int \<times> int option" where
  "ap_flush handle s =
     (case get_sensor_t handle (hw s) of
        None \<Rightarrow> (- EINVAL, None)
      | Some (p_sensor, bsx_list_inx) \<Rightarrow>
          if reporting_mode p_sensor = SENSOR_FLAG_ONE_SHOT_MODE then (- EINVAL, None)
          else (0, Some handle))"

section \<open>Start-up\<close>

text \<open>\<open>open\<close> answers a descriptor or -1.\<close>

definition ap_hwcntl_init_ACC :: "int \<Rightarrow> ap_state \<Rightarrow> int \<times> ap_state" where
  "ap_hwcntl_init_ACC opened s =
     (if accl_chip (cfg s) = ACC_CHIP_SMI240 then
        (if opened = - 1 then - ENODEV else 0, s\<lparr>acc_fd := opened\<rparr>)
      else (0, s))"

definition ap_hwcntl_init_GYRO :: "int \<Rightarrow> ap_state \<Rightarrow> int \<times> ap_state" where
  "ap_hwcntl_init_GYRO opened s =
     (if gyro_chip (cfg s) = GYR_CHIP_SMI240 then
        (if opened = - 1 then - ENODEV else 0, s\<lparr>gyr_fd := opened\<rparr>)
      else (0, s))"

text \<open>The answer, the state, and whether \<open>pfun_hw_deliver_sensordata\<close> is set.\<close>

definition hwcntl_init :: "int \<Rightarrow> int \<Rightarrow> ap_state \<Rightarrow> int \<times> bool \<times> ap_state" where
  "hwcntl_init acc_opened gyr_opened s =
     (if solution_type (cfg s) = SOLUTION_IMU then
        let (ret, s) = ap_hwcntl_init_ACC acc_opened s;
            (ret, s) = ap_hwcntl_init_GYRO gyr_opened s in (ret, True, s)
      else (0, False, s))"

section \<open>The sensor list fits its allocation\<close>

lemma collect_sensors_filter:
  "collect_sensors all n i m = map (\<lambda>k. (all ! (i + k), int (i + k))) (filter (bit m) [0..<n])"
proof (induction n arbitrary: i m)
  case 0
  then show ?case by simp
next
  case (Suc n)
  have up: "[0..<Suc n] = 0 # map Suc [0..<n]"
    by (simp only: map_Suc_upt upt_conv_Cons zero_less_Suc)
  have odd: "m AND 1 \<noteq> 0 \<longleftrightarrow> bit m 0"
    by (simp add: and_one_eq bit_0 odd_iff_mod_2_eq_one)
  show ?case
  proof (cases "m = 0")
    case True
    then show ?thesis by simp
  next
    case False
    then show ?thesis
      unfolding up using odd
      by (simp add: Suc filter_map o_def bit_drop_bit_eq del: upt_Suc)
  qed
qed

text \<open>For every availability mask the loop of ap_get_sensorlist copies exactly as many entries
  as sensord_popcount_64 allocated room for.\<close>

theorem sensor_list_fits_allocation:
  "length (collect_sensors all (nat SENSORLIST_INX_END) 0 regval) =
   unat (sensord_popcount_64 regval)"
proof -
  have "unat (sensord_popcount_64 regval) = bit_count regval"
    by (rule popcount_64_bit_count)
  then show ?thesis by (simp add: collect_sensors_filter bit_count_def)
qed

section \<open>The invariant of the control state\<close>

text \<open>The table entries keep everything but \<open>maxRange\<close>; the published list is empty or holds
  the accelerometer and the uncalibrated gyroscope.\<close>

definition entry_of :: "sensor_t list \<Rightarrow> nat \<Rightarrow> bool" where
  "entry_of all i \<longleftrightarrow>
     all ! i = (bosch_all_sensors ! i)\<lparr>st_maxRange := st_maxRange (all ! i)\<rparr>"

definition table_ok :: "sensor_t list \<Rightarrow> bool" where
  "table_ok all \<longleftrightarrow> length all = 64 \<and> (\<forall>i<64. entry_of all i)"

definition list_published :: "hwcntl \<Rightarrow> bool" where
  "list_published h \<longleftrightarrow> sensorlist h =
     \<lparr> sl_list_ptr = Allocated, sl_list = [all_sensors h ! 1, all_sensors h ! 16],
       sl_index_ptr = Allocated, sl_bsx_list_index = [1, 16], sl_list_len = 2 \<rparr>"

definition interval_ok :: "u32 \<Rightarrow> bool" where
  "interval_ok t \<longleftrightarrow> t \<in> {2500, 5000, 10000, 20000, 200000, 1000000}"

definition ap_inv :: "ap_state \<Rightarrow> bool" where
  "ap_inv s \<longleftrightarrow> hw_inv (hw s) \<and> table_ok (all_sensors (hw s)) \<and>
     (sl_list_len (sensorlist (hw s)) = 0 \<or> list_published (hw s)) \<and>
     interval_ok (sampling_interval s)"

lemma ap_inv_start: "ap_inv ap_start"
  using hw_inv_start
  by (simp add: ap_inv_def ap_start_def table_ok_def entry_of_def interval_ok_def
      hwcntl_start_def bosch_all_sensors_length)

text \<open>The two published entries.\<close>

lemma bosch_acc_entry:
  "st_name (bosch_all_sensors ! 1) \<noteq> None" "st_handle (bosch_all_sensors ! 1) = 1"
  "st_flags (bosch_all_sensors ! 1) = 0"
  "st_minDelay (bosch_all_sensors ! 1) = 500" "st_maxDelay (bosch_all_sensors ! 1) = 200000"
  by (simp_all add: bosch_all_sensors_def bosch_sensors_0_def sensor_entry_def)

lemma bosch_gyr_entry:
  "st_name (bosch_all_sensors ! 16) \<noteq> None" "st_handle (bosch_all_sensors ! 16) = 16"
  "st_flags (bosch_all_sensors ! 16) = 0"
  "st_minDelay (bosch_all_sensors ! 16) = 500" "st_maxDelay (bosch_all_sensors ! 16) = 200000"
  by (simp_all add: bosch_all_sensors_def bosch_sensors_defs sensor_entry_def)

lemma entry_of_fields:
  assumes "entry_of all i"
  shows "st_name (all ! i) = st_name (bosch_all_sensors ! i)"
    "st_handle (all ! i) = st_handle (bosch_all_sensors ! i)"
    "st_flags (all ! i) = st_flags (bosch_all_sensors ! i)"
    "st_minDelay (all ! i) = st_minDelay (bosch_all_sensors ! i)"
    "st_maxDelay (all ! i) = st_maxDelay (bosch_all_sensors ! i)"
  by (subst assms [unfolded entry_of_def], simp)+

lemma table_entry: "table_ok all \<Longrightarrow> i < 64 \<Longrightarrow> entry_of all i"
  by (simp add: table_ok_def)

lemma published_entries:
  assumes "table_ok all"
  shows "st_name (all ! 1) \<noteq> None" "st_handle (all ! 1) = 1" "st_flags (all ! 1) = 0"
    "st_minDelay (all ! 1) = 500" "st_maxDelay (all ! 1) = 200000"
    "st_name (all ! 16) \<noteq> None" "st_handle (all ! 16) = 16" "st_flags (all ! 16) = 0"
    "st_minDelay (all ! 16) = 500" "st_maxDelay (all ! 16) = 200000"
  using table_entry [OF assms, of 1] table_entry [OF assms, of 16] bosch_acc_entry bosch_gyr_entry
  by (simp_all only: entry_of_fields) simp_all

lemma unat_two: "unat (2 :: u32) = Suc (Suc 0)"
  by simp

lemma get_sensor_published:
  assumes "list_published h" "table_ok (all_sensors h)"
  shows "get_sensor_t handle h =
    (if handle = 1 then Some (all_sensors h ! 1, 1)
     else if handle = 16 then Some (all_sensors h ! 16, 16) else None)"
  using published_entries(1,2,6,7) [OF assms(2)]
  unfolding get_sensor_t_def assms(1) [unfolded list_published_def] bst_sensorlist.simps unat_two
  by simp

lemma get_sensor_unpublished:
  "sl_list_len (sensorlist h) = 0 \<Longrightarrow> get_sensor_t handle h = None"
  by (simp add: get_sensor_t_def)

lemma get_sensor_cases:
  assumes "ap_inv s" "get_sensor_t handle (hw s) = Some (p, i)"
  shows "list_index i" "i = 1 \<or> i = 16" "handle = i" "reporting_mode p = 0"
    "st_minDelay p = 500" "st_maxDelay p = 200000" "list_published (hw s)"
proof -
  have pub: "list_published (hw s)"
    using assms get_sensor_unpublished [of "hw s" handle] by (auto simp: ap_inv_def)
  have t: "table_ok (all_sensors (hw s))" using assms(1) by (simp add: ap_inv_def)
  show "list_index i" "i = 1 \<or> i = 16" "handle = i" "reporting_mode p = 0"
    "st_minDelay p = 500" "st_maxDelay p = 200000" "list_published (hw s)"
    using assms(2) published_entries [OF t] pub
    by (auto simp: get_sensor_published [OF pub t] list_index_def reporting_mode_def split: if_splits)
qed

text \<open>Setting \<open>maxRange\<close> keeps the table.\<close>

lemma maxRange_again:
  "x = y\<lparr>st_maxRange := q\<rparr> \<Longrightarrow> x\<lparr>st_maxRange := r\<rparr> = y\<lparr>st_maxRange := r\<rparr>"
  by simp

lemma table_ok_set_maxRange:
  assumes "table_ok all" "0 \<le> i" "i < 64"
  shows "table_ok (set_maxRange r i all)"
  unfolding table_ok_def
proof (intro conjI allI impI)
  show len: "length (set_maxRange r i all) = 64"
    using assms(1) by (simp add: table_ok_def set_maxRange_def)
  fix k :: nat assume "k < 64"
  then show "entry_of (set_maxRange r i all) k"
    using table_entry [OF assms(1) \<open>k < 64\<close>, unfolded entry_of_def] assms
      maxRange_again [OF table_entry [OF assms(1) \<open>k < 64\<close>, unfolded entry_of_def], of r]
    unfolding entry_of_def set_maxRange_def table_ok_def by (cases "k = nat i") simp_all
qed

lemma table_ok_set_accl_ranges: "table_ok all \<Longrightarrow> table_ok (set_accl_ranges rng all)"
  by (simp add: set_accl_ranges_def table_ok_set_maxRange)

lemma collected_entries:
  "collect_sensors all 64 0 avail_sens_regval = [(all ! 1, 1), (all ! 16, 16)]"
proof -
  have "filter (bit avail_sens_regval) [0..<64] = [1, 16]"
    by code_simp
  then show ?thesis by (simp add: collect_sensors_filter)
qed

lemma sensor_amount: "sensord_popcount_64 avail_sens_regval = 2"
  by code_simp

section \<open>Every operation keeps the invariant\<close>

lemma ap_invD:
  assumes "ap_inv s"
  shows "hw_inv (hw s)" "table_ok (all_sensors (hw s))" "interval_ok (sampling_interval s)"
  using assms by (simp_all add: ap_inv_def)

definition list_step :: "ap_state \<Rightarrow> bool \<Rightarrow> (u32 \<times> ap_state) option \<Rightarrow> bool" where
  "list_step s ok res \<longleftrightarrow> (case res of None \<Rightarrow> False
     | Some (n, s') \<Rightarrow> ap_inv s' \<and> n = sl_list_len (sensorlist (hw s')) \<and>
         (ok \<longrightarrow> list_published (hw s')) \<and> active_indices (hw s') = active_indices (hw s) \<and>
         config_tables (hw s') = config_tables (hw s) \<and> cfg s' = cfg s)"

lemma get_sensorlist_step:
  assumes "ap_inv s"
  shows "list_step s (malloc1 \<and> malloc2) (ap_get_sensorlist malloc1 malloc2 s)"
proof (cases "sl_list_len (sensorlist (hw s)) = 0")
  case False
  then have "list_published (hw s)" using assms by (simp add: ap_inv_def)
  with False assms show ?thesis by (simp add: list_step_def ap_get_sensorlist_def)
next
  case True
  have t: "table_ok (set_accl_ranges (accl_range (cfg s)) (all_sensors (hw s)))"
    by (rule table_ok_set_accl_ranges [OF ap_invD(2) [OF assms]])
  have inv: "hw_inv ((hw s)\<lparr>all_sensors := a, sensorlist := sl\<rparr>)"
    "active_indices ((hw s)\<lparr>all_sensors := a, sensorlist := sl\<rparr>) = active_indices (hw s)"
    "config_tables ((hw s)\<lparr>all_sensors := a, sensorlist := sl\<rparr>) = config_tables (hw s)" for a sl
    using ap_invD(1) [OF assms] by (simp_all add: hw_inv_def active_indices_def config_tables_def)
  show ?thesis
    using True t inv ap_invD(3) [OF assms]
    by (simp add: list_step_def ap_get_sensorlist_def Let_def ap_inv_def list_published_def
          collected_entries sensor_amount unat_two)
qed

text \<open>The operations on the physical sensors change the sampling interval only.\<close>

definition phy_step :: "ap_state \<Rightarrow> ap_state option \<Rightarrow> bool" where
  "phy_step s res \<longleftrightarrow> (case res of None \<Rightarrow> False
     | Some s' \<Rightarrow> interval_ok (sampling_interval s') \<and>
         s' = s\<lparr>sampling_interval := sampling_interval s'\<rparr>)"

lemma phy_step_same: "interval_ok (sampling_interval s) \<Longrightarrow> phy_step s (Some s)"
  by (simp add: phy_step_def)

lemma config_phyACC_step:
  assumes "interval_ok (sampling_interval s)"
  shows "phy_step s (ap_config_phyACC rate len s)"
proof -
  have "SMI240_convert_ODR 1 rate \<in> {5, 50, 100, 200, 400}"
    by (auto simp: SMI240_convert_ODR_def)
  then have "interval_ok (word_of_int (c_div 1000000 (SMI240_convert_ODR 1 rate)))"
    "SMI240_convert_ODR 1 rate \<noteq> 0"
    by (auto simp: interval_ok_def)
  with assms show ?thesis
    by (simp add: ap_config_phyACC_def Let_def phy_step_def)
qed

lemma config_physensor_step:
  "interval_ok (sampling_interval s) \<Longrightarrow> phy_step s (ap_config_physensor input_id rate len s)"
  by (simp add: ap_config_physensor_def ap_config_phyGYR_def config_phyACC_step phy_step_same)

lemma send_config_step:
  "interval_ok (sampling_interval s) \<Longrightarrow> phy_step s (ap_send_config i s)"
  by (simp add: ap_send_config_def Let_def phy_step_same config_physensor_step split: option.split)

lemma send_disable_config_step:
  "interval_ok (sampling_interval s) \<Longrightarrow> phy_step s (ap_send_disable_config i s)"
  by (simp add: ap_send_disable_config_def phy_step_same config_physensor_step split: option.split)

text \<open>A change of the configuration store that keeps its invariant and the sensor table.\<close>

lemma ap_inv_store:
  assumes "ap_inv s" "hw_inv h" "all_sensors h = all_sensors (hw s)" "sensorlist h = sensorlist (hw s)"
    "interval_ok t"
  shows "ap_inv (s\<lparr>hw := h, sampling_interval := t\<rparr>)"
  using assms by (simp add: ap_inv_def list_published_def)

lemma activate_resort_frame:
  "activate_configref_resort i e h = Some (r, h') \<Longrightarrow>
   all_sensors h' = all_sensors h \<and> sensorlist h' = sensorlist h"
  by (auto simp: activate_configref_resort_def split: prod.splits bind_splits)

lemma batch_resort_frame:
  "batch_configref_resort i period lat d h = Some (r, h') \<Longrightarrow>
   all_sensors h' = all_sensors h \<and> sensorlist h' = sensorlist h"
  by (auto simp: batch_configref_resort_def Let_def split: prod.splits bind_splits)

lemma phy_stepE:
  assumes "phy_step s res"
  obtains t where "res = Some (s\<lparr>sampling_interval := t\<rparr>)" "interval_ok t"
  using assms by (cases res) (auto simp: phy_step_def)

definition known_handle :: "int \<Rightarrow> ap_state \<Rightarrow> bool" where
  "known_handle handle s \<longleftrightarrow> list_published (hw s) \<and> (handle = 1 \<or> handle = 16)"

lemma known_handle_get:
  assumes "ap_inv s" "known_handle handle s"
  shows "get_sensor_t handle (hw s) = Some (all_sensors (hw s) ! nat handle, handle)"
    "list_index handle" "reporting_mode (all_sensors (hw s) ! nat handle) = 0"
    "clamp_period (all_sensors (hw s) ! nat handle) period = min (max period 500000) 200000000"
  using get_sensor_published [OF _ ap_invD(2) [OF assms(1)]] assms(2)
    published_entries [OF ap_invD(2) [OF assms(1)]]
  by (auto simp: known_handle_def list_index_def reporting_mode_def clamp_period_def)

lemma unknown_handle_get:
  assumes "ap_inv s" "\<not> known_handle handle s"
  shows "get_sensor_t handle (hw s) = None"
  using get_sensor_cases [OF assms(1), of handle] assms(2)
  by (cases "get_sensor_t handle (hw s)") (auto simp: known_handle_def)

lemma activate_step_known:
  assumes "ap_inv s" "known_handle handle s"
  shows "\<exists>h t. ap_activate handle enabled s = Some (0, s\<lparr>hw := h, sampling_interval := t\<rparr>) \<and>
    ap_inv (s\<lparr>hw := h, sampling_interval := t\<rparr>) \<and> sensorlist h = sensorlist (hw s) \<and>
    all_sensors h = all_sensors (hw s) \<and>
    active_indices h = set_active (enabled \<noteq> 0) handle (active_indices (hw s)) \<and>
    config_tables h = config_tables (hw s) \<and>
    (enabled \<noteq> 0 \<longrightarrow>
      ap_send_config handle (s\<lparr>hw := h\<rparr>) = Some (s\<lparr>hw := h, sampling_interval := t\<rparr>))"
proof -
  have nz: "handle \<noteq> 255" using assms(2) by (auto simp: known_handle_def)
  obtain ret h where h: "activate_configref_resort handle enabled (hw s) = Some (ret, h)" "hw_inv h"
    "active_indices h = set_active (enabled \<noteq> 0) handle (active_indices (hw s))"
    "config_tables h = config_tables (hw s)"
    using activate_resort_step [OF ap_invD(1) [OF assms(1)] known_handle_get(2) [OF assms], of enabled]
    by blast
  note fr = activate_resort_frame [OF h(1)]
  have "interval_ok (sampling_interval (s\<lparr>hw := h\<rparr>))"
    using ap_invD(3) [OF assms(1)] by simp
  then have "phy_step (s\<lparr>hw := h\<rparr>) (if enabled \<noteq> 0 then ap_send_config handle (s\<lparr>hw := h\<rparr>)
      else ap_send_disable_config handle (s\<lparr>hw := h\<rparr>))"
    by (simp add: send_config_step send_disable_config_step)
  then obtain t where t: "(if enabled \<noteq> 0 then ap_send_config handle (s\<lparr>hw := h\<rparr>)
      else ap_send_disable_config handle (s\<lparr>hw := h\<rparr>)) = Some (s\<lparr>hw := h, sampling_interval := t\<rparr>)"
    "interval_ok t"
    by (rule phy_stepE) simp
  show ?thesis
  proof (rule exI [of _ h], rule exI [of _ t], intro conjI)
    show "ap_activate handle enabled s = Some (0, s\<lparr>hw := h, sampling_interval := t\<rparr>)"
      using t(1) by (simp add: ap_activate_def nz known_handle_get(1) [OF assms] h(1))
    show "ap_inv (s\<lparr>hw := h, sampling_interval := t\<rparr>)"
      using ap_inv_store [OF assms(1) h(2) _ _ t(2)] fr by simp
  qed (use h fr t in auto)
qed

lemma batch_step_known:
  assumes "ap_inv s" "known_handle handle s" "p = min (max period 500000) 200000000"
  shows "\<exists>h t c. ap_batch handle flags period latency s = Some (0, s\<lparr>hw := h, sampling_interval := t\<rparr>) \<and>
    ap_inv (s\<lparr>hw := h, sampling_interval := t\<rparr>) \<and> sensorlist h = sensorlist (hw s) \<and>
    all_sensors h = all_sensors (hw s) \<and> active_indices h = active_indices (hw s) \<and>
    configure p latency 0 (config_of handle (hw s)) = Some c \<and>
    (\<forall>j. list_index j \<longrightarrow> config_of j h = (if j = handle then c else config_of j (hw s))) \<and>
    (handle \<in> active_indices (hw s) \<longrightarrow>
       ap_send_config handle (s\<lparr>hw := h\<rparr>) = Some (s\<lparr>hw := h, sampling_interval := t\<rparr>)) \<and>
    (handle \<notin> active_indices (hw s) \<longrightarrow> t = sampling_interval s)"
proof -
  have p0: "p \<noteq> 0" using assms(3) by auto
  obtain h c where h: "batch_configref_resort handle p latency 0 (hw s) =
      Some (if handle \<in> active_indices (hw s) then 1 else 0, h)"
    "configure p latency 0 (config_of handle (hw s)) = Some c" "hw_inv h"
    "active_indices h = active_indices (hw s)"
    "\<forall>j. list_index j \<longrightarrow> config_of j h = (if j = handle then c else config_of j (hw s))"
    using batch_resort_step [OF ap_invD(1) [OF assms(1)] known_handle_get(2) [OF assms(1,2)] p0]
    by blast
  note fr = batch_resort_frame [OF h(1)]
  have "interval_ok (sampling_interval (s\<lparr>hw := h\<rparr>))"
    using ap_invD(3) [OF assms(1)] by simp
  then have "phy_step (s\<lparr>hw := h\<rparr>) (if handle \<in> active_indices (hw s)
      then ap_send_config handle (s\<lparr>hw := h\<rparr>) else Some (s\<lparr>hw := h\<rparr>))"
    by (simp add: send_config_step phy_step_same)
  then obtain t where t: "(if handle \<in> active_indices (hw s)
      then ap_send_config handle (s\<lparr>hw := h\<rparr>) else Some (s\<lparr>hw := h\<rparr>)) =
      Some (s\<lparr>hw := h, sampling_interval := t\<rparr>)" "interval_ok t"
    by (rule phy_stepE) simp
  show ?thesis
  proof (rule exI [of _ h], rule exI [of _ t], rule exI [of _ c], intro conjI)
    show "ap_batch handle flags period latency s = Some (0, s\<lparr>hw := h, sampling_interval := t\<rparr>)"
      using t(1) h(1) known_handle_get(1-3) [OF assms(1,2)]
        known_handle_get(4) [OF assms(1,2), of period]
      by (auto simp: ap_batch_def Let_def assms(3) [symmetric] split: if_splits)
    show "ap_inv (s\<lparr>hw := h, sampling_interval := t\<rparr>)"
      using ap_inv_store [OF assms(1) h(3) _ _ t(2)] fr by simp
    show "handle \<notin> active_indices (hw s) \<longrightarrow> t = sampling_interval s"
    proof
      assume "handle \<notin> active_indices (hw s)"
      with t(1) have "s\<lparr>hw := h\<rparr> = s\<lparr>hw := h, sampling_interval := t\<rparr>" by simp
      then have "sampling_interval (s\<lparr>hw := h\<rparr>) = sampling_interval (s\<lparr>hw := h, sampling_interval := t\<rparr>)"
        by (rule arg_cong)
      then show "t = sampling_interval s" by simp
    qed
  qed (use h fr t in auto)
qed

section \<open>The sampling interval meets the request\<close>

text \<open>The interval in ns that a rate code leads to.\<close>

lemma odr_interval:
  "of_int (c_div 1000000 (SMI240_convert_ODR i rate)) * 1000 \<le> max 2500000 (1000000000 / rate)"
  if "0 < rate"
proof -
  have le: "1000000000 / x \<le> 1000000000 / rate" if "rate \<le> x" for x
    using that \<open>0 < rate\<close> by (intro divide_left_mono) simp_all
  consider "200 < rate" | "100 < rate" "rate \<le> 200" | "50 < rate" "rate \<le> 100"
    | "5 < rate" "rate \<le> 50" | "rate \<le> 5" by linarith
  then show ?thesis
  proof cases
    case 2 then show ?thesis using le [of 200] by (simp add: SMI240_convert_ODR_def le_max_iff_disj)
  next
    case 3 then show ?thesis using le [of 100] by (simp add: SMI240_convert_ODR_def le_max_iff_disj)
  next
    case 4 then show ?thesis using le [of 50] by (simp add: SMI240_convert_ODR_def le_max_iff_disj)
  next
    case 5 then show ?thesis using le [of 5] by (simp add: SMI240_convert_ODR_def le_max_iff_disj)
  qed (simp add: SMI240_convert_ODR_def)
qed

lemma odr_interval_word:
  "of_int (uint (word_of_int (c_div 1000000 (SMI240_convert_ODR i rate)) :: u32)) =
   (of_int (c_div 1000000 (SMI240_convert_ODR i rate)) :: rat)"
  by (simp add: SMI240_convert_ODR_def)

definition interval_ns :: "ap_state \<Rightarrow> rat" where
  "interval_ns s = of_int (uint (sampling_interval s)) * 1000"

definition meets_request :: "int \<Rightarrow> ap_state \<Rightarrow> bool" where
  "meets_request period s \<longleftrightarrow>
     interval_ns s \<le> max 2500000 (of_int (max period 500000) * (1 + 1 / 2 ^ 22))"

lemma acc_send_config:
  assumes "ap_inv s" "accl_chip (cfg s) = 1"
  shows "ap_send_config 1 s = Some (s\<lparr>sampling_interval := word_of_int
    (c_div 1000000 (SMI240_convert_ODR 1 (CONVERT_DATARATE_CODE (data_rate (config_of 1 (hw s))))))\<rparr>)"
proof -
  have conv: "convert_BSX_ListInx 1 = 4"
    by (simp add: convert_BSX_ListInx_def bsx_inx_splid_maptbl_def)
  have flags: "reporting_mode (all_sensors (hw s) ! 1) = 0"
    using published_entries(3) [OF ap_invD(2) [OF assms(1)]] by (simp add: reporting_mode_def)
  have rate: "CONVERT_DATARATE_CODE c \<noteq> 65535" for c
    by (simp add: CONVERT_DATARATE_CODE_def)
  have odr: "SMI240_convert_ODR 1 r \<noteq> 0" for r
    by (auto simp: SMI240_convert_ODR_def)
  show ?thesis
    using flags rate odr assms(2)
    by (simp add: ap_send_config_def Let_def conv input_id_of_def ap_config_physensor_def
        ap_config_phyACC_def)
qed

lemma send_config_interval:
  "s\<lparr>sampling_interval := t\<rparr> = s\<lparr>sampling_interval := t'\<rparr> \<longleftrightarrow> t = t'"
  by (metis ap_state.select_convs(3) ap_state.surjective ap_state.update_convs(3))

lemma configure_rate:
  "configure p latency d c = Some c' \<Longrightarrow> data_rate c' = encode_datarate p"
  by (auto simp: configure_def split: prod.splits if_splits)

lemma encoded_interval:
  assumes "p = min (max period 500000) 200000000"
    and "data_rate (config_of 1 h) = encode_datarate p"
    and "sampling_interval s = word_of_int
      (c_div 1000000 (SMI240_convert_ODR 1 (CONVERT_DATARATE_CODE (data_rate (config_of 1 h)))))"
  shows "meets_request period s"
proof -
  let ?r = "CONVERT_DATARATE_CODE (encode_datarate p)"
  have p: "500000 \<le> p" "p \<le> max period 500000" using assms(1) by auto
  note rate = encode_datarate_rate [OF p(1)]
  have r0: "0 < ?r"
  proof (rule ccontr)
    assume "\<not> 0 < ?r"
    then have "?r * of_int p * (1 + 1 / 2 ^ 22) \<le> 0"
      using p(1) by (simp add: mult_le_0_iff)
    with rate show False by linarith
  qed
  have "interval_ns s \<le> max 2500000 (1000000000 / ?r)"
    using odr_interval [OF r0, of 1] unfolding interval_ns_def assms(2,3) odr_interval_word by simp
  moreover have "1000000000 / ?r \<le> of_int p * (1 + 1 / 2 ^ 22)"
    using rate r0 by (simp add: field_simps)
  moreover have "of_int p * (1 + 1 / 2 ^ 22) \<le> of_int (max period 500000) * (1 + 1 / 2 ^ 22 :: rat)"
    using p(2) by (intro mult_right_mono) (simp_all only: of_int_le_iff, simp)
  ultimately show ?thesis unfolding meets_request_def by linarith
qed

section \<open>Properties\<close>

text \<open>The first successful ap_get_sensorlist publishes exactly the accelerometer and the
  uncalibrated gyroscope, later calls return the same list, and exactly the handles 1 and
  16 are then found.\<close>

theorem ap_get_sensorlist_publishes:
  assumes "ap_inv s" "malloc1" "malloc2"
  shows "\<exists>s'. ap_get_sensorlist malloc1 malloc2 s = Some (2, s') \<and> ap_inv s' \<and>
    list_published (hw s') \<and>
    (\<forall>m1 m2. ap_get_sensorlist m1 m2 s' = Some (2, s')) \<and>
    (\<forall>h. (get_sensor_t h (hw s') = None) = (h \<noteq> 1 \<and> h \<noteq> 16))"
proof -
  from get_sensorlist_step [OF assms(1), of malloc1 malloc2] assms obtain n s' where
    s': "ap_get_sensorlist malloc1 malloc2 s = Some (n, s')" "ap_inv s'" "list_published (hw s')"
      "n = sl_list_len (sensorlist (hw s'))"
    by (auto simp: list_step_def split: option.splits)
  then have n: "n = 2" "sl_list_len (sensorlist (hw s')) = 2" by (simp_all add: list_published_def)
  from n(2) have "ap_get_sensorlist m1 m2 s' = Some (2, s')" for m1 m2
    unfolding ap_get_sensorlist_def by simp
  moreover have "(get_sensor_t h (hw s') = None) = (h \<noteq> 1 \<and> h \<noteq> 16)" for h
    unfolding get_sensor_published [OF s'(3) ap_invD(2) [OF s'(2)]] by auto
  moreover have "ap_get_sensorlist malloc1 malloc2 s = Some (2, s')" using s'(1) n(1) by simp
  ultimately show ?thesis using s'(2,3) by (intro exI [of _ s'] conjI allI)
qed

lemma ap_get_sensorlist_publishes_witness:
  "\<exists>s'. ap_get_sensorlist True True ap_start = Some (2, s') \<and> list_published (hw s')"
  using ap_get_sensorlist_publishes [OF ap_inv_start TrueI TrueI] by blast

text \<open>ap_activate answers 0 for the published sensors and the invalid handle and -EINVAL
  otherwise; it adds the sensor to or removes it from the active set, keeps every
  configuration, and changes nothing for an unknown handle.\<close>

theorem ap_activate_answers:
  assumes "ap_inv s"
  shows "\<exists>s'. ap_activate handle enabled s =
      Some (if known_handle handle s \<or> handle = BSX_SENSOR_ID_INVALID then 0 else - EINVAL, s') \<and>
    ap_inv s' \<and> config_tables (hw s') = config_tables (hw s) \<and>
    active_indices (hw s') = (if known_handle handle s
      then set_active (enabled \<noteq> 0) handle (active_indices (hw s)) else active_indices (hw s)) \<and>
    (\<not> known_handle handle s \<longrightarrow> s' = s)"
proof (cases "known_handle handle s")
  case True
  show ?thesis
    using activate_step_known [OF assms True, of enabled] True by auto
next
  case False
  with unknown_handle_get [OF assms False] assms show ?thesis by (simp add: ap_activate_def)
qed

lemma ap_activate_answers_witness:
  "\<exists>s'. ap_activate 7 1 ap_start = Some (- 22, s') \<and> s' = ap_start"
  using ap_activate_answers [OF ap_inv_start, of 7 1]
  by (auto simp: known_handle_def list_published_def ap_start_def hwcntl_start_def)

text \<open>ap_batch answers 0 for a published sensor, 0 for an unknown one when the latency is 0
  and -EINVAL otherwise; it changes the configuration of no other sensor and never the
  active set.\<close>

theorem ap_batch_answers:
  assumes "ap_inv s"
  shows "\<exists>s'. ap_batch handle flags period latency s =
      Some (if known_handle handle s \<or> latency = 0 then 0 else - EINVAL, s') \<and>
    ap_inv s' \<and> active_indices (hw s') = active_indices (hw s) \<and>
    (if known_handle handle s
     then \<forall>j. list_index j \<and> j \<noteq> handle \<longrightarrow> config_of j (hw s') = config_of j (hw s)
     else s' = s)"
proof (cases "known_handle handle s")
  case True
  show ?thesis
    using batch_step_known [OF assms True refl, of flags period latency] True by auto
next
  case False
  with unknown_handle_get [OF assms False] assms show ?thesis by (simp add: ap_batch_def)
qed

lemma ap_batch_answers_witness:
  "\<exists>s'. ap_batch 3 0 1000 5 ap_start = Some (- 22, s') \<and> s' = ap_start"
  using ap_batch_answers [OF ap_inv_start, of 3 0 1000 5]
  by (auto simp: known_handle_def list_published_def ap_start_def hwcntl_start_def)

text \<open>C4: After batch and activate of the accelerometer with any period and latency the
  polling interval is at most the requested period (up to 2^-22) or the fastest 2.5 ms;
  batch alone has that effect exactly when the sensor is active already.\<close>

theorem acc_request_is_met:
  assumes "ap_inv s" "list_published (hw s)" "accl_chip (cfg s) = ACC_CHIP_SMI240"
  shows "\<exists>s1 s2. ap_batch 1 flags period latency s = Some (0, s1) \<and>
    ap_activate 1 1 s1 = Some (0, s2) \<and> ap_inv s2 \<and> meets_request period s2 \<and>
    (1 \<in> active_indices (hw s) \<longrightarrow> meets_request period s1) \<and>
    (1 \<notin> active_indices (hw s) \<longrightarrow> sampling_interval s1 = sampling_interval s)"
proof -
  let ?p = "min (max period 500000) 200000000"
  have known: "known_handle 1 s" using assms(2) by (simp add: known_handle_def)
  obtain h t c where s1: "ap_batch 1 flags period latency s =
        Some (0, s\<lparr>hw := h, sampling_interval := t\<rparr>)"
      "ap_inv (s\<lparr>hw := h, sampling_interval := t\<rparr>)" "sensorlist h = sensorlist (hw s)"
      "all_sensors h = all_sensors (hw s)" "active_indices h = active_indices (hw s)"
      "configure ?p latency 0 (config_of 1 (hw s)) = Some c"
      "\<forall>j. list_index j \<longrightarrow> config_of j h = (if j = 1 then c else config_of j (hw s))"
      "1 \<in> active_indices (hw s) \<longrightarrow>
        ap_send_config 1 (s\<lparr>hw := h\<rparr>) = Some (s\<lparr>hw := h, sampling_interval := t\<rparr>)"
      "1 \<notin> active_indices (hw s) \<longrightarrow> t = sampling_interval s"
    using batch_step_known [OF assms(1) known refl, of flags period latency] by blast
  have rate: "data_rate (config_of 1 h) = encode_datarate ?p"
    using configure_rate [OF s1(6)] s1(7) [rule_format, of 1] by (simp add: list_index_def)
  let ?s1 = "s\<lparr>hw := h, sampling_interval := t\<rparr>"
  have inv1: "ap_inv (s\<lparr>hw := h\<rparr>)"
    using s1(2) ap_invD(3) [OF assms(1)] by (simp add: ap_inv_def)
  have known1: "known_handle 1 ?s1"
    using assms(2) s1(3,4) by (simp add: known_handle_def list_published_def)
  obtain h2 t2 where s2:
      "ap_activate 1 1 ?s1 = Some (0, ?s1\<lparr>hw := h2, sampling_interval := t2\<rparr>)"
      "ap_inv (?s1\<lparr>hw := h2, sampling_interval := t2\<rparr>)" "sensorlist h2 = sensorlist (hw ?s1)"
      "all_sensors h2 = all_sensors (hw ?s1)"
      "active_indices h2 = set_active (1 \<noteq> (0 :: int)) 1 (active_indices (hw ?s1))"
      "config_tables h2 = config_tables (hw ?s1)"
      "1 \<noteq> (0 :: int) \<longrightarrow>
        ap_send_config 1 (?s1\<lparr>hw := h2\<rparr>) = Some (?s1\<lparr>hw := h2, sampling_interval := t2\<rparr>)"
    using activate_step_known [OF s1(2) known1, of 1] by blast
  let ?s2 = "?s1\<lparr>hw := h2, sampling_interval := t2\<rparr>"
  have inv2: "ap_inv (?s1\<lparr>hw := h2\<rparr>)"
    using s2(2) ap_invD(3) [OF s1(2)] by (simp add: ap_inv_def)
  have same: "config_of 1 h2 = config_of 1 h"
    using s2(6) by (simp add: config_of_def config_tables_def select_bank_def)
  have "meets_request period ?s2"
  proof (rule encoded_interval [OF refl rate])
    show "sampling_interval ?s2 = word_of_int (c_div 1000000 (SMI240_convert_ODR 1
        (CONVERT_DATARATE_CODE (data_rate (config_of 1 h)))))"
      using acc_send_config [OF inv2] s2(7) assms(3) same
      by (simp add: send_config_interval)
  qed
  moreover have "meets_request period ?s1" if "1 \<in> active_indices (hw s)"
  proof (rule encoded_interval [OF refl rate])
    show "sampling_interval ?s1 = word_of_int (c_div 1000000 (SMI240_convert_ODR 1
        (CONVERT_DATARATE_CODE (data_rate (config_of 1 h)))))"
      using acc_send_config [OF inv1] s1(8) assms(3) that
      by (simp add: send_config_interval)
  qed
  ultimately show ?thesis using s1(1,9) s2(1,2) by auto
qed

text \<open>The state after start-up and the first \<open>get_sensors_list\<close>.\<close>

lemma published_start:
  obtains s where "ap_get_sensorlist True True ap_start = Some (2, s)" "ap_inv s"
    "list_published (hw s)" "cfg s = default_cfg"
proof -
  from get_sensorlist_step [OF ap_inv_start, of True True] obtain n s where
    s: "ap_get_sensorlist True True ap_start = Some (n, s)" "ap_inv s" "list_published (hw s)"
      "n = sl_list_len (sensorlist (hw s))" "cfg s = default_cfg"
    by (auto simp: list_step_def ap_start_def split: option.splits)
  then have "n = 2" by (simp add: list_published_def)
  with s that show ?thesis by simp
qed

lemma acc_request_is_met_witness:
  "\<exists>s s1 s2. ap_get_sensorlist True True ap_start = Some (2, s) \<and>
     ap_batch 1 0 20000000 0 s = Some (0, s1) \<and> ap_activate 1 1 s1 = Some (0, s2) \<and>
     meets_request 20000000 s2"
proof -
  obtain s where s: "ap_get_sensorlist True True ap_start = Some (2, s)" "ap_inv s"
    "list_published (hw s)" "cfg s = default_cfg"
    by (rule published_start)
  have "accl_chip (cfg s) = 1" by (simp add: s(4) default_cfg_def)
  from acc_request_is_met [OF s(2,3) this, of 0 20000000 0] s(1) show ?thesis by blast
qed

text \<open>With the shipped configuration hwcntl_init answers according to the gyroscope device
  alone: a failure to open the accelerometer device is overwritten, and the polling thread
  starts with descriptor -1.\<close>

theorem hwcntl_init_reports_gyro_only:
  "hwcntl_init acc gyr (s\<lparr>cfg := default_cfg\<rparr>) =
    (if gyr = - 1 then - ENODEV else 0, True,
     s\<lparr>cfg := default_cfg, acc_fd := acc, gyr_fd := gyr\<rparr>)"
  by (simp add: hwcntl_init_def ap_hwcntl_init_ACC_def ap_hwcntl_init_GYRO_def default_cfg_def)

section \<open>Every sequence of calls is defined\<close>

datatype ap_call =
    Init int int
  | Get_sensorlist bool bool
  | Activate int int
  | Batch int int int int
  | Flush int

fun ap_exec :: "ap_call \<Rightarrow> ap_state \<Rightarrow> (int \<times> ap_state) option" where
  "ap_exec (Init acc gyr) s = (case hwcntl_init acc gyr s of (ret, d, s') \<Rightarrow> Some (ret, s'))"
| "ap_exec (Get_sensorlist m1 m2) s = map_option (\<lambda>(n, s'). (uint n, s')) (ap_get_sensorlist m1 m2 s)"
| "ap_exec (Activate handle enabled) s = ap_activate handle enabled s"
| "ap_exec (Batch handle flags period latency) s = ap_batch handle flags period latency s"
| "ap_exec (Flush handle) s = Some (fst (ap_flush handle s), s)"

inductive ap_reachable :: "ap_state \<Rightarrow> bool" where
  start: "ap_reachable ap_start"
| call: "ap_reachable s \<Longrightarrow> ap_exec c s = Some (ret, s') \<Longrightarrow> ap_reachable s'"

lemma hwcntl_init_inv: "ap_inv s \<Longrightarrow> hwcntl_init a g s = (ret, d, s') \<Longrightarrow> ap_inv s'"
  by (auto simp: hwcntl_init_def ap_hwcntl_init_ACC_def ap_hwcntl_init_GYRO_def ap_inv_def
      split: if_splits prod.splits)

lemma ap_activate_inv:
  assumes "ap_inv s"
  obtains ret s' where "ap_activate h e s = Some (ret, s')" "ap_inv s'"
proof (cases "known_handle h s")
  case True
  then show ?thesis using activate_step_known [OF assms True, of e] that by blast
next
  case False
  then show ?thesis
    using unknown_handle_get [OF assms False] assms
    by (intro that [of "if h = 255 then 0 else - 22" s]) (simp_all add: ap_activate_def)
qed

lemma ap_batch_inv:
  assumes "ap_inv s"
  obtains ret s' where "ap_batch h f period lat s = Some (ret, s')" "ap_inv s'"
proof (cases "known_handle h s")
  case True
  then show ?thesis using batch_step_known [OF assms True refl, of f period lat] that by blast
next
  case False
  then show ?thesis
    using unknown_handle_get [OF assms False] assms
    by (intro that [of "if lat = 0 then 0 else - 22" s]) (simp_all add: ap_batch_def)
qed

lemma ap_exec_inv:
  assumes "ap_inv s"
  obtains ret s' where "ap_exec c s = Some (ret, s')" "ap_inv s'"
proof (cases c)
  case (Init a g)
  then show ?thesis
    using hwcntl_init_inv [OF assms, of a g] that by (cases "hwcntl_init a g s") auto
next
  case (Get_sensorlist m1 m2)
  then show ?thesis
    using get_sensorlist_step [OF assms, of m1 m2] that
    by (auto simp: list_step_def split: option.splits)
next
  case (Activate h e)
  then show ?thesis using ap_activate_inv [OF assms, of h e] that by auto
next
  case (Batch h f period lat)
  then show ?thesis using ap_batch_inv [OF assms, of h f period lat] that by auto
next
  case (Flush h)
  then show ?thesis using assms that by auto
qed

lemma ap_reachable_inv: "ap_reachable s \<Longrightarrow> ap_inv s"
proof (induction rule: ap_reachable.induct)
  case start
  show ?case by (rule ap_inv_start)
next
  case (call s c ret s')
  from ap_exec_inv [OF call.IH, of c] call.hyps show ?case by auto
qed

text \<open>C1: No sequence of framework calls (start-up, sensor list, activate, batch, flush, with
  any arguments and any allocation failures) reaches undefined behaviour: the next call
  always answers, never divides by zero and never leaves an array, and the polling
  interval handed to usleep never wraps below its 600 us offset.\<close>

theorem ap_calls_are_defined:
  assumes "ap_reachable s"
  shows "ap_exec c s \<noteq> None \<and>
    uint (sampling_interval s - SAMPLING_INTERVAL_OFFSET) = uint (sampling_interval s) - 600 \<and>
    1900 \<le> uint (sampling_interval s - SAMPLING_INTERVAL_OFFSET)"
proof -
  note inv = ap_reachable_inv [OF assms]
  have "ap_exec c s \<noteq> None" by (rule ap_exec_inv [OF inv, of c]) simp
  moreover have "sampling_interval s \<in> {2500, 5000, 10000, 20000, 200000, 1000000}"
    using ap_invD(3) [OF inv] by (simp add: interval_ok_def)
  ultimately show ?thesis by auto
qed

lemma ap_calls_are_defined_witness:
  "ap_exec (Batch 5 0 0 1) ap_start \<noteq> None \<and>
   1900 \<le> uint (sampling_interval ap_start - 600)"
  using ap_calls_are_defined [OF ap_reachable.start, of "Batch 5 0 0 1"] by simp

end
