(* ===== verification/Axis_Remap.thy ===== *)
theory Axis_Remap
  imports Prelude Complex_Main
begin

text \<open>
  \<open>legacy/sensord/axis_remap.c\<close>: the eight placements of the chip and the in-place remapping
  of a sample.  A position outside the table reads past it (\<open>None\<close>).  The eight placements are
  proved to be exactly a group of rotations: each keeps scalar and cross products, any two
  compose to a third, and each can be undone.
\<close>

record axis_remap_m =
  rx_y :: nat
  sx :: nat
  sy :: nat
  sz :: nat

definition axis_remap_matrix :: "axis_remap_m list" where
  "axis_remap_matrix =
    [\<lparr> rx_y = 0, sx = 0, sy = 0, sz = 0 \<rparr>,
     \<lparr> rx_y = 0, sx = 1, sy = 0, sz = 1 \<rparr>,
     \<lparr> rx_y = 0, sx = 1, sy = 1, sz = 0 \<rparr>,
     \<lparr> rx_y = 0, sx = 0, sy = 1, sz = 1 \<rparr>,
     \<lparr> rx_y = 1, sx = 1, sy = 0, sz = 0 \<rparr>,
     \<lparr> rx_y = 1, sx = 0, sy = 1, sz = 0 \<rparr>,
     \<lparr> rx_y = 1, sx = 0, sy = 0, sz = 1 \<rparr>,
     \<lparr> rx_y = 1, sx = 1, sy = 1, sz = 1 \<rparr>]"

definition hw_remap_sensor_data :: "rat \<times> rat \<times> rat \<Rightarrow> int \<Rightarrow> (rat \<times> rat \<times> rat) option" where
  "hw_remap_sensor_data v position =
     (if position < 0 \<or> int (length axis_remap_matrix) \<le> position then None
      else
        let m = axis_remap_matrix ! nat position;
            (px, py, pz) = v;
            (px, py) = (if rx_y m \<noteq> 0 then (py, px) else (px, py));
            px = (if sx m \<noteq> 0 then 0 - px else px);
            py = (if sy m \<noteq> 0 then 0 - py else py);
            pz = (if sz m \<noteq> 0 then 0 - pz else pz)
        in Some (px, py, pz))"

section \<open>The eight placements\<close>

lemma remap_cases:
  "hw_remap_sensor_data (x, y, z) 0 = Some (x, y, z)"
  "hw_remap_sensor_data (x, y, z) 1 = Some (- x, y, - z)"
  "hw_remap_sensor_data (x, y, z) 2 = Some (- x, - y, z)"
  "hw_remap_sensor_data (x, y, z) 3 = Some (x, - y, - z)"
  "hw_remap_sensor_data (x, y, z) 4 = Some (- y, x, z)"
  "hw_remap_sensor_data (x, y, z) 5 = Some (y, - x, z)"
  "hw_remap_sensor_data (x, y, z) 6 = Some (y, x, - z)"
  "hw_remap_sensor_data (x, y, z) 7 = Some (- y, - x, - z)"
  by (simp_all add: hw_remap_sensor_data_def axis_remap_matrix_def Let_def)

lemma position_cases:
  assumes "0 \<le> p" "p < (8 :: int)"
  obtains "p = 0" | "p = 1" | "p = 2" | "p = 3" | "p = 4" | "p = 5" | "p = 6" | "p = 7"
  using assms by linarith

lemma remap_defined: "hw_remap_sensor_data v p \<noteq> None \<longleftrightarrow> 0 \<le> p \<and> p < 8"
  by (auto simp: hw_remap_sensor_data_def axis_remap_matrix_def Let_def split: prod.splits if_splits)

definition scalar :: "rat \<times> rat \<times> rat \<Rightarrow> rat \<times> rat \<times> rat \<Rightarrow> rat" where
  "scalar v w = (case (v, w) of ((a, b, c), (x, y, z)) \<Rightarrow> a * x + b * y + c * z)"

definition cross :: "rat \<times> rat \<times> rat \<Rightarrow> rat \<times> rat \<times> rat \<Rightarrow> rat \<times> rat \<times> rat" where
  "cross v w = (case (v, w) of ((a, b, c), (x, y, z)) \<Rightarrow>
     (b * z - c * y, c * x - a * z, a * y - b * x))"

lemma remap_rotation:
  assumes "0 \<le> p" "p < 8"
  shows "\<exists>v' w'. hw_remap_sensor_data v p = Some v' \<and> hw_remap_sensor_data w p = Some w' \<and>
    scalar v' w' = scalar v w \<and> hw_remap_sensor_data (cross v w) p = Some (cross v' w')"
  using assms by (cases v; cases w; elim position_cases)
    (auto simp: remap_cases scalar_def cross_def algebra_simps)

text \<open>Each of the eight placements is a rotation: hw_remap_sensor_data keeps all scalar
  products and commutes with the cross product.\<close>

theorem remap_is_rotation:
  assumes "0 \<le> p" "p < 8"
  shows "\<exists>v' w'. hw_remap_sensor_data v p = Some v' \<and> hw_remap_sensor_data w p = Some w' \<and>
    scalar v' w' = scalar v w \<and> hw_remap_sensor_data (cross v w) p = Some (cross v' w')"
  using assms by (rule remap_rotation)

lemma remap_is_rotation_witness:
  "\<exists>v' w'. hw_remap_sensor_data (1, 2, 3) 5 = Some v' \<and> hw_remap_sensor_data (4, 5, 6) 5 = Some w' \<and>
    scalar v' w' = 32 \<and> hw_remap_sensor_data (cross (1, 2, 3) (4, 5, 6)) 5 = Some (cross v' w')"
  using remap_is_rotation [of 5 "(1, 2, 3)" "(4, 5, 6)"] by (simp add: scalar_def)

definition compose_position :: "int \<Rightarrow> int \<Rightarrow> int" where
  "compose_position p q =
     [[0, 1, 2, 3, 4, 5, 6, 7], [1, 0, 3, 2, 7, 6, 5, 4], [2, 3, 0, 1, 5, 4, 7, 6],
      [3, 2, 1, 0, 6, 7, 4, 5], [4, 6, 5, 7, 2, 0, 3, 1], [5, 7, 4, 6, 0, 2, 1, 3],
      [6, 4, 7, 5, 1, 3, 0, 2], [7, 5, 6, 4, 3, 1, 2, 0]] ! nat p ! nat q"

definition inverse_position :: "int \<Rightarrow> int" where
  "inverse_position p = [0, 1, 2, 3, 5, 4, 6, 7] ! nat p"

lemma compose_rows:
  "compose_position 0 q = [0, 1, 2, 3, 4, 5, 6, 7] ! nat q"
  "compose_position 1 q = [1, 0, 3, 2, 7, 6, 5, 4] ! nat q"
  "compose_position 2 q = [2, 3, 0, 1, 5, 4, 7, 6] ! nat q"
  "compose_position 3 q = [3, 2, 1, 0, 6, 7, 4, 5] ! nat q"
  "compose_position 4 q = [4, 6, 5, 7, 2, 0, 3, 1] ! nat q"
  "compose_position 5 q = [5, 7, 4, 6, 0, 2, 1, 3] ! nat q"
  "compose_position 6 q = [6, 4, 7, 5, 1, 3, 0, 2] ! nat q"
  "compose_position 7 q = [7, 5, 6, 4, 3, 1, 2, 0] ! nat q"
  by (simp_all add: compose_position_def)

lemma row_entries:
  "[a, b, c, d, e, f, g, h] ! nat 0 = a" "[a, b, c, d, e, f, g, h] ! nat 1 = b"
  "[a, b, c, d, e, f, g, h] ! nat 2 = c" "[a, b, c, d, e, f, g, h] ! nat 3 = d"
  "[a, b, c, d, e, f, g, h] ! nat 4 = e" "[a, b, c, d, e, f, g, h] ! nat 5 = f"
  "[a, b, c, d, e, f, g, h] ! nat 6 = g" "[a, b, c, d, e, f, g, h] ! nat 7 = h"
  by simp_all

lemma remap_compose:
  assumes "0 \<le> p" "p < 8" "0 \<le> q" "q < 8"
  shows "Option.bind (hw_remap_sensor_data v p) (\<lambda>w. hw_remap_sensor_data w q) =
    hw_remap_sensor_data v (compose_position p q)"
proof -
  obtain x y z where v: "v = (x, y, z)" by (cases v)
  show ?thesis
    unfolding v
    by (rule position_cases [OF assms(1,2)]; rule position_cases [OF assms(3,4)];
        simp only: compose_rows row_entries remap_cases bind.simps minus_minus)
qed

text \<open>The eight placements form a group: remapping twice is remapping once with the composed
  placement, and every placement can be undone by another.\<close>

theorem remap_positions_form_group:
  assumes "0 \<le> p" "p < 8" "0 \<le> q" "q < 8"
  shows "(compose_position p q \<in> {0..<8} \<and>
      Option.bind (hw_remap_sensor_data v p) (\<lambda>w. hw_remap_sensor_data w q) =
        hw_remap_sensor_data v (compose_position p q)) \<and>
    (inverse_position p \<in> {0..<8} \<and>
      Option.bind (hw_remap_sensor_data v p)
        (\<lambda>w. hw_remap_sensor_data w (inverse_position p)) = Some v)"
proof -
  have "compose_position p q \<in> {0..<8}"
    by (rule position_cases [OF assms(1,2)]; rule position_cases [OF assms(3,4)];
        simp add: compose_rows)
  moreover have "Option.bind (hw_remap_sensor_data v p)
      (\<lambda>w. hw_remap_sensor_data w (inverse_position p)) = Some v \<and> inverse_position p \<in> {0..<8}"
    by (cases v; rule position_cases [OF assms(1,2)]; simp add: remap_cases inverse_position_def)
  ultimately show ?thesis using remap_compose [OF assms] by simp
qed

lemma remap_positions_form_group_witness:
  "Option.bind (hw_remap_sensor_data (1, 2, 3) 4) (\<lambda>w. hw_remap_sensor_data w 4) =
     hw_remap_sensor_data (1, 2, 3) 2 \<and>
   Option.bind (hw_remap_sensor_data (1, 2, 3) 4) (\<lambda>w. hw_remap_sensor_data w 5) = Some (1, 2, 3)"
  using remap_positions_form_group [of 4 4 "(1, 2, 3)"]
  by (simp add: compose_position_def inverse_position_def)

end
