(* ===== verification/Sysfs.thy ===== *)
theory Sysfs
  imports Prelude
begin

text \<open>
  The sample parser of \<open>sensord_hwcntl_implement.cpp\<close>: \<open>sysfs_extract_numbers\<close> and the part
  of \<open>strtol\<close> it relies on.  The buffer is the list of its bytes, the terminating NUL
  included; a pointer into it is the rest of the list, and reading behind the last byte or
  through the uninitialised \<open>stop\<close> makes the result \<open>None\<close>.  An output that has not been
  written keeps its old value, which is itself \<open>None\<close> while the variable is uninitialised.
\<close>

section \<open>Decimal numbers\<close>

definition isdigit :: "char \<Rightarrow> bool" where
  "isdigit c \<longleftrightarrow> 48 \<le> (of_char c :: nat) \<and> (of_char c :: nat) \<le> 57"

definition digit_value :: "char \<Rightarrow> nat" where
  "digit_value c = of_char c - 48"

fun scan_digits :: "nat \<Rightarrow> string \<Rightarrow> nat \<times> string" where
  "scan_digits acc [] = (acc, [])"
| "scan_digits acc (c # cs) =
     (if isdigit c then scan_digits (10 * acc + digit_value c) cs else (acc, c # cs))"

text \<open>\<open>strtol (p, &stop, 10)\<close> at a digit or a minus sign: the value, saturated to the range of
  \<open>long\<close>, and the position behind it; without a digit, 0 and the position it started from.\<close>

definition clamp_long :: "int \<Rightarrow> int" where
  "clamp_long v = max (- (2 ^ 63)) (min (2 ^ 63 - 1) v)"

definition strtol :: "string \<Rightarrow> int \<times> string" where
  "strtol p =
     (case p of
        CHR ''-'' # cs \<Rightarrow>
          (case cs of
             c # _ \<Rightarrow> if isdigit c
               then (case scan_digits 0 cs of (v, stop) \<Rightarrow> (clamp_long (- int v), stop))
               else (0, p)
           | [] \<Rightarrow> (0, p))
      | _ \<Rightarrow> (case scan_digits 0 p of (v, stop) \<Rightarrow> (clamp_long (int v), stop)))"

text \<open>The conversion of the \<open>long\<close> to \<open>int32_t\<close>.\<close>

definition to_int32 :: "int \<Rightarrow> int" where
  "to_int32 v = sint (word_of_int v :: u32)"

section \<open>The parser\<close>

definition starts_number :: "char \<Rightarrow> bool" where
  "starts_number c \<longleftrightarrow> isdigit c \<or> c = CHR ''-''"

text \<open>One of the three steps: the new output, and \<open>stop\<close>.\<close>

definition extract_number ::
    "string \<Rightarrow> string option \<Rightarrow> int option \<Rightarrow> (int option \<times> string option) option" where
  "extract_number p stop old =
     (case p of
        [] \<Rightarrow> None
      | c # _ \<Rightarrow>
          if starts_number c then (case strtol p of (v, stop') \<Rightarrow> Some (Some (to_int32 v), Some stop'))
          else Some (old, stop))"

text \<open>\<open>p = ++stop\<close>.\<close>

definition next_stop :: "string option \<Rightarrow> string option" where
  "next_stop stop = (case stop of None \<Rightarrow> None | Some [] \<Rightarrow> None | Some (c # cs) \<Rightarrow> Some cs)"

definition sysfs_extract_numbers ::
    "string \<Rightarrow> int option \<times> int option \<times> int option
      \<Rightarrow> (int option \<times> int option \<times> int option) option" where
  "sysfs_extract_numbers s old = (case old of (x, y, z) \<Rightarrow> do {
     (x, stop) \<leftarrow> extract_number s None x;
     p \<leftarrow> next_stop stop;
     (y, stop) \<leftarrow> extract_number p (Some p) y;
     p \<leftarrow> next_stop stop;
     (z, stop) \<leftarrow> extract_number p (Some p) z;
     Some (x, y, z)
   })"

section \<open>Printing and parsing back\<close>

text \<open>The reference printer: decimal, without leading zeros, as \<open>%d\<close> prints.\<close>

definition digit_char :: "nat \<Rightarrow> char" where
  "digit_char d = char_of (48 + d)"

fun show_nat :: "nat \<Rightarrow> string" where
  "show_nat n = (if n < 10 then [digit_char n] else show_nat (n div 10) @ [digit_char (n mod 10)])"

declare show_nat.simps [simp del]

definition show_int :: "int \<Rightarrow> string" where
  "show_int i = (if i < 0 then CHR ''-'' # show_nat (nat (- i)) else show_nat (nat i))"

lemma digit_char_facts:
  assumes "d < 10"
  shows "isdigit (digit_char d)" "digit_value (digit_char d) = d"
  using assms by (simp_all add: digit_char_def isdigit_def digit_value_def)

lemma scan_digits_append:
  "\<forall>c\<in>set ds. isdigit c \<Longrightarrow>
   scan_digits acc (ds @ rest) = scan_digits (fst (scan_digits acc ds)) rest"
  by (induction ds arbitrary: acc) simp_all

lemma show_nat_digits: "\<forall>c\<in>set (show_nat n). isdigit c"
proof (induction n rule: show_nat.induct)
  case (1 n)
  then show ?case by (subst show_nat.simps) (auto simp: digit_char_facts)
qed

lemma show_nat_nonempty: "show_nat n \<noteq> []"
  by (subst show_nat.simps) simp

lemma scan_show_nat: "fst (scan_digits 0 (show_nat n)) = n"
proof (induction n rule: show_nat.induct)
  case (1 n)
  show ?case
  proof (cases "n < 10")
    case True
    then show ?thesis by (subst show_nat.simps) (simp add: digit_char_facts)
  next
    case False
    have "fst (scan_digits 0 (show_nat (n div 10) @ [digit_char (n mod 10)])) = n"
      using 1 [OF False] by (simp add: scan_digits_append [OF show_nat_digits] digit_char_facts)
    with False show ?thesis by (subst show_nat.simps) simp
  qed
qed

lemma scan_stop: "rest = c # cs \<Longrightarrow> \<not> isdigit c \<Longrightarrow> scan_digits acc rest = (acc, rest)"
  by simp

lemma minus_not_digit: "\<not> isdigit CHR ''-''"
  by (simp add: isdigit_def)

lemma show_nat_head: obtains d ds where "show_nat n = d # ds" "isdigit d"
  using show_nat_nonempty [of n] show_nat_digits [of n] by (cases "show_nat n") auto

lemma strtol_show_int:
  assumes "int32_range i" "\<not> isdigit c"
  shows "strtol (show_int i @ c # cs) = (i, c # cs)"
proof -
  have scan: "scan_digits 0 (show_nat n @ c # cs) = (n, c # cs)" for n
    using assms(2) by (simp add: scan_digits_append [OF show_nat_digits] scan_show_nat)
  have clamp: "clamp_long i = i" using assms(1) by (simp add: clamp_long_def int32_range_def)
  show ?thesis
  proof (cases "i < 0")
    case True
    obtain d ds where d: "show_nat (nat (- i)) = d # ds" "isdigit d" by (rule show_nat_head)
    show ?thesis
      using True scan [of "nat (- i)"] clamp d by (simp add: strtol_def show_int_def)
  next
    case False
    obtain d ds where d: "show_nat (nat i) = d # ds" "isdigit d" by (rule show_nat_head)
    then have "d \<noteq> CHR ''-''" using minus_not_digit by auto
    moreover have "strtol (d # xs) = (case scan_digits 0 (d # xs) of (v, stop) \<Rightarrow> (clamp_long (int v), stop))"
      if "d \<noteq> CHR ''-''" for xs
      using that unfolding strtol_def by (auto split: char.splits bool.splits)
    ultimately show ?thesis
      using False scan [of "nat i"] clamp d by (simp add: show_int_def)
  qed
qed

lemma show_int_head:
  obtains d ds where "show_int i = d # ds" "starts_number d"
proof (cases "i < 0")
  case True
  then show ?thesis by (intro that) (auto simp: show_int_def starts_number_def)
next
  case False
  obtain d ds where "show_nat (nat i) = d # ds" "isdigit d" by (rule show_nat_head)
  with False show ?thesis by (intro that) (auto simp: show_int_def starts_number_def)
qed

lemma to_int32_range: "int32_range i \<Longrightarrow> to_int32 i = i"
  by (simp add: to_int32_def int32_range_def sint_sbintrunc'
      signed_take_bit_int_eq_self)

lemma extract_show_int:
  assumes "int32_range i" "\<not> isdigit c"
  shows "extract_number (show_int i @ c # cs) stop old = Some (Some i, Some (c # cs))"
proof -
  obtain d ds where d: "show_int i = d # ds" "starts_number d" by (rule show_int_head)
  show ?thesis
    using strtol_show_int [OF assms, of cs] to_int32_range [OF assms(1)] d
    by (simp add: extract_number_def)
qed

text \<open>C40: sysfs_extract_numbers reads back any three 32-bit integers printed in decimal and
  separated by single non-digit characters.\<close>

theorem sysfs_extract_numbers_reads_back:
  assumes "int32_range x" "int32_range y" "int32_range z"
    and "\<not> isdigit c1" "\<not> isdigit c2" "\<not> isdigit c3"
  shows "sysfs_extract_numbers
      (show_int x @ c1 # show_int y @ c2 # show_int z @ c3 # cs) old = Some (Some x, Some y, Some z)"
  by (cases old)
    (simp add: sysfs_extract_numbers_def extract_show_int [OF assms(1,4)]
      extract_show_int [OF assms(2,5)] extract_show_int [OF assms(3,6)] next_stop_def)

lemma sysfs_extract_numbers_reads_back_witness:
  "sysfs_extract_numbers (show_int (-32768) @ CHR '' '' # show_int 7 @ CHR '' '' #
     show_int 32767 @ CHR 0x00 # []) (None, None, None) = Some (Some (-32768), Some 7, Some 32767)"
  by (rule sysfs_extract_numbers_reads_back) (simp_all add: int32_range_def isdigit_def)

text \<open>When the buffer does not begin with a digit or a minus sign, sysfs_extract_numbers
  increments the uninitialised pointer stop.\<close>

theorem sysfs_data_error_reads_uninitialised_stop:
  assumes "\<not> starts_number c"
  shows "sysfs_extract_numbers (c # cs) old = None"
  using assms
  by (cases old) (simp add: sysfs_extract_numbers_def extract_number_def next_stop_def)

lemma sysfs_data_error_reads_uninitialised_stop_witness:
  "sysfs_extract_numbers ''error'' (None, None, None) = None"
  using sysfs_data_error_reads_uninitialised_stop [of "CHR ''e''" "''rror''"]
  by (simp add: starts_number_def isdigit_def)

end
