(* ===== verification/Sample_Pipeline.thy ===== *)
theory Sample_Pipeline
  imports Simple_List Ap_Control Axis_Remap Sysfs "HOL-Library.Multiset"
begin

text \<open>
  The data path of the legacy HAL: the polling thread (\<open>ap_hw_poll_smi240acc\<close>,
  \<open>ap_hw_poll_smi240gyro\<close> and \<open>IMU_hw_deliver_sensordata\<close> of
  \<open>sensord_hwcntl_implement.cpp\<close>), the distribution of the shared list
  (\<open>sensord_read_rawdata\<close> of \<open>sensord.cpp\<close>) and the time alignment and conversion to events
  (\<open>sensord_algo.cpp\<close>).  The lists are the bounded queues that \<open>Simple_List\<close> proves the
  pointer lists to implement.  Results of \<open>read\<close>, \<open>malloc\<close>, \<open>calloc\<close> and \<open>write\<close> are
  arguments; payloads that are freed or lost on the way are returned beside the state.
\<close>

section \<open>Samples\<close>

record hw_data =
  hd_id :: int
  hd_x :: rat
  hd_y :: rat
  hd_z :: rat
  hd_x_bias :: rat
  hd_y_bias :: rat
  hd_z_bias :: rat
  hd_accuracy :: int
  hd_timestamp :: int

definition hw_data_zero :: hw_data where
  "hw_data_zero = \<lparr> hd_id = 0, hd_x = 0, hd_y = 0, hd_z = 0, hd_x_bias = 0, hd_y_bias = 0,
     hd_z_bias = 0, hd_accuracy = 0, hd_timestamp = 0 \<rparr>"

text \<open>One successful \<open>read\<close>: its bytes, the clock in ns, and whether the two allocations for
  the sample and its list node succeed.\<close>

record read_event =
  re_data :: string
  re_time :: int
  re_calloc :: bool
  re_node :: bool

definition acc_sample :: "int \<times> int \<times> int \<Rightarrow> int \<Rightarrow> hw_data" where
  "acc_sample v time = (case v of (x, y, z) \<Rightarrow> hw_data_zero\<lparr> hd_id := SENSOR_TYPE_ACCELEROMETER,
     hd_x := f32 (of_int x), hd_y := f32 (of_int y), hd_z := f32 (of_int z), hd_timestamp := time \<rparr>)"

definition gyr_sample :: "int \<Rightarrow> int \<times> int \<times> int \<Rightarrow> int \<Rightarrow> hw_data option" where
  "gyr_sample place v time = (case v of (x, y, z) \<Rightarrow> do {
     (px, py, pz) \<leftarrow> hw_remap_sensor_data (f32 (of_int x), f32 (of_int y), f32 (of_int z)) place;
     Some (hw_data_zero\<lparr> hd_id := SENSOR_TYPE_GYROSCOPE_UNCALIBRATED,
       hd_x := px, hd_y := py, hd_z := pz, hd_timestamp := time \<rparr>)
   })"

definition initialised :: "int option \<times> int option \<times> int option \<Rightarrow> (int \<times> int \<times> int) option" where
  "initialised v = (case v of (Some x, Some y, Some z) \<Rightarrow> Some (x, y, z) | _ \<Rightarrow> None)"

definition queue_add :: "bool \<Rightarrow> 'd \<Rightarrow> 'd bqueue \<Rightarrow> int \<times> 'd list \<times> 'd bqueue" where
  "queue_add node_ok d q = (if node_ok then bq_add d q else (-1, [], q))"

text \<open>Storing a sample: on -1 the sample itself is freed.\<close>

definition store_sample :: "bool \<Rightarrow> 'd \<Rightarrow> 'd bqueue \<Rightarrow> 'd list \<times> 'd bqueue" where
  "store_sample node_ok d q = (case queue_add node_ok d q of
     (ret, dropped, q') \<Rightarrow> (dropped @ (if ret = -1 then [d] else []), q'))"

section \<open>The polling thread\<close>

fun poll_loop ::
    "(int \<times> int \<times> int \<Rightarrow> int \<Rightarrow> hw_data option) \<Rightarrow> read_event list \<Rightarrow>
     int option \<times> int option \<times> int option \<Rightarrow> hw_data bqueue \<Rightarrow> (hw_data list \<times> hw_data bqueue) option"
where
  "poll_loop sample [] xyz q = Some ([], q)"
| "poll_loop sample (r # rs) xyz q =
     (if 100 \<le> length (re_data r) then None
      else do {
        xyz' \<leftarrow> sysfs_extract_numbers (re_data r @ [CHR 0x00]) xyz;
        v \<leftarrow> initialised xyz';
        if \<not> re_calloc r then poll_loop sample rs xyz' q
        else do {
          d \<leftarrow> sample v (re_time r);
          let (lost, q') = store_sample (re_node r) d q;
          (lost', q'') \<leftarrow> poll_loop sample rs xyz' q';
          Some (lost @ lost', q'')
        }
      })"

definition ap_hw_poll_smi240acc ::
    "read_event list \<Rightarrow> hw_data bqueue \<Rightarrow> (hw_data list \<times> hw_data bqueue) option" where
  "ap_hw_poll_smi240acc reads dest_list_acc =
     poll_loop (\<lambda>v t. Some (acc_sample v t)) reads (None, None, None) dest_list_acc"

definition ap_hw_poll_smi240gyro ::
    "int \<Rightarrow> read_event list \<Rightarrow> hw_data bqueue \<Rightarrow> (hw_data list \<times> hw_data bqueue) option" where
  "ap_hw_poll_smi240gyro place reads dest_list =
     poll_loop (gyr_sample place) reads (None, None, None) dest_list"

text \<open>The lists of \<open>BoschSensor\<close>, and the samples that were freed.\<close>

record pipeline =
  tmplist_hwcntl_acclraw :: "hw_data bqueue"
  tmplist_hwcntl_gyroraw :: "hw_data bqueue"
  shmem_hwcntl :: "hw_data bqueue"
  tmplist_sensord_acclraw :: "hw_data bqueue"
  tmplist_sensord_gyroraw :: "hw_data bqueue"
  lost_samples :: "hw_data list"

definition new_queue :: "'d bqueue" where
  "new_queue = \<lparr> items = [], limit = 128 \<rparr>"

definition pipeline_start :: pipeline where
  "pipeline_start = \<lparr> tmplist_hwcntl_acclraw = new_queue, tmplist_hwcntl_gyroraw = new_queue,
     shmem_hwcntl = new_queue, tmplist_sensord_acclraw = new_queue,
     tmplist_sensord_gyroraw = new_queue, lost_samples = [] \<rparr>"

definition hand_over :: "pipeline \<Rightarrow> pipeline" where
  "hand_over s =
     (if length (items (tmplist_hwcntl_acclraw s)) + length (items (tmplist_hwcntl_gyroraw s)) = 0
      then s
      else
        let (ret1, lost1, sh1, acc) = bq_mount (shmem_hwcntl s) (tmplist_hwcntl_acclraw s);
            (ret2, lost2, sh2, gyr) = bq_mount sh1 (tmplist_hwcntl_gyroraw s)
        in s\<lparr> tmplist_hwcntl_acclraw := acc, tmplist_hwcntl_gyroraw := gyr, shmem_hwcntl := sh2,
             lost_samples := lost_samples s @ lost1 @ lost2 \<rparr>)"

definition IMU_hw_deliver_sensordata ::
    "int \<Rightarrow> read_event list \<Rightarrow> read_event list \<Rightarrow> pipeline \<Rightarrow> pipeline option" where
  "IMU_hw_deliver_sensordata place acc_reads gyr_reads s = do {
     (lost1, acc) \<leftarrow> ap_hw_poll_smi240acc acc_reads (tmplist_hwcntl_acclraw s);
     (lost2, gyr) \<leftarrow> ap_hw_poll_smi240gyro place gyr_reads (tmplist_hwcntl_gyroraw s);
     Some (hand_over (s\<lparr> tmplist_hwcntl_acclraw := acc, tmplist_hwcntl_gyroraw := gyr,
       lost_samples := lost_samples s @ lost1 @ lost2 \<rparr>))
   }"

section \<open>The distribution of the shared list\<close>

text \<open>\<open>node_ok n\<close>: whether the list node for the sample with \<open>n\<close> samples behind it can be
  allocated.  A sample with another id is neither stored nor freed; it counts as lost.\<close>

fun distribute :: "(nat \<Rightarrow> bool) \<Rightarrow> hw_data list \<Rightarrow> pipeline \<Rightarrow> pipeline" where
  "distribute node_ok [] s = s"
| "distribute node_ok (d # ds) s =
     (let s = s\<lparr>shmem_hwcntl := (shmem_hwcntl s)\<lparr>items := ds\<rparr>\<rparr> in
      if hd_id d = SENSOR_TYPE_ACCELEROMETER then
        let (lost, q) = store_sample (node_ok (length ds)) d (tmplist_sensord_acclraw s)
        in distribute node_ok ds
             (s\<lparr>tmplist_sensord_acclraw := q, lost_samples := lost_samples s @ lost\<rparr>)
      else if hd_id d = SENSOR_TYPE_GYROSCOPE_UNCALIBRATED then
        let (lost, q) = store_sample (node_ok (length ds)) d (tmplist_sensord_gyroraw s)
        in distribute node_ok ds
             (s\<lparr>tmplist_sensord_gyroraw := q, lost_samples := lost_samples s @ lost\<rparr>)
      else distribute node_ok ds (s\<lparr>lost_samples := lost_samples s @ [d]\<rparr>))"

text \<open>\<open>wait_ok\<close>: whether \<open>pthread_cond_wait\<close> returns 0 when the list is empty.  The wait
  releases the mutex; what the polling thread does meanwhile is a step of its own.\<close>

definition sensord_read_rawdata :: "bool \<Rightarrow> (nat \<Rightarrow> bool) \<Rightarrow> pipeline \<Rightarrow> pipeline" where
  "sensord_read_rawdata wait_ok node_ok s =
     (if items (shmem_hwcntl s) = [] \<and> \<not> wait_ok then s
      else distribute node_ok (items (shmem_hwcntl s)) s)"

section \<open>Time alignment\<close>

abbreviation (input) "HAS_ACC \<equiv> (1 :: u8)"
abbreviation (input) "HAS_GYR \<equiv> (4 :: u8)"

definition cur_base_tm :: "hw_data list \<Rightarrow> hw_data list \<Rightarrow> int" where
  "cur_base_tm acc gyr =
     (let tm = (if gyr \<noteq> [] then hd_timestamp (hd gyr) else 0) in
      if acc \<noteq> [] then
        if tm \<noteq> 0 then
          if hd_timestamp (hd acc) < tm then hd_timestamp (hd acc) else tm
        else hd_timestamp (hd acc)
      else tm)"

definition at_base :: "int \<Rightarrow> hw_data list \<Rightarrow> bool" where
  "at_base tm xs \<longleftrightarrow> xs \<noteq> [] \<and> hd_timestamp (hd xs) = tm"

text \<open>The remaining samples stand for the two indices into the arrays.\<close>

function sort_input_samples :: "hw_data list \<Rightarrow> hw_data list \<Rightarrow> u8 list" where
  "sort_input_samples acc gyr =
     (if length acc + length gyr = 0 then []
      else
        let tm = cur_base_tm acc gyr; a = at_base tm acc; g = at_base tm gyr
        in ((if a then HAS_ACC else 0) OR (if g then HAS_GYR else 0)) #
           sort_input_samples (if a then tl acc else acc) (if g then tl gyr else gyr))"
  by pat_completeness auto

lemma cur_base_cases:
  assumes "length acc + length gyr \<noteq> 0"
  shows "at_base (cur_base_tm acc gyr) acc \<or> at_base (cur_base_tm acc gyr) gyr"
  using assms by (auto simp: cur_base_tm_def at_base_def Let_def)

termination sort_input_samples
proof (relation "measure (\<lambda>(acc, gyr). length acc + length gyr)", goal_cases)
  case (2 acc gyr tm a g)
  with cur_base_cases [of acc gyr] show ?case
    by (cases acc; cases gyr) (auto simp: at_base_def)
qed simp

declare sort_input_samples.simps [simp del]

section \<open>Delivery to the framework\<close>

text \<open>A package for the fusion library: the 32-bit contents are the samples truncated.\<close>

record bsx_fifo_data =
  time_stamp :: int
  content_p :: "int \<times> int \<times> int"
  sensor_id :: int

definition acc_package :: "hw_data \<Rightarrow> bsx_fifo_data" where
  "acc_package d = \<lparr> time_stamp = hd_timestamp d,
     content_p = (f_to_int (hd_x d), f_to_int (hd_y d), f_to_int (hd_z d)),
     sensor_id = BSX_INPUT_ID_ACCELERATION \<rparr>"

definition gyr_package :: "hw_data \<Rightarrow> bsx_fifo_data" where
  "gyr_package d = \<lparr> time_stamp = hd_timestamp d,
     content_p = (f_to_int (hd_x d), f_to_int (hd_y d), f_to_int (hd_z d)),
     sensor_id = BSX_INPUT_ID_ANGULARRATE \<rparr>"

text \<open>The packages of each slot of the alignment array, in the order they are delivered; an index
  past an array is undefined.\<close>

fun input_packages ::
    "u8 list \<Rightarrow> hw_data list \<Rightarrow> hw_data list \<Rightarrow> bsx_fifo_data list option" where
  "input_packages [] acc gyr = Some []"
| "input_packages (ind # inds) acc gyr =
     (let a = ind AND HAS_ACC \<noteq> 0; g = ind AND HAS_GYR \<noteq> 0 in
      if (a \<and> acc = []) \<or> (g \<and> gyr = []) then None
      else do {
        rest \<leftarrow> input_packages inds (if a then tl acc else acc) (if g then tl gyr else gyr);
        Some ((if a then [acc_package (hd acc)] else []) @
              (if g then [gyr_package (hd gyr)] else []) @ rest)
      })"

text \<open>The conversion factors: double arithmetic, stored in a \<open>float\<close>.\<close>

definition ACC_VALUE_PER_BIT :: rat where
  "ACC_VALUE_PER_BIT = f64 (f64 (981 / 100) / 32767)"

definition GYRO_VALUE_PER_BIT :: rat where
  "GYRO_VALUE_PER_BIT = f64 (f64 (f64 (314 / 100) / 180) / 32767)"

definition convert_acc :: "int \<Rightarrow> rat option" where
  "convert_acc range' = (if range' \<in> {2, 4, 8, 16}
     then Some (f32 (f64 (ACC_VALUE_PER_BIT * of_int range'))) else None)"

definition convert_gyro :: "int \<Rightarrow> rat option" where
  "convert_gyro range' = (if range' \<in> {125, 250, 300, 500, 1000, 2000}
     then Some (f32 (f64 (GYRO_VALUE_PER_BIT * of_int range'))) else None)"

text \<open>The union of an event: the leading floats, or the two members of a meta-data event.\<close>

datatype event_payload = Floats "rat list" | Meta_data int int

record sensors_event =
  ev_version :: int
  ev_sensor :: int
  ev_type :: int
  ev_timestamp :: int
  ev_data :: event_payload

abbreviation (input) "sizeof_sensors_event \<equiv> (104 :: int)"

text \<open>\<open>int * float\<close> converts the integer to \<open>float\<close> first.\<close>

definition scale_value :: "rat \<Rightarrow> int \<Rightarrow> rat" where
  "scale_value c v = f32 (f32 (of_int v) * c)"

definition scale3 :: "rat \<Rightarrow> int \<times> int \<times> int \<Rightarrow> event_payload" where
  "scale3 c v = (case v of (x, y, z) \<Rightarrow>
     Floats [scale_value c x, scale_value c y, scale_value c z, 0, 0, 0])"

definition package_event :: "sensord_cfg \<Rightarrow> bsx_fifo_data \<Rightarrow> sensors_event option" where
  "package_event c pk =
     (if sensor_id pk = BSX_INPUT_ID_ACCELERATION then do {
        conv \<leftarrow> convert_acc (accl_range c);
        Some \<lparr> ev_version = sizeof_sensors_event, ev_sensor = BSX_SENSOR_ID_ACCELEROMETER,
          ev_type = SENSOR_TYPE_ACCELEROMETER, ev_timestamp = time_stamp pk,
          ev_data = scale3 conv (content_p pk) \<rparr>
      }
      else if sensor_id pk = BSX_INPUT_ID_ANGULARRATE then do {
        conv \<leftarrow> convert_gyro (gyro_range c);
        Some \<lparr> ev_version = sizeof_sensors_event, ev_sensor = BSX_SENSOR_ID_GYROSCOPE_UNCALIBRATED,
          ev_type = SENSOR_TYPE_GYROSCOPE_UNCALIBRATED, ev_timestamp = time_stamp pk,
          ev_data = scale3 conv (content_p pk) \<rparr>
      }
      else None)"

text \<open>\<open>write\<close> into the HAL pipe: an event is appended or, on error, only logged.\<close>

definition sensord_deliver_event :: "bool \<Rightarrow> sensors_event \<Rightarrow> sensors_event list \<Rightarrow> sensors_event list" where
  "sensord_deliver_event write_ok ev HALpipe = (if write_ok then HALpipe @ [ev] else HALpipe)"

text \<open>\<open>ok n\<close>: whether the \<open>calloc\<close> and the \<open>write\<close> of the package with \<open>n\<close> packages behind
  it succeed.\<close>

fun deliver_packages ::
    "sensord_cfg \<Rightarrow> (nat \<Rightarrow> bool \<times> bool) \<Rightarrow> bsx_fifo_data list \<Rightarrow> sensors_event list \<Rightarrow> sensors_event list" where
  "deliver_packages c ok [] HALpipe = HALpipe"
| "deliver_packages c ok (pk # pks) HALpipe =
     (let (calloc_ok, write_ok) = ok (length pks) in
      case (if calloc_ok then package_event c pk else None) of
        None \<Rightarrow> deliver_packages c ok pks HALpipe
      | Some ev \<Rightarrow> deliver_packages c ok pks (sensord_deliver_event write_ok ev HALpipe))"

record algo_allocs =
  malloc_acc :: bool
  malloc_gyr :: bool
  calloc_align :: bool
  event_ok :: "nat \<Rightarrow> bool \<times> bool"

definition sensord_algo_process ::
    "sensord_cfg \<Rightarrow> algo_allocs \<Rightarrow> pipeline \<times> sensors_event list
      \<Rightarrow> (pipeline \<times> sensors_event list) option" where
  "sensord_algo_process c al st = (case st of (s, HALpipe) \<Rightarrow>
     let acc = items (tmplist_sensord_acclraw s); gyr = items (tmplist_sensord_gyroraw s);
         s_acc = s\<lparr>tmplist_sensord_acclraw := (tmplist_sensord_acclraw s)\<lparr>items := []\<rparr>\<rparr>;
         s_both = s_acc\<lparr>tmplist_sensord_gyroraw := (tmplist_sensord_gyroraw s)\<lparr>items := []\<rparr>\<rparr> in
     if length acc + length gyr = 0 then Some (s, HALpipe)
     else if acc \<noteq> [] \<and> \<not> malloc_acc al then Some (s, HALpipe)
     else if gyr \<noteq> [] \<and> \<not> malloc_gyr al then
       Some (s_acc\<lparr>lost_samples := lost_samples s @ acc\<rparr>, HALpipe)
     else if \<not> calloc_align al then
       Some (s_both\<lparr>lost_samples := lost_samples s @ acc @ gyr\<rparr>, HALpipe)
     else do {
       pks \<leftarrow> input_packages (sort_input_samples acc gyr) acc gyr;
       Some (s_both, deliver_packages c (event_ok al) pks HALpipe)
     })"

text \<open>\<open>send_flush_event\<close>: a meta-data event for the sensor.\<close>

definition send_flush_event ::
    "bool \<Rightarrow> bool \<Rightarrow> int \<Rightarrow> sensors_event list \<Rightarrow> int \<times> sensors_event list" where
  "send_flush_event calloc_ok write_ok handle HALpipe =
     (if \<not> calloc_ok then (-1, HALpipe)
      else (0, sensord_deliver_event write_ok
        \<lparr> ev_version = 0, ev_sensor = 0, ev_type = SENSOR_TYPE_META_DATA, ev_timestamp = 0,
          ev_data = Meta_data 1 handle \<rparr> HALpipe))"

section \<open>Alignment loses and reorders nothing\<close>

lemma flag_bits:
  "(((if a then HAS_ACC else 0) OR (if g then HAS_GYR else 0)) AND HAS_ACC \<noteq> 0) = a"
  "(((if a then HAS_ACC else 0) OR (if g then HAS_GYR else 0)) AND HAS_GYR \<noteq> 0) = g"
  by (cases a; cases g; simp)+

lemma package_ids [simp]:
  "sensor_id (acc_package d) = 1" "sensor_id (gyr_package d) = 3"
  "time_stamp (acc_package d) = hd_timestamp d" "time_stamp (gyr_package d) = hd_timestamp d"
  by (simp_all add: acc_package_def gyr_package_def)

definition aligned :: "hw_data list \<Rightarrow> hw_data list \<Rightarrow> bsx_fifo_data list option \<Rightarrow> bool" where
  "aligned acc gyr res \<longleftrightarrow> (case res of None \<Rightarrow> False | Some pks \<Rightarrow>
     filter (\<lambda>p. sensor_id p = 1) pks = map acc_package acc \<and>
     filter (\<lambda>p. sensor_id p = 3) pks = map gyr_package gyr \<and>
     length pks = length acc + length gyr)"

lemma aligned_step:
  assumes "aligned (if a then tl acc else acc) (if g then tl gyr else gyr)
      (input_packages inds (if a then tl acc else acc) (if g then tl gyr else gyr))"
    and "a \<longrightarrow> acc \<noteq> []" "g \<longrightarrow> gyr \<noteq> []"
  shows "aligned acc gyr (input_packages
    (((if a then HAS_ACC else 0) OR (if g then HAS_GYR else 0)) # inds) acc gyr)"
  using assms
  by (cases acc; cases gyr; cases a; cases g)
     (auto simp: aligned_def flag_bits split: option.splits)

lemma sort_input_samples_aligned:
  "aligned acc gyr (input_packages (sort_input_samples acc gyr) acc gyr) \<and>
   length (sort_input_samples acc gyr) \<le> length acc + length gyr"
proof (induction acc gyr rule: sort_input_samples.induct)
  case (1 acc gyr)
  show ?case
  proof (cases "length acc + length gyr = 0")
    case True
    then show ?thesis by (simp add: aligned_def sort_input_samples.simps)
  next
    case False
    let ?tm = "cur_base_tm acc gyr"
    let ?a = "at_base ?tm acc" and ?g = "at_base ?tm gyr"
    let ?acc = "if ?a then tl acc else acc" and ?gyr = "if ?g then tl gyr else gyr"
    have ih: "aligned ?acc ?gyr (input_packages (sort_input_samples ?acc ?gyr) ?acc ?gyr)"
      "length (sort_input_samples ?acc ?gyr) \<le> length ?acc + length ?gyr"
      using 1 [OF False refl refl refl] by simp_all
    have unf: "sort_input_samples acc gyr =
      ((if ?a then HAS_ACC else 0) OR (if ?g then HAS_GYR else 0)) # sort_input_samples ?acc ?gyr"
      using False by (subst sort_input_samples.simps) (simp add: Let_def)
    have ne: "?a \<longrightarrow> acc \<noteq> []" "?g \<longrightarrow> gyr \<noteq> []" by (simp_all add: at_base_def)
    have "length ?acc + length ?gyr < length acc + length gyr"
      using cur_base_cases [OF False] by (cases acc; cases gyr) (auto simp: at_base_def)
    with ih(2) aligned_step [OF ih(1) ne] show ?thesis unfolding unf by simp
  qed
qed

text \<open>Time order.\<close>

definition time_sorted :: "hw_data list \<Rightarrow> bool" where
  "time_sorted xs \<longleftrightarrow> sorted (map hd_timestamp xs) \<and> (\<forall>d\<in>set xs. 0 < hd_timestamp d)"

lemma time_sorted_Cons:
  "time_sorted (d # ds) \<longleftrightarrow>
   time_sorted ds \<and> 0 < hd_timestamp d \<and> (\<forall>e\<in>set ds. hd_timestamp d \<le> hd_timestamp e)"
  by (auto simp: time_sorted_def)

lemma base_is_least:
  assumes "time_sorted acc" "time_sorted gyr"
  shows "\<forall>d\<in>set acc \<union> set gyr. cur_base_tm acc gyr \<le> hd_timestamp d"
  using assms by (cases acc; cases gyr) (auto simp: cur_base_tm_def Let_def time_sorted_Cons)

lemma package_times:
  assumes "aligned acc gyr (Some pks)" "p \<in> set pks"
    and "\<forall>d\<in>set acc \<union> set gyr. tm \<le> hd_timestamp d"
    and "\<forall>p\<in>set pks. sensor_id p = 1 \<or> sensor_id p = 3"
  shows "tm \<le> time_stamp p"
proof -
  have parts: "filter (\<lambda>p. sensor_id p = 1) pks = map acc_package acc"
    "filter (\<lambda>p. sensor_id p = 3) pks = map gyr_package gyr"
    using assms(1) by (simp_all add: aligned_def)
  have "p \<in> set (filter (\<lambda>p. sensor_id p = 1) pks) \<union> set (filter (\<lambda>p. sensor_id p = 3) pks)"
    using assms(2,4) by auto
  then have "p \<in> acc_package ` set acc \<union> gyr_package ` set gyr"
    unfolding parts set_map .
  then show ?thesis using assms(3) by auto
qed

lemma input_packages_ids:
  "input_packages inds acc gyr = Some pks \<Longrightarrow> p \<in> set pks \<Longrightarrow> sensor_id p = 1 \<or> sensor_id p = 3"
  by (induction inds arbitrary: acc gyr pks)
     (auto simp: Let_def split: if_splits bind_splits)

lemma set_tl_subset: "set (tl xs) \<subseteq> set xs"
  by (cases xs) auto

lemma time_sorted_tl: "time_sorted xs \<Longrightarrow> time_sorted (tl xs)"
  by (cases xs) (auto simp: time_sorted_def)

lemma sorted_prefix:
  assumes "\<forall>p\<in>set hs. f p = (t :: int)" "\<forall>p\<in>set rs. t \<le> f p" "sorted (map f rs)"
  shows "sorted (map f (hs @ rs))"
  using assms(1) by (induction hs) (use assms(2,3) in auto)

lemma sort_input_samples_time_order:
  assumes "time_sorted acc" "time_sorted gyr"
    and "input_packages (sort_input_samples acc gyr) acc gyr = Some pks"
  shows "sorted (map time_stamp pks)"
  using assms
proof (induction acc gyr arbitrary: pks rule: sort_input_samples.induct)
  case (1 acc gyr)
  show ?case
  proof (cases "length acc + length gyr = 0")
    case True
    with 1(4) show ?thesis by (simp add: sort_input_samples.simps)
  next
    case False
    let ?tm = "cur_base_tm acc gyr"
    let ?a = "at_base ?tm acc" and ?g = "at_base ?tm gyr"
    let ?acc = "if ?a then tl acc else acc" and ?gyr = "if ?g then tl gyr else gyr"
    have unf: "sort_input_samples acc gyr =
      ((if ?a then HAS_ACC else 0) OR (if ?g then HAS_GYR else 0)) # sort_input_samples ?acc ?gyr"
      using False by (subst sort_input_samples.simps) (simp add: Let_def)
    from 1(4) obtain rest where
      rest: "input_packages (sort_input_samples ?acc ?gyr) ?acc ?gyr = Some rest"
      and pks: "pks = (if ?a then [acc_package (hd acc)] else []) @
        (if ?g then [gyr_package (hd gyr)] else []) @ rest"
      unfolding unf input_packages.simps Let_def flag_bits
      by (auto split: if_split_asm bind_splits)
    have ts: "time_sorted ?acc" "time_sorted ?gyr"
      using 1(2,3) by (simp_all add: time_sorted_tl)
    have sorted: "sorted (map time_stamp rest)"
      by (rule 1(1) [OF False refl refl refl ts rest])
    have "set ?acc \<subseteq> set acc" "set ?gyr \<subseteq> set gyr"
      by (simp_all add: set_tl_subset)
    with base_is_least [OF 1(2,3)] have "\<forall>d\<in>set ?acc \<union> set ?gyr. ?tm \<le> hd_timestamp d"
      by blast
    moreover have "aligned ?acc ?gyr (Some rest)"
      using sort_input_samples_aligned [of ?acc ?gyr] rest by simp
    ultimately have "\<forall>p\<in>set rest. ?tm \<le> time_stamp p"
      using package_times input_packages_ids [OF rest] by blast
    then show ?thesis
      unfolding pks append_assoc [symmetric]
      by (intro sorted_prefix [OF _ _ sorted, of _ ?tm]) (auto simp: at_base_def)
  qed
qed

section \<open>Properties of the alignment\<close>

text \<open>C29: The alignment array delivers every accelerometer and every gyroscope sample exactly
  once, in order, for arbitrary time stamps, fits its allocation, and its consumer never
  indexes past either sample array.\<close>

theorem sort_input_samples_complete:
  "\<exists>pks. input_packages (sort_input_samples acc gyr) acc gyr = Some pks \<and>
    filter (\<lambda>p. sensor_id p = BSX_INPUT_ID_ACCELERATION) pks = map acc_package acc \<and>
    filter (\<lambda>p. sensor_id p = BSX_INPUT_ID_ANGULARRATE) pks = map gyr_package gyr \<and>
    length pks = length acc + length gyr \<and>
    length (sort_input_samples acc gyr) \<le> length acc + length gyr"
  using sort_input_samples_aligned [of acc gyr] by (auto simp: aligned_def split: option.splits)

text \<open>For sample lists with positive, nondecreasing time stamps the merged delivery is in time
  order.\<close>

theorem aligned_samples_are_in_time_order:
  assumes "time_sorted acc" "time_sorted gyr"
  shows "\<exists>pks. input_packages (sort_input_samples acc gyr) acc gyr = Some pks \<and>
    sorted (map time_stamp pks)"
  using sort_input_samples_aligned [of acc gyr] sort_input_samples_time_order [OF assms]
  by (auto simp: aligned_def split: option.splits)

definition sample_at :: "int \<Rightarrow> int \<Rightarrow> hw_data" where
  "sample_at ident time = hw_data_zero\<lparr>hd_id := ident, hd_timestamp := time\<rparr>"

lemma aligned_samples_are_in_time_order_witness:
  "\<exists>pks. input_packages (sort_input_samples [sample_at 1 10, sample_at 1 30] [sample_at 16 20])
      [sample_at 1 10, sample_at 1 30] [sample_at 16 20] = Some pks \<and> sorted (map time_stamp pks)"
  by (rule aligned_samples_are_in_time_order) (simp_all add: time_sorted_def sample_at_def)

section \<open>From samples to events\<close>

definition valid_ranges :: "sensord_cfg \<Rightarrow> bool" where
  "valid_ranges c \<longleftrightarrow> accl_range c \<in> {2, 4, 8, 16} \<and>
     gyro_range c \<in> {125, 250, 300, 500, 1000, 2000}"

definition all_ok :: "algo_allocs \<Rightarrow> bool" where
  "all_ok al \<longleftrightarrow> malloc_acc al \<and> malloc_gyr al \<and> calloc_align al \<and> (\<forall>n. event_ok al n = (True, True))"

lemma package_event_fields:
  assumes "valid_ranges c" "sensor_id pk = 1 \<or> sensor_id pk = 3"
  shows "\<exists>ev. package_event c pk = Some ev \<and> ev_timestamp ev = time_stamp pk \<and>
    ev_type ev = (if sensor_id pk = 1 then 1 else 16)"
  using assms by (auto simp: package_event_def convert_acc_def convert_gyro_def valid_ranges_def)

lemma deliver_packages_all:
  assumes "valid_ranges c" "\<forall>n. ok n = (True, True)" "\<forall>p\<in>set pks. sensor_id p = 1 \<or> sensor_id p = 3"
  shows "deliver_packages c ok pks out = out @ map (\<lambda>p. the (package_event c p)) pks"
  using assms(3)
proof (induction pks arbitrary: out)
  case Nil
  then show ?case by simp
next
  case (Cons p pks)
  with package_event_fields [OF assms(1), of p] obtain ev where "package_event c p = Some ev" by auto
  with Cons assms(2) show ?case by (simp add: sensord_deliver_event_def)
qed

definition acc_event :: "sensord_cfg \<Rightarrow> hw_data \<Rightarrow> sensors_event" where
  "acc_event c d = the (package_event c (acc_package d))"

definition gyr_event :: "sensord_cfg \<Rightarrow> hw_data \<Rightarrow> sensors_event" where
  "gyr_event c d = the (package_event c (gyr_package d))"

lemma filter_map_events:
  assumes "valid_ranges c" "\<forall>p\<in>set pks. sensor_id p = 1 \<or> sensor_id p = 3"
  shows "filter (\<lambda>e. ev_type e = 1) (map (\<lambda>p. the (package_event c p)) pks) =
      map (\<lambda>p. the (package_event c p)) (filter (\<lambda>p. sensor_id p = 1) pks)"
    "filter (\<lambda>e. ev_type e = 16) (map (\<lambda>p. the (package_event c p)) pks) =
      map (\<lambda>p. the (package_event c p)) (filter (\<lambda>p. sensor_id p = 3) pks)"
    "map ev_timestamp (map (\<lambda>p. the (package_event c p)) pks) = map time_stamp pks"
  using assms(2)
proof (induction pks)
  case (Cons p pks)
  {
    case 1
    with Cons package_event_fields [OF assms(1), of p] show ?case by auto
  next
    case 2
    with Cons package_event_fields [OF assms(1), of p] show ?case by auto
  next
    case 3
    with Cons package_event_fields [OF assms(1), of p] show ?case by auto
  }
qed simp_all

text \<open>C21: When its allocations and writes succeed, sensord_algo_process appends one event per
  queued sample to the HAL pipe, in time order, accelerometer and gyroscope samples each
  in their own order, and leaves both lists empty without losing a sample.\<close>

theorem sensord_algo_process_delivers:
  assumes "valid_ranges c" "all_ok al"
    and "acc = items (tmplist_sensord_acclraw s)" "gyr = items (tmplist_sensord_gyroraw s)"
    and "time_sorted acc" "time_sorted gyr"
  shows "\<exists>s' evs. sensord_algo_process c al (s, HALpipe) = Some (s', HALpipe @ evs) \<and>
    filter (\<lambda>e. ev_type e = SENSOR_TYPE_ACCELEROMETER) evs = map (acc_event c) acc \<and>
    filter (\<lambda>e. ev_type e = SENSOR_TYPE_GYROSCOPE_UNCALIBRATED) evs = map (gyr_event c) gyr \<and>
    length evs = length acc + length gyr \<and> sorted (map ev_timestamp evs) \<and>
    items (tmplist_sensord_acclraw s') = [] \<and> items (tmplist_sensord_gyroraw s') = [] \<and>
    shmem_hwcntl s' = shmem_hwcntl s \<and> lost_samples s' = lost_samples s"
proof -
  obtain pks where pks: "input_packages (sort_input_samples acc gyr) acc gyr = Some pks"
    "filter (\<lambda>p. sensor_id p = 1) pks = map acc_package acc"
    "filter (\<lambda>p. sensor_id p = 3) pks = map gyr_package gyr"
    "length pks = length acc + length gyr"
    using sort_input_samples_aligned [of acc gyr] by (auto simp: aligned_def split: option.splits)
  have ids: "\<forall>p\<in>set pks. sensor_id p = 1 \<or> sensor_id p = 3"
    using input_packages_ids [OF pks(1)] by blast
  let ?evs = "map (\<lambda>p. the (package_event c p)) pks"
  note evs = filter_map_events [OF assms(1) ids]
  have out: "deliver_packages c (event_ok al) pks HALpipe = HALpipe @ ?evs"
    using assms(2) by (intro deliver_packages_all [OF assms(1) _ ids]) (simp add: all_ok_def)
  have facts: "filter (\<lambda>e. ev_type e = 1) ?evs = map (acc_event c) acc"
    "filter (\<lambda>e. ev_type e = 16) ?evs = map (gyr_event c) gyr"
    "length ?evs = length acc + length gyr" "sorted (map ev_timestamp ?evs)"
    unfolding evs pks(2,3) using pks(4) sort_input_samples_time_order [OF assms(5,6) pks(1)]
    by (simp_all add: acc_event_def gyr_event_def)
  show ?thesis
  proof (cases "length acc + length gyr = 0")
    case True
    then have "acc = []" "gyr = []" "pks = []" using pks(4) by auto
    moreover have "sensord_algo_process c al (s, HALpipe) = Some (s, HALpipe)"
      using True by (simp add: sensord_algo_process_def assms(3,4))
    ultimately show ?thesis using assms(3,4) by auto
  next
    case False
    let ?s = "s\<lparr>tmplist_sensord_acclraw := (tmplist_sensord_acclraw s)\<lparr>items := []\<rparr>,
      tmplist_sensord_gyroraw := (tmplist_sensord_gyroraw s)\<lparr>items := []\<rparr>\<rparr>"
    have "sensord_algo_process c al (s, HALpipe) = Some (?s, HALpipe @ ?evs)"
      using False assms(2) pks(1) out
      by (auto simp add: sensord_algo_process_def all_ok_def Let_def simp flip: assms(3,4))
    with facts show ?thesis by (intro exI [of _ ?s] exI [of _ ?evs] conjI) simp_all
  qed
qed

lemma sensord_algo_process_delivers_witness:
  "\<exists>s' evs. sensord_algo_process default_cfg \<lparr>malloc_acc = True, malloc_gyr = True,
      calloc_align = True, event_ok = (\<lambda>n. (True, True))\<rparr>
      (pipeline_start\<lparr>tmplist_sensord_acclraw := new_queue\<lparr>items := [sample_at 1 10]\<rparr>,
        tmplist_sensord_gyroraw := new_queue\<lparr>items := [sample_at 16 5]\<rparr>\<rparr>, []) = Some (s', evs) \<and>
    length evs = 2 \<and> sorted (map ev_timestamp evs)"
proof -
  have r: "valid_ranges default_cfg" "all_ok \<lparr>malloc_acc = True, malloc_gyr = True,
      calloc_align = True, event_ok = (\<lambda>n. (True, True))\<rparr>"
    "time_sorted [sample_at 1 10]" "time_sorted [sample_at 16 5]"
    by (simp_all add: valid_ranges_def default_cfg_def all_ok_def time_sorted_def sample_at_def)
  from sensord_algo_process_delivers [OF r(1,2) _ _ r(3,4), of "pipeline_start\<lparr>
      tmplist_sensord_acclraw := new_queue\<lparr>items := [sample_at 1 10]\<rparr>,
      tmplist_sensord_gyroraw := new_queue\<lparr>items := [sample_at 16 5]\<rparr>\<rparr>" "[]"]
  show ?thesis by fastforce
qed

section \<open>The scale of the events\<close>

lemma scale_value_error:
  assumes "\<bar>v\<bar> \<le> 32768" "0 \<le> c" "\<bar>c - e\<bar> \<le> e / 2 ^ 23"
  shows "\<bar>scale_value c v - of_int v * e\<bar> \<le> \<bar>of_int v\<bar> * e / 2 ^ 22"
proof -
  have e0: "0 \<le> e" using order_trans [OF abs_ge_zero assms(3)] by simp
  have exact: "f32 (of_int v) = of_int v"
    using assms(1) by (intro fl_of_int) simp_all
  have one: "\<bar>scale_value c v - of_int v * c\<bar> \<le> \<bar>of_int v\<bar> * c / 2 ^ 24"
    using fl_error [of 24 "of_int v * c"] assms(2) unfolding scale_value_def exact
    by (simp add: abs_mult)
  have two: "\<bar>of_int v * c - of_int v * e\<bar> \<le> \<bar>of_int v\<bar> * (e / 2 ^ 23)"
    using mult_left_mono [OF assms(3), of "\<bar>of_int v\<bar>"]
    by (simp add: abs_mult [symmetric] right_diff_distrib)
  have "c \<le> e + e / 2 ^ 23" using assms(3) by linarith
  then have "c \<le> 2 * e" using e0 by simp
  then have "\<bar>of_int v\<bar> * c / 2 ^ 24 \<le> \<bar>of_int v\<bar> * (e / 2 ^ 23)"
    using mult_left_mono [of c "2 * e" "\<bar>of_int v\<bar>"] by (simp add: field_simps)
  with one two have "\<bar>scale_value c v - of_int v * e\<bar> \<le> 2 * (\<bar>of_int v\<bar> * (e / 2 ^ 23))"
    by linarith
  then show ?thesis by (simp add: field_simps)
qed

lemma convert_acc_values:
  "convert_acc 2 = Some (f32 (f64 (ACC_VALUE_PER_BIT * 2)))"
  "convert_acc 4 = Some (f32 (f64 (ACC_VALUE_PER_BIT * 4)))"
  "convert_acc 8 = Some (f32 (f64 (ACC_VALUE_PER_BIT * 8)))"
  "convert_acc 16 = Some (f32 (f64 (ACC_VALUE_PER_BIT * 16)))"
  by (simp_all add: convert_acc_def)

lemma acc_factor_error:
  "rng \<in> {2, 4, 8, 16} \<Longrightarrow> \<exists>c. convert_acc rng = Some c \<and> 0 \<le> c \<and>
    \<bar>c - 981 / 100 / 32767 * of_int rng\<bar> \<le> 981 / 100 / 32767 * of_int rng / 2 ^ 23"
proof -
  have "0 \<le> f32 (f64 (ACC_VALUE_PER_BIT * 2)) \<and> \<bar>f32 (f64 (ACC_VALUE_PER_BIT * 2)) - 981 / 100 / 32767 * 2\<bar>
      \<le> 981 / 100 / 32767 * 2 / 2 ^ 23"
    by code_simp
  moreover have "0 \<le> f32 (f64 (ACC_VALUE_PER_BIT * 4)) \<and> \<bar>f32 (f64 (ACC_VALUE_PER_BIT * 4)) - 981 / 100 / 32767 * 4\<bar>
      \<le> 981 / 100 / 32767 * 4 / 2 ^ 23"
    by code_simp
  moreover have "0 \<le> f32 (f64 (ACC_VALUE_PER_BIT * 8)) \<and> \<bar>f32 (f64 (ACC_VALUE_PER_BIT * 8)) - 981 / 100 / 32767 * 8\<bar>
      \<le> 981 / 100 / 32767 * 8 / 2 ^ 23"
    by code_simp
  moreover have "0 \<le> f32 (f64 (ACC_VALUE_PER_BIT * 16)) \<and> \<bar>f32 (f64 (ACC_VALUE_PER_BIT * 16)) - 981 / 100 / 32767 * 16\<bar>
      \<le> 981 / 100 / 32767 * 16 / 2 ^ 23"
    by code_simp
  ultimately show "rng \<in> {2, 4, 8, 16} \<Longrightarrow> \<exists>c. convert_acc rng = Some c \<and> 0 \<le> c \<and>
    \<bar>c - 981 / 100 / 32767 * of_int rng\<bar> \<le> 981 / 100 / 32767 * of_int rng / 2 ^ 23"
    using convert_acc_values by auto
qed

definition near :: "rat \<Rightarrow> int \<Rightarrow> rat \<Rightarrow> bool" where
  "near value' v unit \<longleftrightarrow> \<bar>value' - of_int v * unit\<bar> \<le> \<bar>of_int v\<bar> * unit / 2 ^ 22"

lemma f_to_int_of_int [simp]: "f_to_int (of_int v) = v"
  by (simp add: f_to_int_def)

lemma raw_exact: "\<bar>v\<bar> \<le> 32768 \<Longrightarrow> f32 (of_int v) = of_int v"
  by (rule fl_of_int) simp_all

text \<open>C39: An accelerometer event of a 16-bit sample carries raw * 9.81 * range / 32767 on
  each axis with a relative error of at most 2^-22, through two double and two float
  roundings.\<close>

theorem acc_event_scale:
  assumes "accl_range c \<in> {2, 4, 8, 16}" "\<bar>x\<bar> \<le> 32768" "\<bar>y\<bar> \<le> 32768" "\<bar>z\<bar> \<le> 32768"
  shows "\<exists>x' y' z'. ev_data (acc_event c (acc_sample (x, y, z) t)) = Floats [x', y', z', 0, 0, 0] \<and>
    near x' x (981 / 100 / 32767 * of_int (accl_range c)) \<and>
    near y' y (981 / 100 / 32767 * of_int (accl_range c)) \<and>
    near z' z (981 / 100 / 32767 * of_int (accl_range c))"
proof -
  obtain f where f: "convert_acc (accl_range c) = Some f" "0 \<le> f"
    "\<bar>f - 981 / 100 / 32767 * of_int (accl_range c)\<bar>
      \<le> 981 / 100 / 32767 * of_int (accl_range c) / 2 ^ 23"
    using acc_factor_error [OF assms(1)] by blast
  have "ev_data (acc_event c (acc_sample (x, y, z) t)) =
      Floats [scale_value f x, scale_value f y, scale_value f z, 0, 0, 0]"
    using f(1) assms(2-4)
    by (simp add: acc_event_def package_event_def acc_package_def acc_sample_def scale3_def raw_exact)
  then show ?thesis
    unfolding near_def using scale_value_error [OF _ f(2,3)] assms(2-4) by blast
qed

lemma acc_event_scale_witness:
  "\<exists>x' y' z'. ev_data (acc_event default_cfg (acc_sample (100, -200, 2048) 5)) =
      Floats [x', y', z', 0, 0, 0] \<and> near z' 2048 (981 / 100 / 32767 * 16)"
  using acc_event_scale [of default_cfg 100 "-200" 2048 5] by (auto simp: default_cfg_def)

text \<open>A full-scale accelerometer event at 16 g exceeds the maxRange that the sensor list
  advertises, because the event scale uses 9.81 and the list 9.80665.\<close>

theorem acc_full_scale_exceeds_maxRange:
  "st_maxRange (set_accl_ranges 16 bosch_all_sensors ! nat SENSORLIST_INX_ACCELEROMETER)
     < scale_value (the (convert_acc 16)) 32767"
proof -
  have "st_maxRange (set_accl_ranges 16 bosch_all_sensors ! 1) = f32 (16 * GRAVITY_EARTH)"
    using bosch_all_sensors_length by (simp add: set_accl_ranges_def set_maxRange_def)
  moreover have "f32 (16 * GRAVITY_EARTH) < scale_value (the (convert_acc 16)) 32767"
    by code_simp
  ultimately show ?thesis by simp
qed

section \<open>Conservation of samples\<close>

text \<open>The samples that the polling loop creates, in order.\<close>

fun poll_created ::
    "(int \<times> int \<times> int \<Rightarrow> int \<Rightarrow> hw_data option) \<Rightarrow> read_event list \<Rightarrow>
     int option \<times> int option \<times> int option \<Rightarrow> hw_data list option"
where
  "poll_created sample [] xyz = Some []"
| "poll_created sample (r # rs) xyz =
     (if 100 \<le> length (re_data r) then None
      else do {
        xyz' \<leftarrow> sysfs_extract_numbers (re_data r @ [CHR 0x00]) xyz;
        v \<leftarrow> initialised xyz';
        ds \<leftarrow> poll_created sample rs xyz';
        if \<not> re_calloc r then Some ds
        else do {
          d \<leftarrow> sample v (re_time r);
          Some (d # ds)
        }
      })"

lemma store_sample_conserves:
  assumes "bq_inv q" "store_sample node_ok d q = (lost, q')"
  shows "bq_inv q'" "mset lost + mset (items q') = mset (items q) + {#d#}"
  using assms
  by (cases "items q"; auto simp: store_sample_def queue_add_def bq_add_def bq_inv_def split: if_splits)+

lemma poll_loop_conserves:
  assumes "bq_inv q" "poll_loop sample rs xyz q = Some (lost, q')"
  shows "bq_inv q' \<and> (\<exists>ds. poll_created sample rs xyz = Some ds \<and>
    mset lost + mset (items q') = mset (items q) + mset ds)"
  using assms
proof (induction rs arbitrary: xyz q lost)
  case Nil
  then show ?case by simp
next
  case (Cons r rs)
  from Cons.prems(2) obtain xyz' v where step: "\<not> 100 \<le> length (re_data r)"
    "sysfs_extract_numbers (re_data r @ [CHR 0x00]) xyz = Some xyz'" "initialised xyz' = Some v"
    by (auto split: if_split_asm bind_splits)
  show ?case
  proof (cases "re_calloc r")
    case False
    with Cons step show ?thesis by auto
  next
    case True
    with Cons.prems(2) step obtain d where d: "sample v (re_time r) = Some d"
      by (auto split: bind_splits)
    obtain lost1 q1 where st: "store_sample (re_node r) d q = (lost1, q1)" by fastforce
    with Cons.prems(2) step True d obtain lost2 where
      rest: "poll_loop sample rs xyz' q1 = Some (lost2, q')" "lost = lost1 @ lost2"
      by (auto split: bind_splits)
    note keep = store_sample_conserves [OF Cons.prems(1) st]
    from Cons.IH [OF keep(1) rest(1)] obtain ds where ds: "bq_inv q'"
      "poll_created sample rs xyz' = Some ds"
      "mset lost2 + mset (items q') = mset (items q1) + mset ds" by blast
    have "mset lost + mset (items q') = mset lost1 + (mset (items q1) + mset ds)"
      using ds(3) by (simp add: rest(2) add.assoc)
    also have "\<dots> = mset (items q) + mset (d # ds)"
      using keep(2) by (simp add: add.assoc [symmetric])
    finally show ?thesis using ds(1,2) step True d by simp
  qed
qed

definition pipeline_queues :: "pipeline \<Rightarrow> hw_data bqueue list" where
  "pipeline_queues s = [tmplist_hwcntl_acclraw s, tmplist_hwcntl_gyroraw s, shmem_hwcntl s,
     tmplist_sensord_acclraw s, tmplist_sensord_gyroraw s]"

definition pipeline_inv :: "pipeline \<Rightarrow> bool" where
  "pipeline_inv s \<longleftrightarrow> (\<forall>q\<in>set (pipeline_queues s). bq_inv q)"

definition all_samples :: "pipeline \<Rightarrow> hw_data multiset" where
  "all_samples s = (\<Sum>q\<leftarrow>pipeline_queues s. mset (items q)) + mset (lost_samples s)"

lemmas pipeline_defs = pipeline_queues_def pipeline_inv_def all_samples_def

lemma bq_mount_conserves:
  assumes "bq_inv q" "bq_mount q m = (r, lost, q', m')"
  shows "bq_inv q'" "mset lost + mset (items q') = mset (items q) + mset (items m)"
    "items m' = []" "limit m' = limit m"
proof -
  let ?n = "length (items q @ items m) - limit q"
  have "mset (take ?n (items q @ items m)) + mset (drop ?n (items q @ items m)) =
      mset (items q @ items m)"
    by (simp only: mset_append [symmetric] append_take_drop_id)
  then show "mset lost + mset (items q') = mset (items q) + mset (items m)"
    using assms(2) by (auto simp: bq_mount_def Let_def)
qed (use assms in \<open>auto simp: bq_mount_def Let_def bq_inv_def\<close>)

lemma hand_over_conserves:
  assumes "pipeline_inv s"
  shows "pipeline_inv (hand_over s) \<and> all_samples (hand_over s) = all_samples s"
proof -
  obtain r1 l1 sh1 acc where m1: "bq_mount (shmem_hwcntl s) (tmplist_hwcntl_acclraw s) =
    (r1, l1, sh1, acc)" by (cases "bq_mount (shmem_hwcntl s) (tmplist_hwcntl_acclraw s)")
  obtain r2 l2 sh2 gyr where m2: "bq_mount sh1 (tmplist_hwcntl_gyroraw s) = (r2, l2, sh2, gyr)"
    by (cases "bq_mount sh1 (tmplist_hwcntl_gyroraw s)")
  have inv: "bq_inv (shmem_hwcntl s)" using assms by (simp add: pipeline_defs)
  note k1 = bq_mount_conserves [OF inv m1] and k2 = bq_mount_conserves [OF _ m2]
  have "mset l1 + mset l2 + mset (items sh2) =
      mset (items (shmem_hwcntl s)) + mset (items (tmplist_hwcntl_acclraw s)) +
      mset (items (tmplist_hwcntl_gyroraw s))"
    using k1(2) k2(2) [OF k1(1)] by (simp add: ac_simps)
  moreover have "bq_inv acc" "bq_inv gyr"
    using assms k1(3,4) k2(3,4) [OF k1(1)] by (auto simp: pipeline_defs bq_inv_def)
  ultimately show ?thesis
    using assms k1 k2 [OF k1(1)]
    by (simp add: hand_over_def m1 m2 pipeline_defs ac_simps)
qed

lemma distribute_conserves:
  assumes "pipeline_inv s" "items (shmem_hwcntl s) = ds"
  shows "pipeline_inv (distribute node_ok ds s) \<and>
    all_samples (distribute node_ok ds s) = all_samples s \<and>
    items (shmem_hwcntl (distribute node_ok ds s)) = []"
  using assms
proof (induction ds arbitrary: s)
  case Nil
  then show ?case by simp
next
  case (Cons d ds)
  obtain la qa where a: "store_sample (node_ok (length ds)) d (tmplist_sensord_acclraw s) = (la, qa)"
    by fastforce
  obtain lg qg where g: "store_sample (node_ok (length ds)) d (tmplist_sensord_gyroraw s) = (lg, qg)"
    by fastforce
  have inv: "bq_inv (tmplist_sensord_acclraw s)" "bq_inv (tmplist_sensord_gyroraw s)"
    "bq_inv ((shmem_hwcntl s)\<lparr>items := ds\<rparr>)"
    using Cons.prems by (auto simp: pipeline_defs bq_inv_def)
  note ka = store_sample_conserves [OF inv(1) a] and kg = store_sample_conserves [OF inv(2) g]
  let ?s = "s\<lparr>shmem_hwcntl := (shmem_hwcntl s)\<lparr>items := ds\<rparr>\<rparr>"
  let ?sa = "?s\<lparr>tmplist_sensord_acclraw := qa, lost_samples := lost_samples s @ la\<rparr>"
  let ?sg = "?s\<lparr>tmplist_sensord_gyroraw := qg, lost_samples := lost_samples s @ lg\<rparr>"
  let ?sl = "?s\<lparr>lost_samples := lost_samples s @ [d]\<rparr>"
  have A: "pipeline_inv ?sa" "all_samples ?sa = all_samples s"
    using Cons.prems inv ka by (auto simp: pipeline_defs ac_simps)
  have G: "pipeline_inv ?sg" "all_samples ?sg = all_samples s"
    using Cons.prems inv kg by (auto simp: pipeline_defs ac_simps)
  have L: "pipeline_inv ?sl" "all_samples ?sl = all_samples s"
    using Cons.prems inv by (auto simp: pipeline_defs ac_simps)
  show ?case
    using Cons.IH [of ?sa] Cons.IH [of ?sg] Cons.IH [of ?sl] A G L a g by (simp add: Let_def)
qed

lemma read_rawdata_conserves:
  assumes "pipeline_inv s"
  shows "pipeline_inv (sensord_read_rawdata w ok s) \<and>
    all_samples (sensord_read_rawdata w ok s) = all_samples s"
  using distribute_conserves [OF assms refl] assms by (simp add: sensord_read_rawdata_def)

definition new_samples :: "int \<Rightarrow> read_event list \<Rightarrow> read_event list \<Rightarrow> hw_data multiset" where
  "new_samples place acc_reads gyr_reads =
     mset (the (poll_created (\<lambda>v t. Some (acc_sample v t)) acc_reads (None, None, None))) +
     mset (the (poll_created (gyr_sample place) gyr_reads (None, None, None)))"

lemma deliver_sensordata_conserves:
  assumes "pipeline_inv s" "IMU_hw_deliver_sensordata place acc_reads gyr_reads s = Some s'"
  shows "pipeline_inv s' \<and> all_samples s' = all_samples s + new_samples place acc_reads gyr_reads"
proof -
  obtain l1 acc l2 gyr where
    a: "ap_hw_poll_smi240acc acc_reads (tmplist_hwcntl_acclraw s) = Some (l1, acc)"
    and g: "ap_hw_poll_smi240gyro place gyr_reads (tmplist_hwcntl_gyroraw s) = Some (l2, gyr)"
    and s': "s' = hand_over (s\<lparr> tmplist_hwcntl_acclraw := acc, tmplist_hwcntl_gyroraw := gyr,
       lost_samples := lost_samples s @ l1 @ l2 \<rparr>)"
    using assms(2) by (auto simp: IMU_hw_deliver_sensordata_def split: bind_splits)
  have inv: "bq_inv (tmplist_hwcntl_acclraw s)" "bq_inv (tmplist_hwcntl_gyroraw s)"
    using assms(1) by (simp_all add: pipeline_defs)
  note ka = poll_loop_conserves [OF inv(1) a [unfolded ap_hw_poll_smi240acc_def]]
    and kg = poll_loop_conserves [OF inv(2) g [unfolded ap_hw_poll_smi240gyro_def]]
  let ?s = "s\<lparr> tmplist_hwcntl_acclraw := acc, tmplist_hwcntl_gyroraw := gyr,
    lost_samples := lost_samples s @ l1 @ l2 \<rparr>"
  have "pipeline_inv ?s"
    using assms(1) ka kg by (auto simp: pipeline_defs)
  moreover have "all_samples ?s = all_samples s + new_samples place acc_reads gyr_reads"
  proof -
    let ?rest = "mset (items (shmem_hwcntl s)) + mset (items (tmplist_sensord_acclraw s)) +
      mset (items (tmplist_sensord_gyroraw s)) + mset (lost_samples s)"
    from ka kg obtain da dg where
      da: "poll_created (\<lambda>v t. Some (acc_sample v t)) acc_reads (None, None, None) = Some da"
        "mset l1 + mset (items acc) = mset (items (tmplist_hwcntl_acclraw s)) + mset da"
      and dg: "poll_created (gyr_sample place) gyr_reads (None, None, None) = Some dg"
        "mset l2 + mset (items gyr) = mset (items (tmplist_hwcntl_gyroraw s)) + mset dg"
      by blast
    have "all_samples ?s = (mset l1 + mset (items acc)) + (mset l2 + mset (items gyr)) + ?rest"
      by (simp add: pipeline_defs ac_simps)
    also have "\<dots> = all_samples s + (mset da + mset dg)"
      unfolding da(2) dg(2) by (simp add: pipeline_defs ac_simps)
    finally show ?thesis by (simp add: new_samples_def da(1) dg(1))
  qed
  ultimately show ?thesis using hand_over_conserves [of ?s] s' by simp
qed

text \<open>The samples that one call of \<open>sensord_algo_process\<close> turns into packages.\<close>

definition packaged :: "algo_allocs \<Rightarrow> pipeline \<Rightarrow> hw_data multiset" where
  "packaged al s =
     (let acc = items (tmplist_sensord_acclraw s); gyr = items (tmplist_sensord_gyroraw s) in
      if (acc \<noteq> [] \<longrightarrow> malloc_acc al) \<and> (gyr \<noteq> [] \<longrightarrow> malloc_gyr al) \<and> calloc_align al
      then mset acc + mset gyr else {#})"

lemma algo_process_conserves:
  assumes "pipeline_inv s"
  shows "\<exists>s' out'. sensord_algo_process c al (s, out) = Some (s', out') \<and> pipeline_inv s' \<and>
    all_samples s' + packaged al s = all_samples s"
proof -
  let ?acc = "items (tmplist_sensord_acclraw s)" and ?gyr = "items (tmplist_sensord_gyroraw s)"
  obtain pks where pks: "input_packages (sort_input_samples ?acc ?gyr) ?acc ?gyr = Some pks"
    using sort_input_samples_aligned [of ?acc ?gyr] by (auto simp: aligned_def split: option.splits)
  have inv: "bq_inv (tmplist_sensord_acclraw s)" "bq_inv (tmplist_sensord_gyroraw s)"
    using assms by (simp_all add: pipeline_defs)
  then have inv': "bq_inv ((tmplist_sensord_acclraw s)\<lparr>items := []\<rparr>)"
    "bq_inv ((tmplist_sensord_gyroraw s)\<lparr>items := []\<rparr>)"
    by (simp_all add: bq_inv_def)
  let ?sa = "s\<lparr>tmplist_sensord_acclraw := (tmplist_sensord_acclraw s)\<lparr>items := []\<rparr>\<rparr>"
  let ?sb = "?sa\<lparr>tmplist_sensord_gyroraw := (tmplist_sensord_gyroraw s)\<lparr>items := []\<rparr>\<rparr>"
  let ?s1 = "?sa\<lparr>lost_samples := lost_samples s @ ?acc\<rparr>"
  let ?s2 = "?sb\<lparr>lost_samples := lost_samples s @ ?acc @ ?gyr\<rparr>"
  have keep: "pipeline_inv ?s1" "pipeline_inv ?s2" "pipeline_inv ?sb"
    "all_samples ?s1 = all_samples s" "all_samples ?s2 = all_samples s"
    "all_samples ?sb + (mset ?acc + mset ?gyr) = all_samples s"
    using assms inv' by (simp_all add: pipeline_defs ac_simps)
  consider "length ?acc + length ?gyr = 0" | "length ?acc + length ?gyr \<noteq> 0" "?acc \<noteq> [] \<and> \<not> malloc_acc al"
    | "length ?acc + length ?gyr \<noteq> 0" "\<not> (?acc \<noteq> [] \<and> \<not> malloc_acc al)" "?gyr \<noteq> [] \<and> \<not> malloc_gyr al"
    | "length ?acc + length ?gyr \<noteq> 0" "\<not> (?acc \<noteq> [] \<and> \<not> malloc_acc al)"
      "\<not> (?gyr \<noteq> [] \<and> \<not> malloc_gyr al)" "\<not> calloc_align al"
    | "length ?acc + length ?gyr \<noteq> 0" "\<not> (?acc \<noteq> [] \<and> \<not> malloc_acc al)"
      "\<not> (?gyr \<noteq> [] \<and> \<not> malloc_gyr al)" "calloc_align al" by blast
  then show ?thesis
  proof cases
    case 1
    then show ?thesis using assms by (simp add: sensord_algo_process_def packaged_def)
  next
    case 2
    then show ?thesis using assms by (simp add: sensord_algo_process_def packaged_def)
  next
    case 3
    then have "sensord_algo_process c al (s, out) = Some (?s1, out)" "packaged al s = {#}"
      unfolding sensord_algo_process_def packaged_def Let_def by auto
    then show ?thesis using keep by simp
  next
    case 4
    then have "sensord_algo_process c al (s, out) = Some (?s2, out)" "packaged al s = {#}"
      unfolding sensord_algo_process_def packaged_def Let_def by auto
    then show ?thesis using keep by simp
  next
    case 5
    then have "sensord_algo_process c al (s, out) = Some (?sb, deliver_packages c (event_ok al) pks out)"
      "packaged al s = mset ?acc + mset ?gyr"
      unfolding sensord_algo_process_def packaged_def Let_def using pks by auto
    then show ?thesis using keep by simp
  qed
qed

text \<open>Runs of the two threads: any interleaving of polling, distribution and delivery.\<close>

inductive sample_run :: "hw_data multiset \<Rightarrow> hw_data multiset \<Rightarrow> pipeline \<Rightarrow> sensors_event list \<Rightarrow> bool"
where
  start: "sample_run {#} {#} pipeline_start []"
| poll: "sample_run made delivered s out \<Longrightarrow>
    IMU_hw_deliver_sensordata place acc_reads gyr_reads s = Some s' \<Longrightarrow>
    sample_run (made + new_samples place acc_reads gyr_reads) delivered s' out"
| read: "sample_run made delivered s out \<Longrightarrow>
    sample_run made delivered (sensord_read_rawdata wait_ok node_ok s) out"
| process: "sample_run made delivered s out \<Longrightarrow>
    sensord_algo_process c al (s, out) = Some (s', out') \<Longrightarrow>
    sample_run made (delivered + packaged al s) s' out'"

lemma sample_run_inv:
  "sample_run made delivered s out \<Longrightarrow> pipeline_inv s \<and> made = delivered + all_samples s"
proof (induction rule: sample_run.induct)
  case start
  show ?case by (simp add: pipeline_defs pipeline_start_def new_queue_def bq_inv_def)
next
  case (poll made delivered s out place acc_reads gyr_reads s')
  then show ?case
    using deliver_sensordata_conserves [of s place acc_reads gyr_reads s'] by (simp add: add.assoc)
next
  case (read made delivered s out wait_ok node_ok)
  then show ?case using read_rawdata_conserves [of s wait_ok node_ok] by simp
next
  case (process made delivered s out c al s' out')
  then have inv: "pipeline_inv s" "made = delivered + all_samples s" by simp_all
  have "pipeline_inv s'" "all_samples s' + packaged al s = all_samples s"
    using algo_process_conserves [OF inv(1), of c al out] process(2) by auto
  then show ?case unfolding inv(2) by (metis add.assoc add.commute)
qed


definition one_read :: read_event where
  "one_read = \<lparr>re_data = ''1 -2 3'', re_time = 7, re_calloc = True, re_node = True\<rparr>"


end
