(* ===== verification/Bosch_Hal.thy ===== *)
theory Bosch_Hal
  imports Sample_Pipeline
begin

text \<open>
  The C interface of the legacy HAL: the \<open>BoschSensor\<close> object of \<open>legacy/hal/BoschSensor.cpp\<close>,
  whose operations go through function pointers that are NULL until \<open>hwcntl_init\<close> has run, and
  the poll device of \<open>legacy/hal/sensors.cpp\<close>.  \<open>pollEvents\<close> runs against a script of what the
  kernel's \<open>poll\<close> does; \<open>None\<close> means that it waits for ever.  The results: the device hands out
  exactly the events of the pipe, in order, never more than asked for and never none.
\<close>

section \<open>The object\<close>

record bosch_sensor =
  ap :: ap_state
  pfun_set :: bool
  pfun_deliver :: bool
  hwcntl_thread :: bool
  lists :: "pipeline option"
  HALpipe :: "sensors_event list"

text \<open>The constructor: without a pipe nothing else is set up; when \<open>hwcntl_init\<close> fails the
  polling thread is not created.  Without \<open>pfun_hw_deliver_sensordata\<close> its body ends at once.\<close>

definition new_BoschSensor :: "bool \<Rightarrow> int \<Rightarrow> int \<Rightarrow> ap_state \<Rightarrow> bosch_sensor" where
  "new_BoschSensor pipe_ok acc_opened gyr_opened s =
     (if \<not> pipe_ok then \<lparr> ap = s, pfun_set = False, pfun_deliver = False,
       hwcntl_thread = False, lists = None, HALpipe = [] \<rparr>
      else case hwcntl_init acc_opened gyr_opened s of (ret, deliver, s') \<Rightarrow>
        \<lparr> ap = s', pfun_set = True, pfun_deliver = deliver, hwcntl_thread = (ret = 0),
          lists = Some pipeline_start, HALpipe = [] \<rparr>)"

definition bs_get_sensorlist :: "bool \<Rightarrow> bool \<Rightarrow> bosch_sensor \<Rightarrow> (u32 \<times> bosch_sensor) option" where
  "bs_get_sensorlist malloc1 malloc2 b =
     (if pfun_set b then do {
        (n, s) \<leftarrow> ap_get_sensorlist malloc1 malloc2 (ap b);
        Some (n, b\<lparr>ap := s\<rparr>)
      }
      else Some (0, b))"

definition bs_activate :: "int \<Rightarrow> int \<Rightarrow> bosch_sensor \<Rightarrow> (int \<times> bosch_sensor) option" where
  "bs_activate handle enabled b =
     (if pfun_set b then do {
        (ret, s) \<leftarrow> ap_activate handle enabled (ap b);
        Some (ret, b\<lparr>ap := s\<rparr>)
      }
      else Some (0, b))"

definition bs_batch :: "int \<Rightarrow> int \<Rightarrow> int \<Rightarrow> int \<Rightarrow> bosch_sensor \<Rightarrow> (int \<times> bosch_sensor) option" where
  "bs_batch handle flags period latency b =
     (if pfun_set b then do {
        (ret, s) \<leftarrow> ap_batch handle flags period latency (ap b);
        Some (ret, b\<lparr>ap := s\<rparr>)
      }
      else Some (0, b))"

definition bs_setDelay :: "int \<Rightarrow> int \<Rightarrow> bosch_sensor \<Rightarrow> (int \<times> bosch_sensor) option" where
  "bs_setDelay handle ns b = bs_batch handle 0 ns 0 b"

text \<open>\<open>flush\<close> sends its event through \<open>send_flush_event\<close>, whose answer is ignored.\<close>

definition bs_flush :: "bool \<Rightarrow> bool \<Rightarrow> int \<Rightarrow> bosch_sensor \<Rightarrow> int \<times> bosch_sensor" where
  "bs_flush calloc_ok write_ok handle b =
     (if pfun_set b then
        case ap_flush handle (ap b) of
          (ret, None) \<Rightarrow> (ret, b)
        | (ret, Some h) \<Rightarrow> (ret, b\<lparr>HALpipe := snd (send_flush_event calloc_ok write_ok h (HALpipe b))\<rparr>)
      else (0, b))"

text \<open>The read end of the pipe does not block: an empty pipe is an error, answered 0.  Writers
  store whole events.\<close>

definition read_events :: "nat \<Rightarrow> sensors_event list \<Rightarrow> sensors_event list \<times> sensors_event list" where
  "read_events room pipe = (take room pipe, drop room pipe)"

section \<open>The poll device\<close>

text \<open>What one call of \<open>poll\<close> meets: events that have arrived, a signal, or an error.\<close>

datatype poll_input = Arrive "sensors_event list" | Interrupted | Poll_error int

text \<open>The inner loop \<open>do n = poll (...) while (n < 0 && errno == EINTR)\<close>.  The answer is the
  error or \<open>n\<close>, the pipe and the rest of the script.  With a timeout of 0 the call
  returns at once; without one it waits for the next input.\<close>

fun poll_wait ::
    "bool \<Rightarrow> poll_input list \<Rightarrow> sensors_event list \<Rightarrow>
      ((int + bool) \<times> sensors_event list \<times> poll_input list) option" where
  "poll_wait blocking [] pipe =
     (if pipe \<noteq> [] then Some (Inr True, pipe, [])
      else if blocking then None else Some (Inr False, pipe, []))"
| "poll_wait blocking (Interrupted # env) pipe = poll_wait blocking env pipe"
| "poll_wait blocking (Poll_error e # env) pipe = Some (Inl e, pipe, env)"
| "poll_wait blocking (Arrive evs # env) pipe =
     (if pipe @ evs \<noteq> [] then Some (Inr True, pipe @ evs, env)
      else if blocking then poll_wait blocking env pipe
      else Some (Inr False, pipe @ evs, env))"

lemma poll_wait_ready: "poll_wait b env pipe = Some (Inr True, pipe', env') \<Longrightarrow> pipe' \<noteq> []"
  by (induction b env pipe rule: poll_wait.induct) (auto split: if_splits)

text \<open>The outer loop, with \<open>POLLIN\<close> in \<open>revents\<close> as a flag.  The answer is the error or the
  events stored in \<open>data\<close>.\<close>

function poll_events_loop ::
    "poll_input list \<Rightarrow> bool \<Rightarrow> nat \<Rightarrow> sensors_event list \<Rightarrow> sensors_event list \<Rightarrow>
      ((int + sensors_event list) \<times> sensors_event list) option" where
  "poll_events_loop env pollin room data pipe =
     (let (new, pipe1) = (if pollin then read_events room pipe else ([], pipe));
          room1 = room - length new; data1 = data @ new in
      if room1 = 0 then Some (Inr data1, pipe1)
      else case poll_wait (data1 = []) env pipe1 of
        None \<Rightarrow> None
      | Some (Inl e, pipe2, env2) \<Rightarrow> Some (Inl (- e), pipe2)
      | Some (Inr False, pipe2, env2) \<Rightarrow> Some (Inr data1, pipe2)
      | Some (Inr True, pipe2, env2) \<Rightarrow> poll_events_loop env2 True room1 data1 pipe2)"
  by pat_completeness auto

termination poll_events_loop
proof (relation "measure (\<lambda>(env, pollin, room, data, pipe).
    3 * room + (if \<not> pollin then 1 else if pipe = [] then 2 else 0))", goal_cases)
  case (2 env pollin room data pipe x new pipe1 room1 data1 x2 n rest ok pipe2 env2)
  from 2(6-10) have "pipe2 \<noteq> []"
    by (auto dest!: sym [of "(_, _)"] dest: poll_wait_ready)
  moreover have "3 * (room - length (take room pipe)) < 3 * room" if "pipe \<noteq> []" "room \<noteq> 0"
    using that by (cases pipe; cases room) simp_all
  ultimately show ?case
    using 2(1-5) by (cases pollin; cases "pipe = []") (auto simp: read_events_def)
qed simp

declare poll_events_loop.simps [simp del]

definition pollEvents ::
    "poll_input list \<Rightarrow> nat \<Rightarrow> bosch_sensor \<Rightarrow> ((int + sensors_event list) \<times> bosch_sensor) option" where
  "pollEvents env room b = do {
     (r, pipe) \<leftarrow> poll_events_loop env False room [] (HALpipe b);
     Some (r, b\<lparr>HALpipe := pipe\<rparr>)
   }"

section \<open>The events handed out\<close>

fun arrivals :: "poll_input list \<Rightarrow> sensors_event list" where
  "arrivals [] = []"
| "arrivals (Arrive evs # env) = evs @ arrivals env"
| "arrivals (_ # env) = arrivals env"

lemma poll_wait_keeps:
  "poll_wait b env pipe = Some (n, pipe', env') \<Longrightarrow> pipe' @ arrivals env' = pipe @ arrivals env"
  by (induction b env pipe rule: poll_wait.induct) (auto split: if_splits)

lemma poll_wait_empty:
  "poll_wait b env pipe = Some (Inr False, pipe', env') \<Longrightarrow> \<not> b \<and> pipe' = []"
  by (induction b env pipe rule: poll_wait.induct) (auto split: if_splits)

definition poll_result_ok ::
    "nat \<Rightarrow> sensors_event list \<Rightarrow> sensors_event list \<Rightarrow> poll_input list \<Rightarrow>
      ((int + sensors_event list) \<times> sensors_event list) option \<Rightarrow> bool" where
  "poll_result_ok room data pipe env res \<longleftrightarrow>
     (\<forall>out pipe'. res = Some (Inr out, pipe') \<longrightarrow>
        length out \<le> length data + room \<and> (room \<noteq> 0 \<longrightarrow> out \<noteq> []) \<and>
        (\<exists>rest. out @ pipe' @ rest = data @ pipe @ arrivals env) \<and>
        (length out < length data + room \<longrightarrow> pipe' = []))"

lemma read_events_split:
  "read_events room pipe = (new, pipe1) \<Longrightarrow>
   new @ pipe1 = pipe \<and> length new \<le> room \<and> (room \<noteq> 0 \<and> pipe \<noteq> [] \<longrightarrow> new \<noteq> [])"
  by (auto simp: read_events_def)

lemma poll_events_loop_result:
  "poll_result_ok room data pipe env (poll_events_loop env pollin room data pipe)"
proof (induction env pollin room data pipe rule: poll_events_loop.induct)
  case (1 env pollin room data pipe)
  obtain new pipe1 where rd: "(if pollin then read_events room pipe else ([], pipe)) = (new, pipe1)"
    by fastforce
  then have split: "new @ pipe1 = pipe" "length new \<le> room"
    using read_events_split [of room pipe new pipe1] by (auto split: if_splits)
  let ?room1 = "room - length new" and ?data1 = "data @ new"
  show ?case
  proof (cases "?room1 = 0")
    case True
    then have "poll_events_loop env pollin room data pipe = Some (Inr ?data1, pipe1)"
      by (subst poll_events_loop.simps) (simp add: rd)
    with True split show ?thesis by (auto simp: poll_result_ok_def)
  next
    case False
    show ?thesis
    proof (cases "poll_wait (?data1 = []) env pipe1")
      case None
      with False have "poll_events_loop env pollin room data pipe = None"
        by (subst poll_events_loop.simps) (simp add: rd)
      then show ?thesis by (simp add: poll_result_ok_def)
    next
      case (Some w)
      obtain n pipe2 env2 where w: "w = (n, pipe2, env2)" by (cases w)
      note keeps = poll_wait_keeps [OF Some [unfolded w]]
      consider e where "n = Inl e" | "n = Inr False" | "n = Inr True" by (cases n) auto
      then show ?thesis
      proof cases
        case 1
        with False Some w have "poll_events_loop env pollin room data pipe = Some (Inl (- e), pipe2)"
          by (subst poll_events_loop.simps) (simp add: rd)
        then show ?thesis by (simp add: poll_result_ok_def)
      next
        case 2
        with False Some w have run: "poll_events_loop env pollin room data pipe = Some (Inr ?data1, pipe2)"
          by (subst poll_events_loop.simps) (simp add: rd)
        have "?data1 \<noteq> []" "pipe2 = []"
          using poll_wait_empty [of "?data1 = []" env pipe1 pipe2 env2] Some w 2 by auto
        with split keeps show ?thesis
          unfolding run by (auto simp: poll_result_ok_def split(1) [symmetric])
      next
        case 3
        with False Some w have run: "poll_events_loop env pollin room data pipe =
            poll_events_loop env2 True ?room1 ?data1 pipe2"
          by (subst poll_events_loop.simps) (simp add: rd)
        have ih: "poll_result_ok ?room1 ?data1 pipe2 env2
            (poll_events_loop env2 True ?room1 ?data1 pipe2)"
          using 1 [OF rd [symmetric] refl refl refl False, of w n "(pipe2, env2)" True pipe2 env2]
            Some w 3 by simp
        have "?data1 @ pipe2 @ arrivals env2 = data @ pipe @ arrivals env"
          using keeps split(1) by (metis append.assoc)
        moreover have "length ?data1 + ?room1 = length data + room" using split(2) by simp
        ultimately show ?thesis
          using ih False unfolding run poll_result_ok_def by simp
      qed
    qed
  qed
qed

text \<open>C35: pollEvents hands out the events of the pipe in order: at most as many as asked for,
  at least one, and it stops early only when the pipe is empty.\<close>

theorem pollEvents_in_order:
  assumes "pollEvents env room b = Some (Inr out, b')"
  shows "length out \<le> room \<and> (room \<noteq> 0 \<longrightarrow> out \<noteq> []) \<and>
    (\<exists>rest. out @ HALpipe b' @ rest = HALpipe b @ arrivals env) \<and>
    (length out < room \<longrightarrow> HALpipe b' = [])"
  using assms poll_events_loop_result [of room "[]" "HALpipe b" env False]
  by (auto simp: pollEvents_def poll_result_ok_def split: bind_splits)

definition some_event :: sensors_event where
  "some_event = \<lparr> ev_version = 104, ev_sensor = 1, ev_type = 1, ev_timestamp = 5,
     ev_data = Floats [0, 0, 0, 0, 0, 0] \<rparr>"

definition idle_sensor :: bosch_sensor where
  "idle_sensor = new_BoschSensor True 3 4 ap_start"

lemma pollEvents_in_order_witness:
  "\<exists>out b'. pollEvents [Arrive [some_event, some_event]] 1 idle_sensor = Some (Inr out, b') \<and>
     out \<noteq> [] \<and> length out \<le> 1"
proof -
  have "pollEvents [Arrive [some_event, some_event]] 1 idle_sensor =
      Some (Inr [some_event], idle_sensor\<lparr>HALpipe := [some_event]\<rparr>)"
    by (simp add: pollEvents_def idle_sensor_def new_BoschSensor_def hwcntl_init_def ap_start_def
        default_cfg_def ap_hwcntl_init_ACC_def ap_hwcntl_init_GYRO_def
        poll_events_loop.simps read_events_def)
  from pollEvents_in_order [OF this] this show ?thesis by auto
qed

text \<open>Waiting.\<close>

lemma poll_wait_None: "poll_wait b env pipe = None \<Longrightarrow> b \<and> pipe = [] \<and> arrivals env = []"
  by (induction b env pipe rule: poll_wait.induct) (auto split: if_splits)

lemma poll_events_loop_None:
  "poll_events_loop env pollin room data pipe = None \<Longrightarrow> data = [] \<and> pipe @ arrivals env = []"
proof (induction env pollin room data pipe rule: poll_events_loop.induct)
  case (1 env pollin room data pipe)
  obtain new pipe1 where rd: "(if pollin then read_events room pipe else ([], pipe)) = (new, pipe1)"
    by fastforce
  then have split: "new @ pipe1 = pipe"
    using read_events_split [of room pipe new pipe1] by (auto split: if_splits)
  let ?room1 = "room - length new" and ?data1 = "data @ new"
  have unf: "poll_events_loop env pollin room data pipe =
     (if ?room1 = 0 then Some (Inr ?data1, pipe1)
      else case poll_wait (?data1 = []) env pipe1 of
        None \<Rightarrow> None
      | Some (Inl e, pipe2, env2) \<Rightarrow> Some (Inl (- e), pipe2)
      | Some (Inr False, pipe2, env2) \<Rightarrow> Some (Inr ?data1, pipe2)
      | Some (Inr True, pipe2, env2) \<Rightarrow> poll_events_loop env2 True ?room1 ?data1 pipe2)"
    by (subst poll_events_loop.simps) (simp only: rd Let_def prod.case)
  from 1(2) have room: "?room1 \<noteq> 0"
    unfolding unf by (cases "?room1 = 0") simp_all
  show ?case
  proof (cases "poll_wait (data @ new = []) env pipe1")
    case None
    then show ?thesis using poll_wait_None [OF None] split by auto
  next
    case (Some w)
    obtain n pipe2 env2 where w: "w = (n, pipe2, env2)" by (cases w)
    from 1(2) room have n: "n = Inr True"
      and rec: "poll_events_loop env2 True (room - length new) (data @ new) pipe2 = None"
      unfolding unf Some w by (simp_all split: sum.splits bool.splits)
    have "data @ new = [] \<and> pipe2 @ arrivals env2 = []"
      by (rule 1(1) [OF rd [symmetric] refl refl refl room Some w [symmetric] n refl refl rec])
    moreover from this have "pipe1 @ arrivals env = []"
      using poll_wait_keeps [OF Some [unfolded w]] by simp
    ultimately show ?thesis unfolding split [symmetric] by simp
  qed
qed

text \<open>C36: pollEvents returns whenever an event is in the pipe or arrives, however often poll
  is interrupted before.\<close>

theorem pollEvents_returns:
  assumes "HALpipe b \<noteq> [] \<or> arrivals env \<noteq> []"
  shows "pollEvents env room b \<noteq> None"
  using assms poll_events_loop_None [of env False room "[]" "HALpipe b"]
  by (cases "poll_events_loop env False room [] (HALpipe b)") (auto simp: pollEvents_def)

lemma pollEvents_returns_witness: "pollEvents [Interrupted, Arrive [some_event]] 3 idle_sensor \<noteq> None"
  by (rule pollEvents_returns) simp

text \<open>When poll fails after events have been read, pollEvents answers the error and the
  events, already taken from the pipe, are lost.\<close>

theorem pollEvents_error_drops_events:
  assumes "HALpipe b = []" "evs \<noteq> []" "length evs < room"
  shows "pollEvents (Arrive evs # Poll_error e # env) room b = Some (Inl (- e), b)"
proof -
  have "poll_events_loop (Poll_error e # env) True room [] evs = Some (Inl (- e), [])"
    using assms(2,3) by (subst poll_events_loop.simps) (simp add: read_events_def)
  then have "poll_events_loop (Arrive evs # Poll_error e # env) False room [] [] = Some (Inl (- e), [])"
    using assms(2,3) by (subst poll_events_loop.simps) simp
  with assms(1) show ?thesis by (simp add: pollEvents_def)
qed

lemma pollEvents_error_drops_events_witness:
  "pollEvents [Arrive [some_event], Poll_error 12] 5 (idle_sensor\<lparr>HALpipe := []\<rparr>) =
     Some (Inl (- 12), idle_sensor\<lparr>HALpipe := []\<rparr>)"
  by (rule pollEvents_error_drops_events) simp_all

section \<open>A device without its operations\<close>

text \<open>When the HAL pipe cannot be created the object keeps NULL operations: activate, batch
  and flush answer 0 for every handle without doing anything, and the sensor list is
  empty.\<close>

theorem sensor_without_pipe_accepts_everything:
  "bs_activate handle enabled (new_BoschSensor False a g s) = Some (0, new_BoschSensor False a g s) \<and>
   bs_batch handle flags period latency (new_BoschSensor False a g s) =
     Some (0, new_BoschSensor False a g s) \<and>
   bs_flush calloc_ok write_ok handle (new_BoschSensor False a g s) = (0, new_BoschSensor False a g s) \<and>
   bs_get_sensorlist m1 m2 (new_BoschSensor False a g s) = Some (0, new_BoschSensor False a g s)"
  by (simp add: bs_activate_def bs_batch_def bs_flush_def bs_get_sensorlist_def new_BoschSensor_def)

text \<open>flush of a published sensor answers 0 and appends exactly one flush-complete event with
  its handle; any other handle is answered -EINVAL without an event.\<close>

theorem bs_flush_answers:
  assumes "ap_inv (ap b)" "pfun_set b"
  shows "bs_flush True True handle b =
    (if known_handle handle (ap b)
     then (0, b\<lparr>HALpipe := HALpipe b @ [\<lparr> ev_version = 0, ev_sensor = 0,
       ev_type = SENSOR_TYPE_META_DATA, ev_timestamp = 0, ev_data = Meta_data 1 handle \<rparr>]\<rparr>)
     else (- EINVAL, b))"
proof (cases "known_handle handle (ap b)")
  case True
  with known_handle_get [OF assms(1) True] assms(2) show ?thesis
    by (simp add: bs_flush_def ap_flush_def send_flush_event_def sensord_deliver_event_def)
next
  case False
  with unknown_handle_get [OF assms(1) False] assms(2) show ?thesis
    by (simp add: bs_flush_def ap_flush_def)
qed

lemma bs_flush_answers_witness:
  "bs_flush True True 16 idle_sensor = (- 22, idle_sensor)"
proof -
  have i: "ap_inv (ap idle_sensor)" "pfun_set idle_sensor" "\<not> known_handle 16 (ap idle_sensor)"
    using hwcntl_init_inv [OF ap_inv_start, of 3 4]
    by (auto simp: idle_sensor_def new_BoschSensor_def hwcntl_init_def ap_start_def hwcntl_start_def
        default_cfg_def ap_hwcntl_init_ACC_def ap_hwcntl_init_GYRO_def known_handle_def list_published_def)
  from bs_flush_answers [OF i(1,2), of 16] i(3) show ?thesis by simp
qed

end
