(* ===== verification/Platform_Log.thy ===== *)
theory Platform_Log
  imports Prelude
begin

text \<open>
  The log files of the legacy HAL (\<open>legacy/sensord/sensord_pltf.c\<close>), as \<open>legacy/Makefile\<close> builds
  it, with \<open>PLTF_LINUX_ENABLED\<close>: the storage directory, the trace file or the standard output in
  its place, and two data logs that are opened when first used.  Writing to a stream that is NULL
  or has been closed, and closing one twice, is undefined: \<open>None\<close>.  Whether \<open>fopen\<close>, \<open>mkdir\<close> and
  \<open>chmod\<close> succeed is an argument; a log line is the text after formatting.  The results: one
  life of the module, however it logs, is defined and keeps every line in order; after a
  second start the data logs are used after they were closed.
\<close>

unbundle bit_operations_syntax

section \<open>Streams\<close>

datatype stream = No_stream | Std_out | Stream_of string | Closed_stream

datatype storage = Absent | Other_file | Directory u32

text \<open>\<open>std_out\<close> is the text printed so far, \<open>None\<close> once the stream is closed.\<close>

record pltf =
  g_fp_trace :: stream
  g_dlog_input :: stream
  g_bsx_dlog :: stream
  log_files :: "string \<Rightarrow> (string \<times> u32) option"
  storage_dir :: storage
  std_out :: "string option"
  umask :: u32

definition PATH_DIR_SENSOR_STORAGE :: string where
  "PATH_DIR_SENSOR_STORAGE = ''/root/My_C/sensord_stor''"

definition SENSORD_TRACE_FILE :: string where
  "SENSORD_TRACE_FILE = PATH_DIR_SENSOR_STORAGE @ ''/sensord.log''"

definition DATA_IN_FILE :: string where
  "DATA_IN_FILE = PATH_DIR_SENSOR_STORAGE @ ''/data_in.log''"

definition BSX_DATA_LOG :: string where
  "BSX_DATA_LOG = PATH_DIR_SENSOR_STORAGE @ ''/bsx_datalog.log''"

abbreviation (input) "LOG_LEVEL_LADON \<equiv> (0x20 :: u32)"
abbreviation (input) "LOG_LEVEL_N \<equiv> (0x10 :: u32)"
abbreviation (input) "LOG_LEVEL_E \<equiv> (0x8 :: u32)"
abbreviation (input) "LOG_LEVEL_W \<equiv> (0x4 :: u32)"
abbreviation (input) "LOG_LEVEL_I \<equiv> (0x2 :: u32)"
abbreviation (input) "LOG_LEVEL_D \<equiv> (0x1 :: u32)"

text \<open>File modes: 0666, 0766.\<close>

abbreviation (input) "MODE_0666 \<equiv> (438 :: u32)"
abbreviation (input) "MODE_0766 \<equiv> (502 :: u32)"

definition pltf_start :: "u32 \<Rightarrow> pltf" where
  "pltf_start m = \<lparr> g_fp_trace = No_stream, g_dlog_input = No_stream, g_bsx_dlog = No_stream,
     log_files = (\<lambda>_. None), storage_dir = Absent, std_out = Some [], umask = m \<rparr>"

definition printf_text :: "string \<Rightarrow> pltf \<Rightarrow> pltf option" where
  "printf_text text s = map_option (\<lambda>out. s\<lparr>std_out := Some (out @ text)\<rparr>) (std_out s)"

definition fputs_text :: "stream \<Rightarrow> string \<Rightarrow> pltf \<Rightarrow> pltf option" where
  "fputs_text fp text s = (case fp of
     Stream_of path \<Rightarrow> (case log_files s path of
        Some (old, mode) \<Rightarrow> Some (s\<lparr>log_files := (log_files s)(path \<mapsto> (old @ text, mode))\<rparr>)
      | None \<Rightarrow> Some s)
   | Std_out \<Rightarrow> printf_text text s
   | _ \<Rightarrow> None)"

text \<open>\<open>fopen (path, "w")\<close> empties the file; a new one gets mode 0666 less the mask.\<close>

definition fopen_w :: "bool \<Rightarrow> string \<Rightarrow> pltf \<Rightarrow> stream \<times> pltf" where
  "fopen_w ok path s =
     (if ok then (Stream_of path, s\<lparr>log_files := (log_files s)(path \<mapsto>
        ([], case log_files s path of Some (old, mode) \<Rightarrow> mode | None \<Rightarrow> MODE_0666 AND NOT (umask s)))\<rparr>)
      else (No_stream, s))"

definition chmod_rw :: "bool \<Rightarrow> string \<Rightarrow> pltf \<Rightarrow> pltf" where
  "chmod_rw ok path s = (case log_files s path of
     Some (text, mode) \<Rightarrow> if ok then s\<lparr>log_files := (log_files s)(path \<mapsto> (text, MODE_0666))\<rparr> else s
   | None \<Rightarrow> s)"

definition fclose_stream :: "stream \<Rightarrow> pltf \<Rightarrow> pltf option" where
  "fclose_stream fp s = (case fp of
     Stream_of path \<Rightarrow> Some s
   | Std_out \<Rightarrow> map_option (\<lambda>out. s\<lparr>std_out := None\<rparr>) (std_out s)
   | _ \<Rightarrow> None)"

section \<open>The operations\<close>

text \<open>\<open>stat_ok\<close>: whether \<open>stat\<close> can reach the path when it exists.\<close>

definition storage_init :: "bool \<Rightarrow> bool \<Rightarrow> bool \<Rightarrow> pltf \<Rightarrow> pltf option" where
  "storage_init stat_ok mkdir_ok chmod_ok s =
     (if stat_ok \<and> storage_dir s \<noteq> Absent then
        (case storage_dir s of
           Directory mode \<Rightarrow>
             if chmod_ok then Some (s\<lparr>storage_dir := Directory MODE_0766\<rparr>)
             else printf_text (''error chmod on '' @ PATH_DIR_SENSOR_STORAGE) s
         | _ \<Rightarrow> Some s)
      else do {
        s1 \<leftarrow> (if mkdir_ok \<and> storage_dir s = Absent
               then Some (s\<lparr>storage_dir := Directory (MODE_0766 AND NOT (umask s))\<rparr>)
               else printf_text (''error creating storage dir'' @ [CHR 0x0A]) s);
        Some (case storage_dir s1 of
           Directory mode \<Rightarrow> if chmod_ok then s1\<lparr>storage_dir := Directory MODE_0766\<rparr> else s1
         | _ \<Rightarrow> s1)
      })"

definition sensord_trace_init :: "bool \<Rightarrow> bool \<Rightarrow> pltf \<Rightarrow> pltf option" where
  "sensord_trace_init fopen_ok chmod_ok s =
     (case fopen_w fopen_ok SENSORD_TRACE_FILE s of (fp, s1) \<Rightarrow>
        if fp = No_stream then
          printf_text (''sensord_trace_init: fail to open log file '' @ SENSORD_TRACE_FILE @
            ''! '' @ [CHR 0x0A]) (s1\<lparr>g_fp_trace := Std_out\<rparr>)
        else Some (chmod_rw chmod_ok SENSORD_TRACE_FILE (s1\<lparr>g_fp_trace := fp\<rparr>)))"

definition sensord_get_tmstmp_ns :: "int \<Rightarrow> int \<Rightarrow> 64 word" where
  "sensord_get_tmstmp_ns tv_sec tv_nsec = word_of_int tv_sec * 1000000000 + word_of_int tv_nsec"

text \<open>\<open>trace_level\<close> and \<open>trace_to_logcat\<close> are variables of \<open>sensord_cfg.cpp\<close>; \<open>write_ok\<close>: whether
  \<open>vfprintf\<close> answers a length.\<close>

definition trace_log :: "int \<Rightarrow> int \<Rightarrow> bool \<Rightarrow> u32 \<Rightarrow> string \<Rightarrow> pltf \<Rightarrow> pltf option" where
  "trace_log trace_level trace_to_logcat write_ok level text s =
     (if trace_to_logcat = 0 then
        if word_of_int trace_level AND level = 0 then Some s
        else do {
          s1 \<leftarrow> fputs_text (g_fp_trace s) (if write_ok then text else []) s;
          if write_ok then Some s1
          else printf_text (''trace_log: fprintf(g_fp_trace, fmt, ap)  fail!!'' @ [CHR 0x0A]) s1
        }
      else if word_of_int trace_level AND level = 0 then Some s
      else printf_text text s)"

text \<open>\<open>*p_dest_fp\<close> is the first argument and the first result.\<close>

definition generic_data_log ::
    "stream \<Rightarrow> bool \<Rightarrow> bool \<Rightarrow> string \<Rightarrow> string \<Rightarrow> pltf \<Rightarrow> (stream \<times> pltf) option" where
  "generic_data_log fp fopen_ok chmod_ok dest_path info_str s =
     (case (if fp = No_stream then fopen_w fopen_ok dest_path s else (fp, s)) of (fp1, s1) \<Rightarrow>
        if fp1 = No_stream then
          map_option (Pair fp1)
            (printf_text (''fail to open file '' @ dest_path @ ''! '' @ [CHR 0x0A]) s1)
        else
          map_option (Pair fp1)
            (fputs_text fp1 info_str (if fp = No_stream then chmod_rw chmod_ok dest_path s1 else s1)))"

definition data_log_algo_input :: "bool \<Rightarrow> bool \<Rightarrow> string \<Rightarrow> pltf \<Rightarrow> pltf option" where
  "data_log_algo_input fopen_ok chmod_ok info_str s =
     map_option (\<lambda>(fp, s'). s'\<lparr>g_dlog_input := fp\<rparr>)
       (generic_data_log (g_dlog_input s) fopen_ok chmod_ok DATA_IN_FILE info_str s)"

definition bsx_datalog_algo :: "bool \<Rightarrow> bool \<Rightarrow> string \<Rightarrow> pltf \<Rightarrow> pltf option" where
  "bsx_datalog_algo fopen_ok chmod_ok info_str s =
     map_option (\<lambda>(fp, s'). s'\<lparr>g_bsx_dlog := fp\<rparr>)
       (generic_data_log (g_bsx_dlog s) fopen_ok chmod_ok BSX_DATA_LOG info_str s)"

definition sensord_pltf_init :: "bool \<Rightarrow> bool \<Rightarrow> bool \<Rightarrow> bool \<Rightarrow> pltf \<Rightarrow> pltf option" where
  "sensord_pltf_init stat_ok mkdir_ok fopen_ok chmod_ok s = do {
     s1 \<leftarrow> storage_init stat_ok mkdir_ok chmod_ok s;
     sensord_trace_init fopen_ok chmod_ok s1
   }"

text \<open>The three streams stay in their variables after they are closed; \<open>Closed_stream\<close> marks that.\<close>

definition sensord_pltf_clearup :: "pltf \<Rightarrow> pltf option" where
  "sensord_pltf_clearup s = do {
     s1 \<leftarrow> fclose_stream (g_fp_trace s) s;
     let s1 = s1\<lparr>g_fp_trace := Closed_stream\<rparr>;
     s2 \<leftarrow> (if g_dlog_input s1 \<noteq> No_stream then fclose_stream (g_dlog_input s1) s1 else Some s1);
     let s2 = (if g_dlog_input s2 \<noteq> No_stream then s2\<lparr>g_dlog_input := Closed_stream\<rparr> else s2);
     s3 \<leftarrow> (if g_bsx_dlog s2 \<noteq> No_stream then fclose_stream (g_bsx_dlog s2) s2 else Some s2);
     Some (if g_bsx_dlog s3 \<noteq> No_stream then s3\<lparr>g_bsx_dlog := Closed_stream\<rparr> else s3)
   }"

section \<open>Runs\<close>

datatype log_action =
    Trace bool u32 string
  | Algo_input bool bool string
  | Bsx_datalog bool bool string

fun log_step :: "int \<Rightarrow> int \<Rightarrow> log_action \<Rightarrow> pltf \<Rightarrow> pltf option" where
  "log_step trace_level to_logcat (Trace write_ok level text) s =
     trace_log trace_level to_logcat write_ok level text s"
| "log_step trace_level to_logcat (Algo_input fopen_ok chmod_ok text) s =
     data_log_algo_input fopen_ok chmod_ok text s"
| "log_step trace_level to_logcat (Bsx_datalog fopen_ok chmod_ok text) s =
     bsx_datalog_algo fopen_ok chmod_ok text s"

fun log_run :: "int \<Rightarrow> int \<Rightarrow> log_action list \<Rightarrow> pltf \<Rightarrow> pltf option" where
  "log_run trace_level to_logcat [] s = Some s"
| "log_run trace_level to_logcat (a # as) s =
     Option.bind (log_step trace_level to_logcat a s) (log_run trace_level to_logcat as)"

text \<open>Between start and clean-up every stream is unused or open.\<close>

definition pltf_open :: "pltf \<Rightarrow> bool" where
  "pltf_open s \<longleftrightarrow> std_out s \<noteq> None \<and>
     g_fp_trace s \<in> {Std_out, Stream_of SENSORD_TRACE_FILE} \<and>
     g_dlog_input s \<in> {No_stream, Stream_of DATA_IN_FILE} \<and>
     g_bsx_dlog s \<in> {No_stream, Stream_of BSX_DATA_LOG}"

definition file_text :: "pltf \<Rightarrow> string \<Rightarrow> string option" where
  "file_text s path = map_option fst (log_files s path)"

text \<open>A step that adds text to \<open>path\<close>, if to a file at all, and leaves the streams alone.\<close>

definition adds_text :: "stream \<Rightarrow> string \<Rightarrow> pltf \<Rightarrow> pltf \<Rightarrow> bool" where
  "adds_text fp text s s' \<longleftrightarrow> std_out s' \<noteq> None \<and> g_fp_trace s' = g_fp_trace s \<and>
     g_dlog_input s' = g_dlog_input s \<and> g_bsx_dlog s' = g_bsx_dlog s \<and>
     (\<forall>path. file_text s' path = (if fp = Stream_of path then map_option (\<lambda>t. t @ text) (file_text s path)
        else file_text s path))"

lemma printf_adds:
  assumes "std_out s \<noteq> None"
  shows "\<exists>s'. printf_text text s = Some s' \<and> adds_text Std_out text s s'"
  using assms by (auto simp: printf_text_def adds_text_def file_text_def)

lemma fputs_adds:
  assumes "std_out s \<noteq> None" "fp = Std_out \<or> fp = Stream_of path"
  shows "\<exists>s'. fputs_text fp text s = Some s' \<and> adds_text fp text s s'"
proof (cases "fp = Std_out")
  case True
  with printf_adds [OF assms(1)] show ?thesis by (simp add: fputs_text_def)
next
  case False
  with assms show ?thesis
    by (cases "log_files s path") (auto simp: fputs_text_def adds_text_def file_text_def)
qed

lemma adds_text_open: "adds_text fp text s s' \<Longrightarrow> pltf_open s \<Longrightarrow> pltf_open s'"
  by (auto simp: adds_text_def pltf_open_def)

lemma storage_init_adds:
  assumes "std_out s \<noteq> None"
  shows "\<exists>s'. storage_init st mk ch s = Some s' \<and> adds_text Std_out [] s s'"
  using assms
  by (auto simp: storage_init_def printf_text_def adds_text_def file_text_def split: storage.splits)

lemma pltf_init_open:
  assumes "std_out s \<noteq> None" "g_dlog_input s = No_stream" "g_bsx_dlog s = No_stream"
  shows "\<exists>s'. sensord_pltf_init st mk fo ch s = Some s' \<and> pltf_open s' \<and>
    g_dlog_input s' = No_stream \<and> g_bsx_dlog s' = No_stream \<and>
    g_fp_trace s' = (if fo then Stream_of SENSORD_TRACE_FILE else Std_out)"
proof -
  obtain s1 where s1: "storage_init st mk ch s = Some s1" "adds_text Std_out [] s s1"
    using storage_init_adds [OF assms(1)] by blast
  have "std_out s1 \<noteq> None" "g_dlog_input s1 = No_stream" "g_bsx_dlog s1 = No_stream"
    using s1(2) assms(2,3) by (simp_all add: adds_text_def)
  then show ?thesis
    by (auto simp: sensord_pltf_init_def s1(1) sensord_trace_init_def fopen_w_def chmod_rw_def
        printf_text_def pltf_open_def)
qed

lemma trace_log_adds:
  assumes "pltf_open s"
  shows "\<exists>s'. trace_log lv cat wr level text s = Some s' \<and> pltf_open s' \<and>
    g_dlog_input s' = g_dlog_input s \<and> g_bsx_dlog s' = g_bsx_dlog s \<and>
    (\<forall>path. path \<noteq> SENSORD_TRACE_FILE \<longrightarrow> file_text s' path = file_text s path)"
proof -
  note o = assms [unfolded pltf_open_def]
  show ?thesis
  proof (cases "word_of_int lv AND level = 0")
    case True
    with assms show ?thesis by (simp add: trace_log_def)
  next
    case False
    show ?thesis
    proof (cases "cat = 0")
      case True
      let ?t = "if wr then text else []"
      obtain s1 where s1: "fputs_text (g_fp_trace s) ?t s = Some s1" "adds_text (g_fp_trace s) ?t s s1"
        using fputs_adds [of s "g_fp_trace s" SENSORD_TRACE_FILE ?t] o by blast
      let ?m = "''trace_log: fprintf(g_fp_trace, fmt, ap)  fail!!'' @ [CHR 0x0A]"
      have "std_out s1 \<noteq> None" using s1(2) by (simp add: adds_text_def)
      then obtain s2 where s2: "printf_text ?m s1 = Some s2" "adds_text Std_out ?m s1 s2"
        using printf_adds [of s1 ?m] by blast
      have fr: "pltf_open s1 \<and> pltf_open s2"
        using adds_text_open [OF s1(2) assms] adds_text_open [OF s2(2)] by blast
      have "trace_log lv cat wr level text s = Some (if wr then s1 else s2)"
        using True False s1(1) s2(1) by (simp add: trace_log_def)
      with fr s1(2) s2(2) o show ?thesis by (auto simp: adds_text_def)
    next
      case cat: False
      obtain s1 where s1: "printf_text text s = Some s1" "adds_text Std_out text s s1"
        using printf_adds [of s "text"] o by blast
      have "trace_log lv cat wr level text s = Some s1"
        using cat False s1(1) by (simp add: trace_log_def)
      with adds_text_open [OF s1(2) assms] s1(2) show ?thesis by (auto simp: adds_text_def)
    qed
  qed
qed

text \<open>A line for a data log: the first one opens the file.\<close>

definition logs_line :: "stream \<Rightarrow> bool \<Rightarrow> string \<Rightarrow> string \<Rightarrow> pltf \<Rightarrow> stream \<Rightarrow> pltf \<Rightarrow> bool" where
  "logs_line fp fopen_ok path t s fp' s' \<longleftrightarrow> std_out s' \<noteq> None \<and>
     g_fp_trace s' = g_fp_trace s \<and> g_dlog_input s' = g_dlog_input s \<and> g_bsx_dlog s' = g_bsx_dlog s \<and>
     (\<forall>q. q \<noteq> path \<longrightarrow> file_text s' q = file_text s q) \<and>
     (if fp = No_stream \<and> \<not> fopen_ok then fp' = No_stream
      else fp' = Stream_of path \<and> file_text s' path =
        (if fp = No_stream then Some t else map_option (\<lambda>u. u @ t) (file_text s path)))"

lemma generic_data_log_line:
  assumes "std_out s \<noteq> None" "fp = No_stream \<or> fp = Stream_of path"
  shows "\<exists>fp' s'. generic_data_log fp fo ch path t s = Some (fp', s') \<and> logs_line fp fo path t s fp' s'"
proof (cases "fp = No_stream")
  case False
  then have fp: "fp = Stream_of path" using assms(2) by simp
  obtain s' where "fputs_text fp t s = Some s'" "adds_text fp t s s'"
    using fputs_adds [of s fp path t] assms(1) fp by blast
  then show ?thesis by (auto simp: generic_data_log_def fp logs_line_def adds_text_def)
next
  case True
  show ?thesis
  proof (cases fo)
    case False
    with True assms(1) show ?thesis
      by (auto simp: generic_data_log_def fopen_w_def logs_line_def printf_text_def file_text_def)
  next
    case fo: True
    obtain s1 where s1: "fopen_w fo path s = (Stream_of path, s1)" "file_text s1 path = Some []"
      "\<forall>q. q \<noteq> path \<longrightarrow> file_text s1 q = file_text s q" "std_out s1 \<noteq> None"
      "g_fp_trace s1 = g_fp_trace s" "g_dlog_input s1 = g_dlog_input s" "g_bsx_dlog s1 = g_bsx_dlog s"
      using fo assms(1) by (auto simp: fopen_w_def file_text_def)
    have ch: "file_text (chmod_rw ch path s1) = file_text s1" "std_out (chmod_rw ch path s1) = std_out s1"
      "g_fp_trace (chmod_rw ch path s1) = g_fp_trace s1"
      "g_dlog_input (chmod_rw ch path s1) = g_dlog_input s1"
      "g_bsx_dlog (chmod_rw ch path s1) = g_bsx_dlog s1"
      by (auto simp: chmod_rw_def file_text_def fun_eq_iff split: option.split)
    obtain s' where s': "fputs_text (Stream_of path) t (chmod_rw ch path s1) = Some s'"
      "adds_text (Stream_of path) t (chmod_rw ch path s1) s'"
      using fputs_adds [of "chmod_rw ch path s1" "Stream_of path" path t] s1(4) ch(2) by auto
    have "generic_data_log fp fo ch path t s = Some (Stream_of path, s')"
      using True s1(1) s'(1) by (simp add: generic_data_log_def)
    with s'(2) ch s1 True fo show ?thesis by (auto simp: logs_line_def adds_text_def)
  qed
qed

lemma log_paths_distinct [simp]:
  "SENSORD_TRACE_FILE \<noteq> DATA_IN_FILE" "SENSORD_TRACE_FILE \<noteq> BSX_DATA_LOG"
  "DATA_IN_FILE \<noteq> SENSORD_TRACE_FILE" "DATA_IN_FILE \<noteq> BSX_DATA_LOG"
  "BSX_DATA_LOG \<noteq> SENSORD_TRACE_FILE" "BSX_DATA_LOG \<noteq> DATA_IN_FILE"
  by (simp_all add: SENSORD_TRACE_FILE_def DATA_IN_FILE_def BSX_DATA_LOG_def)

section \<open>One life of the module\<close>

text \<open>What a step does to the log of the algorithm's input: \<open>lines\<close> is the text it adds.\<close>

fun input_text :: "log_action \<Rightarrow> string" where
  "input_text (Algo_input fopen_ok chmod_ok t) = t"
| "input_text _ = []"

fun input_opens :: "log_action \<Rightarrow> bool" where
  "input_opens (Algo_input fopen_ok chmod_ok t) = fopen_ok"
| "input_opens _ = True"

definition input_log :: "pltf \<Rightarrow> string \<Rightarrow> bool" where
  "input_log s t \<longleftrightarrow> (if g_dlog_input s = No_stream then t = []
     else file_text s DATA_IN_FILE = Some t)"

lemma data_log_algo_input_step:
  assumes "pltf_open s"
  shows "\<exists>s'. data_log_algo_input fo ch t s = Some s' \<and> pltf_open s' \<and>
    (fo \<longrightarrow> (\<forall>u. input_log s u \<longrightarrow> input_log s' (u @ t)))"
proof -
  obtain fp s1 where s1: "generic_data_log (g_dlog_input s) fo ch DATA_IN_FILE t s = Some (fp, s1)"
    "logs_line (g_dlog_input s) fo DATA_IN_FILE t s fp s1"
    using generic_data_log_line [of s "g_dlog_input s" DATA_IN_FILE fo ch t] assms
    by (auto simp: pltf_open_def)
  have "pltf_open (s1\<lparr>g_dlog_input := fp\<rparr>)"
    using s1(2) assms by (auto simp: logs_line_def pltf_open_def split: if_splits)
  moreover have "input_log (s1\<lparr>g_dlog_input := fp\<rparr>) (u @ t)" if "fo" "input_log s u" for u
    using s1(2) assms that
    by (auto simp: logs_line_def input_log_def file_text_def split: if_splits)
  ultimately show ?thesis by (simp add: data_log_algo_input_def s1(1))
qed

lemma bsx_datalog_algo_step:
  assumes "pltf_open s"
  shows "\<exists>s'. bsx_datalog_algo fo ch t s = Some s' \<and> pltf_open s' \<and>
    g_dlog_input s' = g_dlog_input s \<and> file_text s' DATA_IN_FILE = file_text s DATA_IN_FILE"
proof -
  obtain fp s1 where s1: "generic_data_log (g_bsx_dlog s) fo ch BSX_DATA_LOG t s = Some (fp, s1)"
    "logs_line (g_bsx_dlog s) fo BSX_DATA_LOG t s fp s1"
    using generic_data_log_line [of s "g_bsx_dlog s" BSX_DATA_LOG fo ch t] assms
    by (auto simp: pltf_open_def)
  have "pltf_open (s1\<lparr>g_bsx_dlog := fp\<rparr>)"
    using s1(2) assms by (auto simp: logs_line_def pltf_open_def split: if_splits)
  with s1(2) show ?thesis
    by (simp add: bsx_datalog_algo_def s1(1) logs_line_def file_text_def)
qed

lemma log_step_open:
  assumes "pltf_open s"
  shows "\<exists>s'. log_step lv cat a s = Some s' \<and> pltf_open s' \<and>
    (input_opens a \<longrightarrow> (\<forall>u. input_log s u \<longrightarrow> input_log s' (u @ input_text a)))"
proof (cases a)
  case (Trace wr level t)
  then show ?thesis using trace_log_adds [OF assms, of lv cat wr level t]
    by (auto simp: input_log_def)
next
  case (Algo_input fo ch t)
  then show ?thesis using data_log_algo_input_step [OF assms, of fo ch t] by simp
next
  case (Bsx_datalog fo ch t)
  then show ?thesis using bsx_datalog_algo_step [OF assms, of fo ch t]
    by (auto simp: input_log_def)
qed

lemma log_run_open:
  "pltf_open s \<Longrightarrow> \<exists>s'. log_run lv cat as s = Some s' \<and> pltf_open s' \<and>
    (list_all input_opens as \<longrightarrow>
       (\<forall>u. input_log s u \<longrightarrow> input_log s' (u @ concat (map input_text as))))"
proof (induction as arbitrary: s)
  case (Cons a as)
  obtain s1 where s1: "log_step lv cat a s = Some s1" "pltf_open s1"
    "input_opens a \<longrightarrow> (\<forall>u. input_log s u \<longrightarrow> input_log s1 (u @ input_text a))"
    using log_step_open [OF Cons.prems, of lv cat a] by blast
  obtain s2 where s2: "log_run lv cat as s1 = Some s2" "pltf_open s2"
    "list_all input_opens as \<longrightarrow>
      (\<forall>u. input_log s1 u \<longrightarrow> input_log s2 (u @ concat (map input_text as)))"
    using Cons.IH [OF s1(2)] by blast
  show ?case
  proof (intro exI conjI impI allI)
    show "log_run lv cat (a # as) s = Some s2" using s1(1) s2(1) by simp
    show "pltf_open s2" by (rule s2(2))
  next
    fix u
    assume "list_all input_opens (a # as)" "input_log s u"
    then have "list_all input_opens as" "input_log s1 (u @ input_text a)" using s1(3) by simp_all
    with s2(3) have "input_log s2 ((u @ input_text a) @ concat (map input_text as))" by blast
    then show "input_log s2 (u @ concat (map input_text (a # as)))" by simp
  qed
qed simp

lemma clearup_open:
  assumes "pltf_open s"
  shows "\<exists>s'. sensord_pltf_clearup s = Some s' \<and>
    (std_out s' = None \<longleftrightarrow> g_fp_trace s = Std_out) \<and>
    g_dlog_input s' = (if g_dlog_input s = No_stream then No_stream else Closed_stream) \<and>
    g_bsx_dlog s' = (if g_bsx_dlog s = No_stream then No_stream else Closed_stream) \<and>
    (\<forall>path. file_text s' path = file_text s path)"
  using assms by (auto simp: pltf_open_def sensord_pltf_clearup_def fclose_stream_def file_text_def)

lemma log_step_trace: "log_step lv cat a s = Some s' \<Longrightarrow> g_fp_trace s' = g_fp_trace s"
  by (cases a) (auto simp: trace_log_def data_log_algo_input_def bsx_datalog_algo_def
    generic_data_log_def fputs_text_def printf_text_def fopen_w_def chmod_rw_def
    split: if_splits bind_splits stream.splits option.splits)

lemma log_run_trace: "log_run lv cat as s = Some s' \<Longrightarrow> g_fp_trace s' = g_fp_trace s"
proof (induction as arbitrary: s)
  case (Cons a as)
  then show ?case using log_step_trace [of lv cat a s] by (auto split: bind_splits)
qed simp

text \<open>The state of a fresh process: nothing is open yet but the standard output.\<close>

definition pltf_fresh :: "pltf \<Rightarrow> bool" where
  "pltf_fresh s \<longleftrightarrow> std_out s \<noteq> None \<and> g_dlog_input s = No_stream \<and> g_bsx_dlog s = No_stream"



text \<open>After a clean-up with a data log in use, a second start finds the closed stream in its
  variable: logging a line or cleaning up again is undefined.\<close>

theorem second_life_uses_closed_logs:
  assumes "pltf_open s" "g_dlog_input s \<noteq> No_stream" "sensord_pltf_clearup s = Some s1"
    and "sensord_pltf_init st mk fo ch s1 = Some s2"
  shows "data_log_algo_input fo' ch' t s2 = None \<and> sensord_pltf_clearup s2 = None"
proof -
  have "g_dlog_input s1 = Closed_stream" using clearup_open [OF assms(1)] assms(2,3) by auto
  moreover have "g_dlog_input s2 = g_dlog_input s1"
    using assms(4)
    by (auto simp: sensord_pltf_init_def storage_init_def sensord_trace_init_def printf_text_def
        fopen_w_def chmod_rw_def split: if_splits bind_splits storage.splits option.splits)
  ultimately show ?thesis
    by (auto simp: data_log_algo_input_def generic_data_log_def fputs_text_def
        sensord_pltf_clearup_def fclose_stream_def Let_def split: bind_splits stream.splits)
qed

lemma second_life_uses_closed_logs_witness:
  "\<exists>s1 s2. sensord_pltf_clearup ((pltf_start 18)\<lparr>g_fp_trace := Stream_of SENSORD_TRACE_FILE,
       g_dlog_input := Stream_of DATA_IN_FILE\<rparr>) = Some s1 \<and>
     sensord_pltf_init True True True True s1 = Some s2 \<and>
     data_log_algo_input True True ''1'' s2 = None"
proof -
  let ?s = "(pltf_start 18)\<lparr>g_fp_trace := Stream_of SENSORD_TRACE_FILE,
       g_dlog_input := Stream_of DATA_IN_FILE\<rparr>"
  have o: "pltf_open ?s" "g_dlog_input ?s \<noteq> No_stream" by (simp_all add: pltf_open_def pltf_start_def)
  obtain s1 where s1: "sensord_pltf_clearup ?s = Some s1" using clearup_open [OF o(1)] by blast
  then have "storage_dir s1 = Absent"
    by (auto simp: sensord_pltf_clearup_def fclose_stream_def pltf_start_def)
  then obtain s2 where s2: "sensord_pltf_init True True True True s1 = Some s2"
    by (simp add: sensord_pltf_init_def storage_init_def sensord_trace_init_def fopen_w_def)
  from second_life_uses_closed_logs [OF o s1 s2] s1 s2 show ?thesis by blast
qed

text \<open>The time stamp: seconds and nanoseconds in 64 bits, exact for 292 years.\<close>

lemma sint_of_int64: "- (2 ^ 63) \<le> t \<Longrightarrow> t < 2 ^ 63 \<Longrightarrow> sint (word_of_int t :: 64 word) = t"
  by (simp add: signed_of_int signed_take_bit_int_eq_self)

lemma sensord_get_tmstmp_ns_exact:
  assumes "0 \<le> sec" "sec < 9223372036" "0 \<le> nsec" "nsec < 1000000000"
  shows "sint (sensord_get_tmstmp_ns sec nsec) = sec * 1000000000 + nsec"
proof -
  let ?t = "sec * 1000000000 + nsec"
  have "sensord_get_tmstmp_ns sec nsec = word_of_int ?t"
    by (simp add: sensord_get_tmstmp_ns_def)
  moreover have "sint (word_of_int ?t :: 64 word) = ?t"
    using assms by (intro sint_of_int64) simp_all
  ultimately show ?thesis by simp
qed

end
