(* ===== verification/Legacy_Device.thy ===== *)
theory Legacy_Device
  imports Bosch_Hal Platform_Log
begin

text \<open>
  The life of the legacy device: \<open>BoschSensor::getInstance\<close> and \<open>destroy\<close>, the contexts that
  \<open>open_sensors\<close> of \<open>legacy/hal/sensors.cpp\<close> hands to the framework, the calls through them,
  \<open>poll__close\<close>, and the variables of the process that survive a close: the sensor list, its
  pointer in \<open>sensors.cpp\<close>, and the log streams.  \<open>None\<close> is undefined behaviour: an uninitialised
  member, a freed object, a second \<open>free\<close>, or (for \<open>poll\<close>) a wait without end.  The results say
  exactly when a device that was opened once can be closed, and what a second open finds.
\<close>

section \<open>State\<close>

text \<open>\<open>bosch\<close>: the instance, or the variables of the process while there is none.  \<open>births\<close> numbers
  the instances; a context refers to the one that was there when it was opened.  \<open>sSensorList\<close>:
  whether the pointer is \<open>bosch_sensorlist.list\<close>, else it is NULL.\<close>

record legacy_hal =
  bosch :: "ap_state + bosch_sensor"
  births :: nat
  contexts :: "nat \<Rightarrow> nat option"
  next_context :: nat
  sSensorList :: bool
  sensorsNum :: u32
  logs :: pltf
  sigterm_handled :: bool

definition legacy_start :: "u32 \<Rightarrow> legacy_hal" where
  "legacy_start m = \<lparr> bosch = Inl ap_start, births = 0, contexts = (\<lambda>_. None), next_context = 0,
     sSensorList = False, sensorsNum = 0, logs = pltf_start m, sigterm_handled = False \<rparr>"

text \<open>What the constructor meets: the answers of the system calls and of the two allocations of the
  sensor list.\<close>

record open_env =
  oe_stat :: bool
  oe_mkdir :: bool
  oe_fopen :: bool
  oe_chmod :: bool
  oe_pipe :: bool
  oe_acc :: int
  oe_gyr :: int
  oe_malloc1 :: bool
  oe_malloc2 :: bool
  oe_note :: "string \<times> string \<times> string"

section \<open>The version note\<close>

definition accl_chip_name :: "sensord_cfg \<Rightarrow> string option" where
  "accl_chip_name c =
     (if solution_type c \<in> {0, 1, 2, 3, 4} \<and> accl_chip c = ACC_CHIP_SMI240
      then Some ''SMI240ACC'' else None)"

definition gyro_chip_name :: "sensord_cfg \<Rightarrow> string option" where
  "gyro_chip_name c =
     (if solution_type c \<in> {0, 2} \<and> gyro_chip c = GYR_CHIP_SMI240
      then Some ''SMI240GYRO'' else None)"

definition solution_name :: "sensord_cfg \<Rightarrow> string" where
  "solution_name c =
     (if solution_type c = 0 then ''MDOF'' else if solution_type c = 1 then ''ECOMPASS''
      else if solution_type c = 2 then ''IMU'' else if solution_type c = 3 then ''M4G''
      else if solution_type c = 4 then ''ACC'' else ''Unknown'')"

definition HAL_ver :: "int list" where
  "HAL_ver = [0, 0, 1, 0]"

definition version_text :: string where
  "version_text = show_int (HAL_ver ! 0) @ ''.'' @ show_int (HAL_ver ! 1) @ ''.'' @
     show_int (HAL_ver ! 2) @ ''.'' @ show_int (HAL_ver ! 3)"

text \<open>\<open>%s\<close> of a NULL pointer prints \<open>(null)\<close>, as in the C library of the target.\<close>

definition printed :: "string option \<Rightarrow> string" where
  "printed name = (case name of Some t \<Rightarrow> t | None \<Rightarrow> ''(null)'')"

definition version_note :: "string \<Rightarrow> string \<Rightarrow> sensord_cfg \<Rightarrow> string" where
  "version_note date time c = (let nl = [CHR 0x0A]; line = nl @ ''             * '' in
     nl @ '' **************************'' @ line @ ''HAL version: '' @ version_text @
     line @ ''build time: '' @ date @ '', '' @ time @ line @ ''solution type: '' @ solution_name c @
     line @ ''accl_chip: '' @ printed (accl_chip_name c) @
     line @ ''gyro_chip: '' @ printed (gyro_chip_name c) @
     nl @ ''             **************************'')"

definition device_lines :: "string option \<Rightarrow> string \<Rightarrow> string list" where
  "device_lines name end_line = (case name of
     Some t \<Rightarrow> [''<device name='' @ [CHR 0x22] @ t @ [CHR 0x22] @ '' bus='' @ [CHR 0x22] @ ''IIC'' @
       [CHR 0x22] @ ''>'' @ [CHR 0x0A], end_line]
   | None \<Rightarrow> [])"

definition version_lines :: "string \<Rightarrow> string \<Rightarrow> sensord_cfg \<Rightarrow> string list" where
  "version_lines date time c = (let nl = [CHR 0x0A] in
     [''<component>HAL version: '' @ version_text @ ''</component>'' @ nl,
      ''<component>build time: '' @ date @ '', '' @ time @ ''</component>'' @ nl,
      ''<component>solution type: '' @ solution_name c @ ''</component>'' @ nl @ nl] @
     device_lines (accl_chip_name c) (''</device>'' @ nl) @
     device_lines (gyro_chip_name c) (''</device>'' @ nl @ nl))"

text \<open>\<open>PNOTE\<close> puts the time, the file and the line before the text: the first of the three strings;
  the other two are the date and time of the build.\<close>

definition ap_show_ver ::
    "string \<times> string \<times> string \<Rightarrow> bool \<Rightarrow> bool \<Rightarrow> sensord_cfg \<Rightarrow> pltf \<Rightarrow> pltf option" where
  "ap_show_ver note fopen_ok chmod_ok c pl = (case note of (prefix, date, time) \<Rightarrow>
     Option.bind (trace_log (trace_level c) (trace_to_logcat c) True LOG_LEVEL_N
         (prefix @ version_note date time c @ [CHR 0x0A]) pl)
       (if bsx_datalog c \<noteq> 0
        then log_run (trace_level c) (trace_to_logcat c)
          (map (Bsx_datalog fopen_ok chmod_ok) (version_lines date time c))
        else Some))"

section \<open>The instance\<close>

text \<open>The constructor with the parts that \<open>new_BoschSensor\<close> leaves to this theory: the log streams,
  and the note of \<open>hwcntl_init\<close>.  Of the other log calls none is a step.\<close>

definition create_BoschSensor :: "open_env \<Rightarrow> ap_state \<Rightarrow> pltf \<Rightarrow> (bosch_sensor \<times> pltf) option" where
  "create_BoschSensor e s pl = do {
     pl1 \<leftarrow> sensord_pltf_init (oe_stat e) (oe_mkdir e) (oe_fopen e) (oe_chmod e) pl;
     pl2 \<leftarrow> (if oe_pipe e then ap_show_ver (oe_note e) (oe_fopen e) (oe_chmod e) (cfg s) pl1
            else Some pl1);
     Some (new_BoschSensor (oe_pipe e) (oe_acc e) (oe_gyr e) s, pl2)
   }"

definition getInstance :: "open_env \<Rightarrow> legacy_hal \<Rightarrow> legacy_hal option" where
  "getInstance e h = (case bosch h of
     Inr b \<Rightarrow> Some h
   | Inl s \<Rightarrow> map_option (\<lambda>(b, pl). h\<lparr>bosch := Inr b, births := births h + 1, logs := pl,
       sigterm_handled := True\<rparr>) (create_BoschSensor e s (logs h)))"

fun free_block :: "block \<Rightarrow> block option" where
  "free_block Null = Some Null"
| "free_block Allocated = Some Released"
| "free_block Released = None"

text \<open>The destructor kills and joins two threads and deletes the lists, which are uninitialised
  members when the constructor returned before.\<close>

definition delete_BoschSensor :: "bosch_sensor \<Rightarrow> ap_state option" where
  "delete_BoschSensor b =
     (if lists b = None \<or> \<not> hwcntl_thread b then None
      else do {
        let sl = sensorlist (hw (ap b));
        p1 \<leftarrow> free_block (sl_list_ptr sl);
        p2 \<leftarrow> free_block (sl_index_ptr sl);
        Some ((ap b)\<lparr>hw := (hw (ap b))\<lparr>sensorlist := sl\<lparr>sl_list_ptr := p1, sl_index_ptr := p2\<rparr>\<rparr>\<rparr>)
      })"

definition destroy_instance :: "legacy_hal \<Rightarrow> legacy_hal option" where
  "destroy_instance h = (case bosch h of
     Inl s \<Rightarrow> Some h
   | Inr b \<Rightarrow> do {
       pl \<leftarrow> sensord_pltf_clearup (logs h);
       s \<leftarrow> delete_BoschSensor b;
       Some (h\<lparr>bosch := Inl s, logs := pl, sigterm_handled := False\<rparr>)
     })"

section \<open>The module\<close>

text \<open>\<open>get_sensorlist\<close> assigns the pointer exactly when it answers a number other than 0.\<close>

definition open_sensors :: "open_env \<Rightarrow> legacy_hal \<Rightarrow> (nat \<times> legacy_hal) option" where
  "open_sensors e h = do {
     h1 \<leftarrow> getInstance e h;
     (n, b) \<leftarrow> (case bosch h1 of
        Inl s \<Rightarrow> None
      | Inr b \<Rightarrow> bs_get_sensorlist (oe_malloc1 e) (oe_malloc2 e) b);
     Some (next_context h1, h1\<lparr>bosch := Inr b, sensorsNum := n,
       sSensorList := (sSensorList h1 \<or> n \<noteq> 0),
       contexts := (contexts h1)(next_context h1 \<mapsto> births h1),
       next_context := next_context h1 + 1\<rparr>)
   }"

text \<open>The pointer that the framework receives, and the number of entries behind it.\<close>

definition sensors__get_sensors_list :: "legacy_hal \<Rightarrow> block \<times> u32" where
  "sensors__get_sensors_list h =
     (if sSensorList h
      then sl_list_ptr (sensorlist (hw (case bosch h of Inl s \<Rightarrow> s | Inr b \<Rightarrow> ap b)))
      else Null, sensorsNum h)"

text \<open>A context that was deleted, or whose instance is gone, must not be used.\<close>

definition on_context ::
    "nat \<Rightarrow> (bosch_sensor \<Rightarrow> ('r \<times> bosch_sensor) option) \<Rightarrow> legacy_hal \<Rightarrow> ('r \<times> legacy_hal) option" where
  "on_context c call h = (case (contexts h c, bosch h) of
     (Some k, Inr b) \<Rightarrow>
       if k = births h then map_option (\<lambda>(r, b'). (r, h\<lparr>bosch := Inr b'\<rparr>)) (call b) else None
   | _ \<Rightarrow> None)"

text \<open>Looking a handle up reads the sensor list up to its length.\<close>

definition list_intact :: "bosch_sensor \<Rightarrow> bool" where
  "list_intact b \<longleftrightarrow> sl_list_len (sensorlist (hw (ap b))) = 0 \<or>
     sl_list_ptr (sensorlist (hw (ap b))) = Allocated \<and>
     sl_index_ptr (sensorlist (hw (ap b))) = Allocated"

definition poll__activate :: "nat \<Rightarrow> int \<Rightarrow> int \<Rightarrow> legacy_hal \<Rightarrow> (int \<times> legacy_hal) option" where
  "poll__activate c handle enabled = on_context c (\<lambda>b.
     if pfun_set b \<and> handle \<noteq> BSX_SENSOR_ID_INVALID \<and> \<not> list_intact b then None
     else bs_activate handle enabled b)"

definition poll__batch :: "nat \<Rightarrow> int \<Rightarrow> int \<Rightarrow> int \<Rightarrow> int \<Rightarrow> legacy_hal \<Rightarrow> (int \<times> legacy_hal) option" where
  "poll__batch c handle flags period latency = on_context c (\<lambda>b.
     if pfun_set b \<and> \<not> list_intact b then None else bs_batch handle flags period latency b)"

definition poll__setDelay :: "nat \<Rightarrow> int \<Rightarrow> int \<Rightarrow> legacy_hal \<Rightarrow> (int \<times> legacy_hal) option" where
  "poll__setDelay c handle ns = on_context c (\<lambda>b.
     if pfun_set b \<and> \<not> list_intact b then None else bs_setDelay handle ns b)"

definition poll__flush :: "nat \<Rightarrow> bool \<Rightarrow> bool \<Rightarrow> int \<Rightarrow> legacy_hal \<Rightarrow> (int \<times> legacy_hal) option" where
  "poll__flush c calloc_ok write_ok handle = on_context c (\<lambda>b.
     if pfun_set b \<and> \<not> list_intact b then None else Some (bs_flush calloc_ok write_ok handle b))"

definition poll__poll ::
    "nat \<Rightarrow> poll_input list \<Rightarrow> nat \<Rightarrow> legacy_hal \<Rightarrow> ((int + sensors_event list) \<times> legacy_hal) option" where
  "poll__poll c env room = on_context c (\<lambda>b.
     if lists b = None then None else pollEvents env room b)"

text \<open>Closing deletes the context and the instance, whoever else uses it.\<close>

definition poll__close :: "nat \<Rightarrow> legacy_hal \<Rightarrow> legacy_hal option" where
  "poll__close c h = (case contexts h c of
     None \<Rightarrow> None
   | Some k \<Rightarrow> map_option (\<lambda>h'. h'\<lparr>contexts := (contexts h')(c := None)\<rparr>) (destroy_instance h))"

section \<open>Calls keep the parts of an instance\<close>

datatype poll_call =
    P_activate int int
  | P_setDelay int int
  | P_batch int int int int
  | P_flush bool bool int
  | P_poll "poll_input list" nat

fun poll_step :: "nat \<Rightarrow> poll_call \<Rightarrow> legacy_hal \<Rightarrow> legacy_hal option" where
  "poll_step c (P_activate handle enabled) h = map_option snd (poll__activate c handle enabled h)"
| "poll_step c (P_setDelay handle ns) h = map_option snd (poll__setDelay c handle ns h)"
| "poll_step c (P_batch handle flags period latency) h =
     map_option snd (poll__batch c handle flags period latency h)"
| "poll_step c (P_flush calloc_ok write_ok handle) h =
     map_option snd (poll__flush c calloc_ok write_ok handle h)"
| "poll_step c (P_poll env room) h = map_option snd (poll__poll c env room h)"

fun poll_calls :: "nat \<Rightarrow> poll_call list \<Rightarrow> legacy_hal \<Rightarrow> legacy_hal option" where
  "poll_calls c [] h = Some h"
| "poll_calls c (k # ks) h = Option.bind (poll_step c k h) (poll_calls c ks)"

fun answers_at_once :: "poll_call \<Rightarrow> bool" where
  "answers_at_once (P_poll env room) = False"
| "answers_at_once _ = True"

definition keeps_parts :: "bosch_sensor \<Rightarrow> bosch_sensor \<Rightarrow> bool" where
  "keeps_parts b b' \<longleftrightarrow> pfun_set b' = pfun_set b \<and> hwcntl_thread b' = hwcntl_thread b \<and>
     lists b' = lists b \<and> sensorlist (hw (ap b')) = sensorlist (hw (ap b)) \<and>
     cfg (ap b') = cfg (ap b) \<and>
     (ap_inv (ap b) \<longrightarrow> ap_inv (ap b'))"

lemma keeps_parts_refl [simp]: "keeps_parts b b"
  by (simp add: keeps_parts_def)

lemma keeps_parts_pipe [simp]: "keeps_parts b (b\<lparr>HALpipe := p\<rparr>)"
  by (simp add: keeps_parts_def)

lemma ap_activate_keeps:
  assumes "ap_inv s"
  shows "\<exists>r s'. ap_activate handle enabled s = Some (r, s') \<and> ap_inv s' \<and>
    sensorlist (hw s') = sensorlist (hw s) \<and> cfg s' = cfg s"
proof (cases "known_handle handle s")
  case True
  then show ?thesis using activate_step_known [OF assms True, of enabled] by fastforce
next
  case False
  with unknown_handle_get [OF assms False] assms show ?thesis by (simp add: ap_activate_def)
qed

lemma ap_batch_keeps:
  assumes "ap_inv s"
  shows "\<exists>r s'. ap_batch handle flags period latency s = Some (r, s') \<and> ap_inv s' \<and>
    sensorlist (hw s') = sensorlist (hw s) \<and> cfg s' = cfg s"
proof (cases "known_handle handle s")
  case True
  then show ?thesis using batch_step_known [OF assms True refl, of flags period latency] by fastforce
next
  case False
  with unknown_handle_get [OF assms False] assms show ?thesis by (simp add: ap_batch_def)
qed

lemma bs_activate_keeps:
  assumes "pfun_set b \<longrightarrow> ap_inv (ap b)"
  shows "\<exists>r b'. bs_activate handle enabled b = Some (r, b') \<and> keeps_parts b b'"
proof (cases "pfun_set b")
  case True
  then obtain r s' where "ap_activate handle enabled (ap b) = Some (r, s')" "ap_inv s'"
    "sensorlist (hw s') = sensorlist (hw (ap b))" "cfg s' = cfg (ap b)"
    using ap_activate_keeps assms by blast
  then show ?thesis by (simp add: bs_activate_def True keeps_parts_def)
qed (simp add: bs_activate_def)

lemma bs_batch_keeps:
  assumes "pfun_set b \<longrightarrow> ap_inv (ap b)"
  shows "\<exists>r b'. bs_batch handle flags period latency b = Some (r, b') \<and> keeps_parts b b'"
proof (cases "pfun_set b")
  case True
  then obtain r s' where "ap_batch handle flags period latency (ap b) = Some (r, s')" "ap_inv s'"
    "sensorlist (hw s') = sensorlist (hw (ap b))" "cfg s' = cfg (ap b)"
    using ap_batch_keeps assms by blast
  then show ?thesis by (simp add: bs_batch_def True keeps_parts_def)
qed (simp add: bs_batch_def)

lemma bs_flush_keeps: "keeps_parts b (snd (bs_flush calloc_ok write_ok handle b))"
  by (auto simp: bs_flush_def split: prod.split option.split)

lemma pollEvents_keeps: "pollEvents env room b = Some (r, b') \<Longrightarrow> keeps_parts b b'"
  by (auto simp: pollEvents_def split: bind_splits)

text \<open>The instance of an open context, in a state in which its calls are defined.\<close>

definition in_use :: "nat \<Rightarrow> bosch_sensor \<Rightarrow> legacy_hal \<Rightarrow> bool" where
  "in_use c b h \<longleftrightarrow> bosch h = Inr b \<and> contexts h c = Some (births h) \<and>
     (pfun_set b \<longrightarrow> ap_inv (ap b) \<and> list_intact b)"

lemma in_use_keeps: "in_use c b h \<Longrightarrow> keeps_parts b b' \<Longrightarrow> in_use c b' (h\<lparr>bosch := Inr b'\<rparr>)"
  by (simp add: in_use_def keeps_parts_def list_intact_def)

lemma on_context_in_use:
  "in_use c b h \<Longrightarrow> on_context c call h = map_option (\<lambda>(r, b'). (r, h\<lparr>bosch := Inr b'\<rparr>)) (call b)"
  by (simp add: on_context_def in_use_def)

definition call_keeps :: "bosch_sensor \<Rightarrow> legacy_hal \<Rightarrow> legacy_hal option \<Rightarrow> bool" where
  "call_keeps b h res \<longleftrightarrow> (\<exists>b'. res = Some (h\<lparr>bosch := Inr b'\<rparr>) \<and> keeps_parts b b')"

lemma poll_step_keeps:
  assumes "in_use c b h"
  shows "answers_at_once k \<and> call_keeps b h (poll_step c k h) \<or>
    \<not> answers_at_once k \<and> (poll_step c k h = None \<or> call_keeps b h (poll_step c k h))"
proof -
  note ctx = on_context_in_use [OF assms]
  have ok: "pfun_set b \<longrightarrow> ap_inv (ap b)" "\<not> (pfun_set b \<and> \<not> list_intact b)"
    using assms by (auto simp: in_use_def)
  show ?thesis
  proof (cases k)
    case (P_activate handle enabled)
    then show ?thesis using bs_activate_keeps [OF ok(1), of handle enabled] ok(2)
      by (auto simp: poll__activate_def ctx call_keeps_def)
  next
    case (P_setDelay handle ns)
    then show ?thesis using bs_batch_keeps [OF ok(1), of handle 0 ns 0] ok(2)
      by (auto simp: poll__setDelay_def bs_setDelay_def ctx call_keeps_def)
  next
    case (P_batch handle flags period latency)
    then show ?thesis using bs_batch_keeps [OF ok(1), of handle flags period latency] ok(2)
      by (auto simp: poll__batch_def ctx call_keeps_def)
  next
    case (P_flush ca wr handle)
    then show ?thesis using bs_flush_keeps [of b ca wr handle] ok(2)
      by (cases "bs_flush ca wr handle b") (auto simp: poll__flush_def ctx call_keeps_def)
  next
    case (P_poll env room)
    then show ?thesis using pollEvents_keeps [of env room b]
      by (cases "pollEvents env room b") (auto simp: poll__poll_def ctx call_keeps_def)
  qed
qed

lemma poll_calls_keep:
  "in_use c b h \<Longrightarrow> poll_calls c ks h = Some h' \<Longrightarrow> call_keeps b h (Some h')"
proof (induction ks arbitrary: b h)
  case Nil
  then show ?case by (auto simp: call_keeps_def in_use_def intro!: exI [of _ b])
next
  case (Cons k ks)
  from Cons.prems(2) obtain h1 where h1: "poll_step c k h = Some h1" "poll_calls c ks h1 = Some h'"
    by (auto split: bind_splits)
  obtain b1 where b1: "h1 = h\<lparr>bosch := Inr b1\<rparr>" "keeps_parts b b1"
    using poll_step_keeps [OF Cons.prems(1), of k] h1(1) by (auto simp: call_keeps_def)
  from Cons.IH [OF in_use_keeps [OF Cons.prems(1) b1(2)], folded b1(1), OF h1(2)] b1
  show ?case by (auto simp: call_keeps_def keeps_parts_def)
qed

lemma poll_calls_defined:
  "in_use c b h \<Longrightarrow> list_all answers_at_once ks \<Longrightarrow> poll_calls c ks h \<noteq> None"
proof (induction ks arbitrary: b h)
  case (Cons k ks)
  then obtain b1 where b1: "poll_step c k h = Some (h\<lparr>bosch := Inr b1\<rparr>)" "keeps_parts b b1"
    using poll_step_keeps [OF Cons.prems(1), of k] by (auto simp: call_keeps_def)
  from Cons.IH [OF in_use_keeps [OF Cons.prems(1) b1(2)]] Cons.prems(2) b1(1) show ?case by simp
qed simp

section \<open>Opening\<close>

text \<open>The sensor list of a process that has not been opened yet.\<close>

lemma get_sensorlist_blocks:
  assumes "ap_inv s" "sl_list_len (sensorlist (hw s)) = 0"
  shows "\<exists>n s'. ap_get_sensorlist m1 m2 s = Some (n, s') \<and> ap_inv s' \<and>
    (if m1 \<and> m2 then n = 2 \<and> list_published (hw s')
     else n = 0 \<and> sl_list_len (sensorlist (hw s')) = 0 \<and>
       sl_list_ptr (sensorlist (hw s')) = (if m1 then Released else Null) \<and>
       sl_index_ptr (sensorlist (hw s')) = (if m1 then Null else sl_index_ptr (sensorlist (hw s))))"
proof -
  obtain n s' where s': "ap_get_sensorlist m1 m2 s = Some (n, s')" "ap_inv s'"
    "n = sl_list_len (sensorlist (hw s'))" "m1 \<and> m2 \<longrightarrow> list_published (hw s')"
    using get_sensorlist_step [OF assms(1), of m1 m2]
    by (auto simp: list_step_def split: option.splits)
  show ?thesis
  proof (cases "m1 \<and> m2")
    case True
    with s' show ?thesis by (simp add: list_published_def)
  next
    case False
    with s'(1) assms(2) show ?thesis using s'(2)
      by (auto simp: ap_get_sensorlist_def Let_def)
  qed
qed

text \<open>Streams as the constructor leaves them.\<close>

definition fresh_logs :: "bool \<Rightarrow> pltf \<Rightarrow> bool" where
  "fresh_logs fopen_ok pl \<longleftrightarrow> pltf_open pl \<and> g_dlog_input pl = No_stream \<and> g_bsx_dlog pl = No_stream \<and>
     g_fp_trace pl = (if fopen_ok then Stream_of SENSORD_TRACE_FILE else Std_out)"

lemma create_defined:
  assumes "pltf_fresh pl" "bsx_datalog (cfg s) = 0"
  shows "\<exists>pl'. create_BoschSensor e s pl =
      Some (new_BoschSensor (oe_pipe e) (oe_acc e) (oe_gyr e) s, pl') \<and> fresh_logs (oe_fopen e) pl'"
proof -
  obtain pl1 where pl1: "sensord_pltf_init (oe_stat e) (oe_mkdir e) (oe_fopen e) (oe_chmod e) pl = Some pl1"
    "fresh_logs (oe_fopen e) pl1"
    using pltf_init_open [of pl "oe_stat e" "oe_mkdir e" "oe_fopen e" "oe_chmod e"] assms(1)
    unfolding pltf_fresh_def fresh_logs_def by blast
  have "\<exists>pl2. ap_show_ver (oe_note e) (oe_fopen e) (oe_chmod e) (cfg s) pl1 = Some pl2 \<and>
      fresh_logs (oe_fopen e) pl2"
  proof (cases "oe_note e")
    case (fields prefix date time)
    let ?text = "prefix @ version_note date time (cfg s) @ [CHR 0x0A]"
    obtain pl2 where pl2: "trace_log (trace_level (cfg s)) (trace_to_logcat (cfg s)) True LOG_LEVEL_N
          ?text pl1 = Some pl2" "pltf_open pl2" "g_dlog_input pl2 = g_dlog_input pl1"
        "g_bsx_dlog pl2 = g_bsx_dlog pl1"
      using trace_log_adds pl1(2) unfolding fresh_logs_def by blast
    moreover have "g_fp_trace pl2 = g_fp_trace pl1"
      using log_step_trace [of "trace_level (cfg s)" "trace_to_logcat (cfg s)" "Trace True LOG_LEVEL_N ?text"]
        pl2(1) by simp
    ultimately show ?thesis
      using pl1(2) assms(2) by (simp add: ap_show_ver_def fields fresh_logs_def)
  qed
  then show ?thesis using pl1 by (cases "oe_pipe e") (auto simp: create_BoschSensor_def)
qed

lemma new_BoschSensor_parts:
  "hw (ap (new_BoschSensor pipe acc gyr s)) = hw s"
  "cfg (ap (new_BoschSensor pipe acc gyr s)) = cfg s"
  "ap_inv s \<Longrightarrow> ap_inv (ap (new_BoschSensor pipe acc gyr s))"
  "pfun_set (new_BoschSensor pipe acc gyr s) = pipe"
  "lists (new_BoschSensor pipe acc gyr s) = None \<longleftrightarrow> \<not> pipe"
  "cfg s = default_cfg \<Longrightarrow> hwcntl_thread (new_BoschSensor pipe acc gyr s) \<longleftrightarrow> pipe \<and> gyr \<noteq> -1"
  by (auto simp: new_BoschSensor_def hwcntl_init_def ap_hwcntl_init_ACC_def ap_hwcntl_init_GYRO_def
      ap_inv_def default_cfg_def split: prod.splits if_splits)

lemma new_BoschSensor_pipe: "HALpipe (new_BoschSensor pipe acc gyr s) = []"
  by (simp add: new_BoschSensor_def split: prod.split)

definition deletable :: "bosch_sensor \<Rightarrow> bool" where
  "deletable b \<longleftrightarrow> lists b \<noteq> None \<and> hwcntl_thread b \<and>
     sl_list_ptr (sensorlist (hw (ap b))) \<noteq> Released \<and>
     sl_index_ptr (sensorlist (hw (ap b))) \<noteq> Released"

lemma free_block_None: "free_block p = None \<longleftrightarrow> p = Released"
  by (cases p) simp_all

lemma delete_iff: "delete_BoschSensor b = None \<longleftrightarrow> \<not> deletable b"
  by (auto simp: delete_BoschSensor_def deletable_def free_block_None Let_def split: bind_splits)

lemma deletable_keeps: "keeps_parts b b' \<Longrightarrow> deletable b' = deletable b"
  by (simp add: keeps_parts_def deletable_def)

text \<open>The variables of a process before the first open.\<close>

definition unopened :: "legacy_hal \<Rightarrow> ap_state \<Rightarrow> bool" where
  "unopened h s \<longleftrightarrow> bosch h = Inl s \<and> ap_inv s \<and> cfg s = default_cfg \<and> pltf_fresh (logs h) \<and>
     sl_list_len (sensorlist (hw s)) = 0 \<and> sl_list_ptr (sensorlist (hw s)) = Null \<and>
     sl_index_ptr (sensorlist (hw s)) = Null"

lemma unopened_start: "unopened (legacy_start m) ap_start"
  using ap_inv_start
  by (simp add: unopened_def legacy_start_def pltf_fresh_def pltf_start_def ap_start_def hwcntl_start_def)

lemma open_first:
  assumes "unopened h s"
  shows "\<exists>b h'. open_sensors e h = Some (next_context h, h') \<and> in_use (next_context h) b h' \<and>
    fresh_logs (oe_fopen e) (logs h') \<and> cfg (ap b) = default_cfg \<and>
    (deletable b \<longleftrightarrow> oe_pipe e \<and> oe_gyr e \<noteq> -1 \<and> (oe_malloc1 e \<longrightarrow> oe_malloc2 e)) \<and>
    (oe_pipe e \<and> oe_malloc1 e \<and> oe_malloc2 e \<longrightarrow>
       sSensorList h' \<and> sensorsNum h' = 2 \<and> list_published (hw (ap b))) \<and>
    (pfun_set b \<longleftrightarrow> oe_pipe e) \<and> HALpipe b = []"
proof -
  note u = assms [unfolded unopened_def]
  let ?b = "new_BoschSensor (oe_pipe e) (oe_acc e) (oe_gyr e) s"
  obtain pl where pl: "create_BoschSensor e s (logs h) = Some (?b, pl)" "fresh_logs (oe_fopen e) pl"
    using create_defined [of "logs h" s e] u by (auto simp: default_cfg_def)
  let ?h = "h\<lparr>bosch := Inr ?b, births := births h + 1, logs := pl, sigterm_handled := True\<rparr>"
  have get: "getInstance e h = Some ?h" using u pl(1) by (simp add: getInstance_def)
  note parts = new_BoschSensor_parts [where pipe = "oe_pipe e" and acc = "oe_acc e" and gyr = "oe_gyr e" and s = s]
  show ?thesis
  proof (cases "oe_pipe e")
    case False
    then have "bs_get_sensorlist (oe_malloc1 e) (oe_malloc2 e) ?b = Some (0, ?b)"
      by (simp add: bs_get_sensorlist_def new_BoschSensor_parts)
    with False get pl(2) u parts show ?thesis
      by (auto simp: open_sensors_def in_use_def deletable_def new_BoschSensor_parts new_BoschSensor_pipe)
  next
    case True
    obtain n s' where s': "ap_get_sensorlist (oe_malloc1 e) (oe_malloc2 e) (ap ?b) = Some (n, s')"
      "ap_inv s'" "if oe_malloc1 e \<and> oe_malloc2 e then n = 2 \<and> list_published (hw s')
       else n = 0 \<and> sl_list_len (sensorlist (hw s')) = 0 \<and>
         sl_list_ptr (sensorlist (hw s')) = (if oe_malloc1 e then Released else Null) \<and>
         sl_index_ptr (sensorlist (hw s')) = Null" "cfg s' = cfg (ap ?b)"
      using get_sensorlist_blocks [of "ap ?b" "oe_malloc1 e" "oe_malloc2 e"]
        get_sensorlist_step [of "ap ?b" "oe_malloc1 e" "oe_malloc2 e"] u parts(1,3)
      by (auto simp: list_step_def split: if_splits)
    let ?b' = "?b\<lparr>ap := s'\<rparr>"
    have "bs_get_sensorlist (oe_malloc1 e) (oe_malloc2 e) ?b = Some (n, ?b')"
      using s'(1) True by (simp add: bs_get_sensorlist_def new_BoschSensor_parts)
    moreover have "list_intact ?b'"
      using s'(3) by (auto simp: list_intact_def list_published_def split: if_splits)
    moreover have "deletable ?b' \<longleftrightarrow> oe_gyr e \<noteq> -1 \<and> (oe_malloc1 e \<longrightarrow> oe_malloc2 e)"
      using s'(3) True u
      by (auto simp: deletable_def list_published_def new_BoschSensor_parts split: if_splits)
    ultimately show ?thesis
      using get pl(2) s'(2-4) True u
      by (auto simp: open_sensors_def in_use_def new_BoschSensor_parts new_BoschSensor_pipe
          split: if_splits)
  qed
qed

section \<open>Closing\<close>

definition freed_list :: "bst_sensorlist \<Rightarrow> bst_sensorlist" where
  "freed_list sl = sl\<lparr>sl_list_ptr := the (free_block (sl_list_ptr sl)),
     sl_index_ptr := the (free_block (sl_index_ptr sl))\<rparr>"

lemma delete_result:
  "delete_BoschSensor b = Some s \<Longrightarrow>
     sensorlist (hw s) = freed_list (sensorlist (hw (ap b))) \<and> cfg s = cfg (ap b)"
  by (auto simp: delete_BoschSensor_def freed_list_def Let_def split: if_splits bind_splits)

lemma close_defined:
  assumes "in_use c b h" "pltf_open (logs h)"
  shows "poll__close c h \<noteq> None \<longleftrightarrow> deletable b"
  using assms clearup_open [OF assms(2)] delete_iff [of b]
  by (auto simp: poll__close_def destroy_instance_def in_use_def split: bind_splits)

lemma close_result:
  assumes "in_use c b h" "poll__close c h = Some h'"
  obtains s pl where "bosch h' = Inl s" "sensorlist (hw s) = freed_list (sensorlist (hw (ap b)))"
    "cfg s = cfg (ap b)" "sensord_pltf_clearup (logs h) = Some pl" "logs h' = pl"
    "sSensorList h' = sSensorList h" "sensorsNum h' = sensorsNum h" "contexts h' c = None"
  using assms delete_result [of b]
  by (auto simp: poll__close_def destroy_instance_def in_use_def split: bind_splits)

text \<open>C6: The first open always succeeds and calls that do not wait are always answered; the
  device can be closed exactly when the pipe and the gyroscope file could be opened and
  not just the second allocation of the sensor list failed, else the destructor uses
  uninitialised members or frees twice.\<close>

theorem device_closes_iff:
  "\<exists>c h. open_sensors e (legacy_start m) = Some (c, h) \<and>
     (list_all answers_at_once calls \<longrightarrow> poll_calls c calls h \<noteq> None) \<and>
     (\<forall>h'. poll_calls c calls h = Some h' \<longrightarrow>
        (poll__close c h' \<noteq> None \<longleftrightarrow>
           oe_pipe e \<and> oe_gyr e \<noteq> -1 \<and> (oe_malloc1 e \<longrightarrow> oe_malloc2 e)))"
proof -
  obtain c b h where o: "open_sensors e (legacy_start m) = Some (c, h)" "in_use c b h"
    "fresh_logs (oe_fopen e) (logs h)"
    "deletable b \<longleftrightarrow> oe_pipe e \<and> oe_gyr e \<noteq> -1 \<and> (oe_malloc1 e \<longrightarrow> oe_malloc2 e)"
    using open_first [OF unopened_start, of e m] by blast
  have "poll__close c h' \<noteq> None \<longleftrightarrow> deletable b" if run: "poll_calls c calls h = Some h'" for h'
  proof -
    obtain b' where b': "h' = h\<lparr>bosch := Inr b'\<rparr>" "keeps_parts b b'"
      using poll_calls_keep [OF o(2) run] by (auto simp: call_keeps_def)
    have "pltf_open (logs h')" using o(3) b'(1) by (simp add: fresh_logs_def)
    from close_defined [OF in_use_keeps [OF o(2) b'(2), folded b'(1)] this] deletable_keeps [OF b'(2)]
    show ?thesis by simp
  qed
  with o(1,4) poll_calls_defined [OF o(2)] show ?thesis by blast
qed

definition usual_env :: open_env where
  "usual_env = \<lparr> oe_stat = True, oe_mkdir = True, oe_fopen = True, oe_chmod = True, oe_pipe = True,
     oe_acc = 3, oe_gyr = 4, oe_malloc1 = True, oe_malloc2 = True,
     oe_note = (''[0][NOTE] '', ''Jan 1 2024'', ''10:00:00'') \<rparr>"

lemma device_closes_iff_witness:
  "\<exists>c h h'. open_sensors usual_env (legacy_start 18) = Some (c, h) \<and>
     poll_calls c [P_setDelay 1 10000000, P_activate 1 1, P_flush True True 1, P_activate 16 1] h =
       Some h' \<and> poll__close c h' \<noteq> None"
  using device_closes_iff [of usual_env 18
      "[P_setDelay 1 10000000, P_activate 1 1, P_flush True True 1, P_activate 16 1]"]
  by (auto simp: usual_env_def)

section \<open>Opening again\<close>

lemma pltf_init_without_stdout:
  "std_out pl = None \<Longrightarrow> sensord_pltf_init st mk fo ch pl = Some pl' \<Longrightarrow> std_out pl' = None"
  by (auto simp: sensord_pltf_init_def storage_init_def sensord_trace_init_def printf_text_def
      fopen_w_def chmod_rw_def split: if_splits bind_splits storage.splits option.splits)

lemma create_without_stdout:
  assumes "std_out pl = None" "cfg s = default_cfg" "oe_pipe e"
  shows "create_BoschSensor e s pl = None"
proof -
  have "ap_show_ver (oe_note e) fo ch default_cfg pl1 = None" if "std_out pl1 = None" for pl1 fo ch
    using that by (cases "oe_note e") (simp add: ap_show_ver_def trace_log_def printf_text_def default_cfg_def)
  with pltf_init_without_stdout [OF assms(1)] assms(2,3) show ?thesis
    by (auto simp: create_BoschSensor_def split: bind_splits)
qed

text \<open>A process in which the device was closed after a life in which its sensors were listed.\<close>

definition closed_after_use :: "open_env \<Rightarrow> legacy_hal \<Rightarrow> bool" where
  "closed_after_use e h \<longleftrightarrow> (\<exists>m calls c h1 h2.
     open_sensors e (legacy_start m) = Some (c, h1) \<and> poll_calls c calls h1 = Some h2 \<and>
     poll__close c h2 = Some h \<and> oe_malloc1 e)"

text \<open>What such a process is left with.\<close>

lemma closed_after_use_state:
  assumes "closed_after_use e h"
  obtains s where "bosch h = Inl s" "cfg s = default_cfg" "sSensorList h" "sensorsNum h = 2"
    "sl_list_len (sensorlist (hw s)) = 2" "sl_list_ptr (sensorlist (hw s)) = Released"
    "g_dlog_input (logs h) = No_stream" "g_bsx_dlog (logs h) = No_stream"
    "std_out (logs h) = None \<longleftrightarrow> \<not> oe_fopen e"
proof -
  obtain m calls c h1 h2 where run: "open_sensors e (legacy_start m) = Some (c, h1)"
    "poll_calls c calls h1 = Some h2" "poll__close c h2 = Some h" "oe_malloc1 e"
    using assms by (auto simp: closed_after_use_def)
  obtain b where b: "in_use c b h1" "fresh_logs (oe_fopen e) (logs h1)" "cfg (ap b) = default_cfg"
    "deletable b \<longleftrightarrow> oe_pipe e \<and> oe_gyr e \<noteq> -1 \<and> (oe_malloc1 e \<longrightarrow> oe_malloc2 e)"
    "oe_pipe e \<and> oe_malloc1 e \<and> oe_malloc2 e \<longrightarrow>
       sSensorList h1 \<and> sensorsNum h1 = 2 \<and> list_published (hw (ap b))"
    using open_first [OF unopened_start, of e m] run(1) by auto
  obtain b2 where b2: "h2 = h1\<lparr>bosch := Inr b2\<rparr>" "keeps_parts b b2"
    using poll_calls_keep [OF b(1) run(2)] by (auto simp: call_keeps_def)
  have use2: "in_use c b2 h2" using in_use_keeps [OF b(1) b2(2)] b2(1) by simp
  have logs2: "logs h2 = logs h1" using b2(1) by simp
  have "pltf_open (logs h2)" using b(2) logs2 by (simp add: fresh_logs_def)
  with close_defined [OF use2] run(3,4) deletable_keeps [OF b2(2)] b(4)
  have "oe_pipe e \<and> oe_malloc1 e \<and> oe_malloc2 e" by simp
  with b(5) b2 have pub: "sSensorList h2" "sensorsNum h2 = 2"
    "sl_list_len (sensorlist (hw (ap b2))) = 2" "sl_list_ptr (sensorlist (hw (ap b2))) = Allocated"
    by (simp_all add: keeps_parts_def list_published_def)
  obtain s pl where s: "bosch h = Inl s" "sensorlist (hw s) = freed_list (sensorlist (hw (ap b2)))"
    "cfg s = cfg (ap b2)" "sensord_pltf_clearup (logs h2) = Some pl" "logs h = pl"
    "sSensorList h = sSensorList h2" "sensorsNum h = sensorsNum h2"
    by (rule close_result [OF use2 run(3)])
  have "cfg s = default_cfg" using s(3) b(3) b2(2) by (simp add: keeps_parts_def)
  moreover have "sl_list_len (sensorlist (hw s)) = 2" "sl_list_ptr (sensorlist (hw s)) = Released"
    using s(2) pub by (simp_all add: freed_list_def)
  moreover have "g_dlog_input pl = No_stream" "g_bsx_dlog pl = No_stream"
    "std_out pl = None \<longleftrightarrow> \<not> oe_fopen e"
    using clearup_open [of "logs h2"] s(4) b(2) logs2 by (auto simp: fresh_logs_def)
  ultimately show ?thesis using that [of s] s pub by simp
qed

text \<open>C24: After a close the pointer of the framework is that of freed memory with two
  entries; a second open hands out the same freed list, so that every call that looks a
  sensor up is undefined, or uses the standard output that the close has closed.\<close>

theorem second_open_uses_freed_list:
  assumes "closed_after_use e h" "oe_pipe e'"
  shows "sensors__get_sensors_list h = (Released, 2) \<and>
    (if oe_fopen e
     then \<exists>c h'. open_sensors e' h = Some (c, h') \<and> sensors__get_sensors_list h' = (Released, 2) \<and>
       (handle \<noteq> BSX_SENSOR_ID_INVALID \<longrightarrow> poll__activate c handle enabled h' = None) \<and>
       poll__batch c handle flags period latency h' = None \<and>
       poll__flush c calloc_ok write_ok handle h' = None
     else open_sensors e' h = None)"
proof -
  obtain s where s: "bosch h = Inl s" "cfg s = default_cfg" "sSensorList h" "sensorsNum h = 2"
    "sl_list_len (sensorlist (hw s)) = 2" "sl_list_ptr (sensorlist (hw s)) = Released"
    "g_dlog_input (logs h) = No_stream" "g_bsx_dlog (logs h) = No_stream"
    "std_out (logs h) = None \<longleftrightarrow> \<not> oe_fopen e"
    by (rule closed_after_use_state [OF assms(1)])
  have listed: "sensors__get_sensors_list h = (Released, 2)"
    by (simp add: sensors__get_sensors_list_def s)
  let ?b = "new_BoschSensor True (oe_acc e') (oe_gyr e') s"
  have get: "bs_get_sensorlist m1 m2 ?b = Some (2, ?b)" for m1 m2
    by (simp add: bs_get_sensorlist_def ap_get_sensorlist_def new_BoschSensor_parts s)
  have damaged: "pfun_set ?b" "\<not> list_intact ?b"
    by (simp_all add: list_intact_def new_BoschSensor_parts s)
  show ?thesis
  proof (cases "oe_fopen e")
    case True
    then obtain pl where "create_BoschSensor e' s (logs h) = Some (?b, pl)"
      using create_defined [of "logs h" s e'] s assms(2)
      by (auto simp: pltf_fresh_def default_cfg_def)
    then have "open_sensors e' h = Some (next_context h, h\<lparr>bosch := Inr ?b, births := births h + 1,
        logs := pl, sigterm_handled := True, sensorsNum := 2, sSensorList := True,
        contexts := (contexts h)(next_context h \<mapsto> births h + 1),
        next_context := next_context h + 1\<rparr>)"
      by (simp add: open_sensors_def getInstance_def s get)
    with True listed damaged show ?thesis
      by (simp add: sensors__get_sensors_list_def new_BoschSensor_parts s poll__activate_def
          poll__batch_def poll__flush_def on_context_def)
  next
    case False
    then have "create_BoschSensor e' s (logs h) = None"
      using create_without_stdout [of "logs h" s e'] s(2,9) assms(2) by simp
    with False listed show ?thesis by (simp add: open_sensors_def getInstance_def s)
  qed
qed

lemma usual_life: "\<exists>h. closed_after_use (usual_env\<lparr>oe_fopen := fo\<rparr>) h"
proof -
  obtain c b h where o: "open_sensors (usual_env\<lparr>oe_fopen := fo\<rparr>) (legacy_start 18) = Some (c, h)"
    "in_use c b h" "fresh_logs fo (logs h)" "deletable b"
    using open_first [OF unopened_start, of "usual_env\<lparr>oe_fopen := fo\<rparr>" 18] by (auto simp: usual_env_def)
  then obtain h' where "poll__close c h = Some h'"
    using close_defined [OF o(2)] by (auto simp: fresh_logs_def)
  with o(1) have "closed_after_use (usual_env\<lparr>oe_fopen := fo\<rparr>) h'"
    unfolding closed_after_use_def
    by (intro exI [of _ 18] exI [of _ "[]"] exI [of _ c] exI [of _ h]) (simp add: usual_env_def)
  then show ?thesis by blast
qed

lemma second_open_uses_freed_list_witness:
  "\<exists>h c h'. sensors__get_sensors_list h = (Released, 2) \<and> open_sensors usual_env h = Some (c, h') \<and>
     poll__activate c 1 1 h' = None"
proof -
  obtain h where h: "closed_after_use (usual_env\<lparr>oe_fopen := True\<rparr>) h" using usual_life by blast
  have "oe_pipe usual_env" by (simp add: usual_env_def)
  from second_open_uses_freed_list [OF h this, of 1 1 0 0 0 True True] show ?thesis
    by (intro exI [of _ h]) (auto simp: usual_env_def)
qed

section \<open>Two contexts\<close>

text \<open>Closing one of two contexts deletes the instance that the other one uses.\<close>

lemma close_cuts_off_other_contexts:
  assumes "open_sensors e h = Some (c1, h1)" "open_sensors e' h1 = Some (c2, h2)"
    and "poll__close c1 h2 = Some h3"
  shows "c1 \<noteq> c2 \<and> contexts h3 c2 = Some (births h2) \<and> poll_step c2 k h3 = None"
proof -
  have c: "c2 = Suc c1" "contexts h2 c2 = Some (births h2)"
    using assms(1,2)
    by (auto simp: open_sensors_def getInstance_def split: bind_splits sum.splits)
  moreover obtain s where "bosch h3 = Inl s" "contexts h3 = (contexts h2)(c1 := None)"
    using assms(3) by (cases "bosch h2") (auto simp: poll__close_def destroy_instance_def
        split: option.splits bind_splits)
  ultimately show ?thesis
    by (cases k) (simp_all add: poll__activate_def poll__setDelay_def poll__batch_def poll__flush_def
        poll__poll_def on_context_def)
qed

end
