(* ===== verification/Legacy_Client.thy ===== *)
theory Legacy_Client
  imports Legacy_Device
begin

text \<open>
  The test program \<open>legacy/hal/main.cpp\<close> on the device of \<open>Legacy_Device\<close>: it opens the device,
  starts every listed sensor, polls until an event says that the device ends, stops the sensors and
  deletes the device.  The functions of the poll device for the newer interface, which do nothing
  or fail, are here too.
\<close>

section \<open>Members for the newer interface\<close>

definition sensors__set_operation_mode :: "nat \<Rightarrow> int" where
  "sensors__set_operation_mode mode = 0"

definition poll__inject_sensor_data :: "nat \<Rightarrow> sensors_event \<Rightarrow> legacy_hal \<Rightarrow> (int \<times> legacy_hal) option" where
  "poll__inject_sensor_data c data = on_context c (\<lambda>b. Some (0, b))"

section \<open>The program\<close>

abbreviation (input) "MAX_EVENTS_READ \<equiv> (26 :: nat)"

text \<open>The handles that the loops over \<open>sSensorList\<close> read; \<open>None\<close> reads through a pointer that is
  NULL or freed.\<close>

definition listed_handles :: "legacy_hal \<Rightarrow> int list option" where
  "listed_handles h = (let sl = sensorlist (hw (case bosch h of Inl s \<Rightarrow> s | Inr b \<Rightarrow> ap b)) in
     if sensorsNum h = 0 then Some []
     else if fst (sensors__get_sensors_list h) \<noteq> Allocated \<or> length (sl_list sl) < unat (sensorsNum h)
     then None
     else Some (map st_handle (take (unat (sensorsNum h)) (sl_list sl))))"

text \<open>\<open>META_DATA_VERSION\<close> is 0 in \<open>sensors.h\<close>; the other events of this HAL hold their size in
  that field.\<close>

definition ends_polling :: "sensors_event \<Rightarrow> bool" where
  "ends_polling ev \<longleftrightarrow> ev_version ev = 0 \<and>
     (case ev_data ev of Meta_data what sensor \<Rightarrow> sensor = -1 | Floats _ \<Rightarrow> False)"

datatype client_state = Still_polling legacy_hal | Left_loop legacy_hal

text \<open>One element of \<open>polls\<close> is what one call of \<open>poll\<close> meets.  An error is no event.\<close>

fun client_loop :: "nat \<Rightarrow> poll_input list list \<Rightarrow> legacy_hal \<Rightarrow> client_state option" where
  "client_loop dev [] h = Some (Still_polling h)"
| "client_loop dev (env # polls) h = (case poll__poll dev env MAX_EVENTS_READ h of
     None \<Rightarrow> None
   | Some (Inl e, h') \<Rightarrow> client_loop dev polls h'
   | Some (Inr events, h') \<Rightarrow>
       if list_ex ends_polling events then Some (Left_loop h') else client_loop dev polls h')"

definition activate_all :: "int \<Rightarrow> int list \<Rightarrow> poll_call list" where
  "activate_all enabled handles = map (\<lambda>handle. P_activate handle enabled) handles"

definition start_all :: "int list \<Rightarrow> poll_call list" where
  "start_all handles =
     concat (map (\<lambda>handle. [P_batch handle 0 10000000 1000000000, P_activate handle 1]) handles)"

definition client_main ::
    "open_env \<Rightarrow> poll_input list list \<Rightarrow> legacy_hal \<Rightarrow> client_state option" where
  "client_main e polls h0 = do {
     (dev, h) \<leftarrow> open_sensors e h0;
     handles \<leftarrow> listed_handles h;
     h1 \<leftarrow> poll_calls dev (activate_all 0 handles @ start_all handles) h;
     end \<leftarrow> client_loop dev polls h1;
     (case end of
        Still_polling h2 \<Rightarrow> Some (Still_polling h2)
      | Left_loop h2 \<Rightarrow> do {
          h3 \<leftarrow> poll_calls dev (activate_all 0 handles) h2;
          map_option Left_loop (poll__close dev h3)
        })
   }"

section \<open>What a life of the program comes to\<close>

definition switched_on :: "bosch_sensor \<Rightarrow> int set" where
  "switched_on b = active_indices (hw (ap b)) \<inter> {1, 16}"

text \<open>The device while the program uses it.\<close>

definition serving :: "nat \<Rightarrow> int set \<Rightarrow> legacy_hal \<Rightarrow> bool" where
  "serving c A h \<longleftrightarrow> pltf_open (logs h) \<and> (\<exists>b. in_use c b h \<and> pfun_set b \<and> deletable b \<and>
     list_published (hw (ap b)) \<and> HALpipe b = [] \<and> switched_on b = A)"

lemma published_same_list:
  "list_published h \<Longrightarrow> sensorlist h' = sensorlist h \<Longrightarrow> all_sensors h' = all_sensors h \<Longrightarrow> list_published h'"
  by (simp add: list_published_def)

lemma serving_update:
  assumes "pltf_open (logs h)" "in_use c b h" "pfun_set b" "deletable b"
    and "list_published (hw (ap b))" "HALpipe b = []"
    and "ap_inv ((ap b)\<lparr>hw := g, sampling_interval := t\<rparr>)"
    and "sensorlist g = sensorlist (hw (ap b))" "all_sensors g = all_sensors (hw (ap b))"
  shows "serving c (active_indices g \<inter> {1, 16})
    (h\<lparr>bosch := Inr (b\<lparr>ap := (ap b)\<lparr>hw := g, sampling_interval := t\<rparr>\<rparr>)\<rparr>)"
  unfolding serving_def
proof (intro conjI exI [of _ "b\<lparr>ap := (ap b)\<lparr>hw := g, sampling_interval := t\<rparr>\<rparr>"])
  show "list_published (hw (ap (b\<lparr>ap := (ap b)\<lparr>hw := g, sampling_interval := t\<rparr>\<rparr>)))"
    using assms(5,8,9) by (auto intro: published_same_list)
qed (use assms in \<open>simp_all add: in_use_def list_intact_def deletable_def switched_on_def\<close>)

text \<open>What the calls find: the instance, and the sensor in its list.\<close>

lemma servingD:
  assumes "serving c A h" "k = 1 \<or> k = 16"
  obtains b where "pltf_open (logs h)" "in_use c b h" "pfun_set b" "deletable b"
    "list_published (hw (ap b))" "HALpipe b = []" "active_indices (hw (ap b)) \<inter> {1, 16} = A"
    "ap_inv (ap b)" "list_intact b" "known_handle k (ap b)"
  using assms unfolding serving_def by (auto simp: in_use_def known_handle_def switched_on_def)

lemma serving_activate:
  assumes "serving c A h" "k = 1 \<or> k = 16"
  shows "\<exists>h'. poll_step c (P_activate k e) h = Some h' \<and> serving c (set_active (e \<noteq> 0) k A) h'"
proof -
  obtain b where b: "pltf_open (logs h)" "in_use c b h" "pfun_set b" "deletable b"
      "list_published (hw (ap b))" "HALpipe b = []" "active_indices (hw (ap b)) \<inter> {1, 16} = A"
      "ap_inv (ap b)" "list_intact b" "known_handle k (ap b)"
    using assms by (rule servingD)
  obtain g t where s: "ap_activate k e (ap b) = Some (0, (ap b)\<lparr>hw := g, sampling_interval := t\<rparr>)"
      "ap_inv ((ap b)\<lparr>hw := g, sampling_interval := t\<rparr>)" "sensorlist g = sensorlist (hw (ap b))"
      "all_sensors g = all_sensors (hw (ap b))"
      "active_indices g = set_active (e \<noteq> 0) k (active_indices (hw (ap b)))"
    using activate_step_known [OF b(8,10), of e] by blast
  have "active_indices g \<inter> {1, 16} = set_active (e \<noteq> 0) k A"
    using s(5) b(7) assms(2) by (auto simp: set_active_def)
  with serving_update [OF b(1-6) s(2-4)] b(3,9) s(1) show ?thesis
    by (simp add: poll__activate_def on_context_in_use [OF b(2)] bs_activate_def)
qed

lemma serving_batch:
  assumes "serving c A h" "k = 1 \<or> k = 16"
  shows "\<exists>h'. poll_step c (P_batch k flags period latency) h = Some h' \<and> serving c A h'"
proof -
  obtain b where b: "pltf_open (logs h)" "in_use c b h" "pfun_set b" "deletable b"
      "list_published (hw (ap b))" "HALpipe b = []" "active_indices (hw (ap b)) \<inter> {1, 16} = A"
      "ap_inv (ap b)" "list_intact b" "known_handle k (ap b)"
    using assms by (rule servingD)
  obtain g t where s: "ap_batch k flags period latency (ap b) =
        Some (0, (ap b)\<lparr>hw := g, sampling_interval := t\<rparr>)"
      "ap_inv ((ap b)\<lparr>hw := g, sampling_interval := t\<rparr>)" "sensorlist g = sensorlist (hw (ap b))"
      "all_sensors g = all_sensors (hw (ap b))" "active_indices g = active_indices (hw (ap b))"
    using batch_step_known [OF b(8,10) refl, of flags period latency] by blast
  from serving_update [OF b(1-6) s(2-4)] b(3,7,9) s(1,5) show ?thesis
    by (simp add: poll__batch_def on_context_in_use [OF b(2)] bs_batch_def)
qed

lemma serving_stop:
  assumes "serving c A h"
  shows "\<exists>h'. poll_calls c (activate_all 0 [1, 16]) h = Some h' \<and> serving c {} h'"
proof -
  obtain h1 where 1: "poll_step c (P_activate 1 0) h = Some h1" "serving c (A - {1}) h1"
    using serving_activate [OF assms, of 1 0] by (auto simp: set_active_def)
  obtain h2 where 2: "poll_step c (P_activate 16 0) h1 = Some h2" "serving c (A - {1} - {16}) h2"
    using serving_activate [OF 1(2), of 16 0] by (auto simp: set_active_def)
  have "A - {1} - {16} = {}" using assms by (auto simp: serving_def switched_on_def)
  with 1(1) 2 show ?thesis by (simp add: activate_all_def del: poll_step.simps)
qed

lemma serving_start:
  assumes "serving c {} h"
  shows "\<exists>h'. poll_calls c (start_all [1, 16]) h = Some h' \<and> serving c {1, 16} h'"
proof -
  obtain h1 where 1: "poll_step c (P_batch 1 0 10000000 1000000000) h = Some h1" "serving c {} h1"
    using serving_batch [OF assms, of 1 0 10000000 1000000000] by auto
  obtain h2 where 2: "poll_step c (P_activate 1 1) h1 = Some h2" "serving c {1} h2"
    using serving_activate [OF 1(2), of 1 1] by (auto simp: set_active_def)
  obtain h3 where 3: "poll_step c (P_batch 16 0 10000000 1000000000) h2 = Some h3" "serving c {1} h3"
    using serving_batch [OF 2(2), of 16 0 10000000 1000000000] by auto
  obtain h4 where 4: "poll_step c (P_activate 16 1) h3 = Some h4" "serving c {1, 16} h4"
    using serving_activate [OF 3(2), of 16 1] by (auto simp: set_active_def insert_commute)
  from 1(1) 2(1) 3(1) 4 show ?thesis by (simp add: start_all_def del: poll_step.simps)
qed


text \<open>A poll that meets at most 26 new events hands out all of them.\<close>

lemma poll_batch:
  assumes "events \<noteq> []" "length events \<le> room"
  shows "poll_events_loop [Arrive events] False room [] [] = Some (Inr events, [])"
proof -
  have "poll_events_loop [] True room [] events = Some (Inr events, [])"
    using assms by (subst poll_events_loop.simps) (simp add: read_events_def Let_def)
  moreover have "room \<noteq> 0" using assms by (cases events) auto
  ultimately show ?thesis using assms(1) by (subst poll_events_loop.simps) simp
qed

lemma serving_poll:
  assumes "serving c A h" "events \<noteq> []" "length events \<le> MAX_EVENTS_READ"
  shows "poll__poll c [Arrive events] MAX_EVENTS_READ h = Some (Inr events, h)"
proof -
  obtain b where b: "in_use c b h" "deletable b" "HALpipe b = []"
    using assms(1) unfolding serving_def by blast
  have "b\<lparr>HALpipe := []\<rparr> = b" using b(3) by (cases b) simp
  moreover have "h\<lparr>bosch := Inr b\<rparr> = h" using b(1) by (cases h) (simp add: in_use_def)
  ultimately have "h\<lparr>bosch := Inr (b\<lparr>HALpipe := []\<rparr>)\<rparr> = h" by (simp only:)
  with b poll_batch [OF assms(2,3)] show ?thesis
    by (simp add: poll__poll_def on_context_in_use [OF b(1)] pollEvents_def deletable_def)
qed

lemma serving_loop:
  assumes "serving c A h" "list_all (\<lambda>events. events \<noteq> [] \<and> length events \<le> MAX_EVENTS_READ) batches"
  shows "client_loop c (map (\<lambda>events. [Arrive events]) batches) h =
    Some (if list_ex (list_ex ends_polling) batches then Left_loop h else Still_polling h)"
  using assms by (induction batches) (simp_all add: serving_poll)

lemma open_serving:
  assumes "unopened h0 s" "oe_pipe e" "oe_gyr e \<noteq> -1" "oe_malloc1 e" "oe_malloc2 e"
  shows "\<exists>A h. open_sensors e h0 = Some (next_context h0, h) \<and> serving (next_context h0) A h \<and> listed_handles h = Some [1, 16]"
proof -
  obtain b h where o: "open_sensors e h0 = Some (next_context h0, h)" "in_use (next_context h0) b h"
      "fresh_logs (oe_fopen e) (logs h)" "deletable b" "sSensorList h" "sensorsNum h = 2"
      "list_published (hw (ap b))" "pfun_set b" "HALpipe b = []"
    using open_first [OF assms(1), of e] assms(2-5) by auto
  have t: "table_ok (all_sensors (hw (ap b)))" using o(2,8) by (simp add: in_use_def ap_inv_def)
  have "bosch h = Inr b" using o(2) by (simp add: in_use_def)
  then have "listed_handles h = Some [1, 16]"
    using o(5-7) published_entries [OF t] unfolding listed_handles_def list_published_def
    by (simp add: sensors__get_sensors_list_def unat_two)
  with o show ?thesis unfolding serving_def fresh_logs_def by blast
qed

lemma serving_close:
  assumes "serving c A h"
  shows "\<exists>h' s. poll__close c h = Some h' \<and> bosch h' = Inl s \<and> contexts h' c = None \<and>
    active_indices (hw s) \<inter> {1, 16} = A"
proof -
  obtain b where b: "pltf_open (logs h)" "in_use c b h" "deletable b" "switched_on b = A"
    using assms unfolding serving_def by blast
  obtain h' where h': "poll__close c h = Some h'" using close_defined [OF b(2,1)] b(3) by auto
  then obtain s where "bosch h' = Inl s" "delete_BoschSensor b = Some s" "contexts h' c = None"
    using b(2) by (auto simp: poll__close_def destroy_instance_def in_use_def split: bind_splits)
  moreover from this(2) have "active_indices (hw s) = active_indices (hw (ap b))"
    by (auto simp: delete_BoschSensor_def active_indices_def Let_def split: if_splits bind_splits)
  ultimately show ?thesis using h' b(4) by (simp add: switched_on_def)
qed

lemma poll_calls_append:
  "poll_calls c (ks @ ls) h = Option.bind (poll_calls c ks h) (poll_calls c ls)"
  by (induction ks arbitrary: h) (simp_all split: Option.bind_splits)

text \<open>C37: On a device whose pipe, gyroscope file and allocations succeed, and with batches of
  1 to 26 events between the polls, the test program is defined throughout and leaves its
  loop exactly when an event with the meta-data version and sensor -1 arrives; it has then
  switched both sensors off and deleted the device, and else polls with both sensors
  switched on.\<close>

theorem client_ends_iff:
  assumes "oe_pipe e" "oe_gyr e \<noteq> -1" "oe_malloc1 e" "oe_malloc2 e"
    and "list_all (\<lambda>events. events \<noteq> [] \<and> length events \<le> 26) batches"
  shows "\<exists>h. client_main e (map (\<lambda>events. [Arrive events]) batches) (legacy_start m) =
      Some (if list_ex (list_ex ends_polling) batches then Left_loop h else Still_polling h) \<and>
    (case bosch h of
       Inl s \<Rightarrow> list_ex (list_ex ends_polling) batches \<and> contexts h 0 = None \<and>
         active_indices (hw s) \<inter> {1, 16} = {}
     | Inr b \<Rightarrow> \<not> list_ex (list_ex ends_polling) batches \<and> contexts h 0 = Some (births h) \<and>
         {1, 16} \<subseteq> active_indices (hw (ap b)))"
proof -
  obtain A h where o: "open_sensors e (legacy_start m) = Some (0, h)" "serving 0 A h"
      "listed_handles h = Some [1, 16]"
    using open_serving [OF unopened_start assms(1-4), of m] by (auto simp: legacy_start_def)
  obtain h1 h2 where 1: "poll_calls 0 (activate_all 0 [1, 16]) h = Some h1" "serving 0 {} h1"
      "poll_calls 0 (start_all [1, 16]) h1 = Some h2" "serving 0 {1, 16} h2"
    using serving_stop [OF o(2)] serving_start by blast
  note loop = serving_loop [OF 1(4) assms(5)]
  show ?thesis
  proof (cases "list_ex (list_ex ends_polling) batches")
    case False
    with o(1,3) 1(1,3) loop have "client_main e (map (\<lambda>events. [Arrive events]) batches) (legacy_start m) =
        Some (Still_polling h2)"
      by (simp add: client_main_def poll_calls_append)
    moreover obtain b where "in_use 0 b h2" "switched_on b = {1, 16}"
      using 1(4) unfolding serving_def by blast
    ultimately show ?thesis using False by (auto simp: in_use_def switched_on_def)
  next
    case True
    obtain h3 where 3: "poll_calls 0 (activate_all 0 [1, 16]) h2 = Some h3" "serving 0 {} h3"
      using serving_stop [OF 1(4)] by blast
    obtain h4 s where "poll__close 0 h3 = Some h4" "bosch h4 = Inl s" "contexts h4 0 = None"
        "active_indices (hw s) \<inter> {1, 16} = {}"
      using serving_close [OF 3(2)] by blast
    with True o(1,3) 1(1,3) loop 3(1) show ?thesis
      by (intro exI [of _ h4]) (simp add: client_main_def poll_calls_append)
  qed
qed

definition end_event :: sensors_event where
  "end_event = \<lparr> ev_version = 0, ev_sensor = 0, ev_type = 0, ev_timestamp = 0, ev_data = Meta_data 1 (-1) \<rparr>"

theorem client_ends_iff_witness:
  "(\<exists>h. client_main usual_env [[Arrive [end_event\<lparr>ev_data := Meta_data 1 16\<rparr>]], [Arrive [end_event]]]
      (legacy_start 18) = Some (Left_loop h)) \<and>
   (\<exists>h. client_main usual_env [[Arrive [end_event\<lparr>ev_data := Meta_data 1 16\<rparr>]]] (legacy_start 18) =
      Some (Still_polling h))"
  using client_ends_iff [of usual_env "[[end_event\<lparr>ev_data := Meta_data 1 16\<rparr>], [end_event]]" 18]
    client_ends_iff [of usual_env "[[end_event\<lparr>ev_data := Meta_data 1 16\<rparr>]]" 18]
  by (auto simp: usual_env_def end_event_def ends_polling_def)

text \<open>The events of samples, and the answers to flushes of the listed sensors, do not end it.\<close>

lemma own_events_do_not_end:
  "ev_version ev \<noteq> 0 \<Longrightarrow> \<not> ends_polling ev"
  "list_ex ends_polling (snd (send_flush_event calloc_ok write_ok handle pipe)) \<longleftrightarrow>
     list_ex ends_polling pipe \<or> calloc_ok \<and> write_ok \<and> handle = -1"
  by (auto simp: ends_polling_def send_flush_event_def sensord_deliver_event_def)

end
