(* ===== verification/Algo_Log.thy ===== *)
theory Algo_Log
  imports Sample_Pipeline Platform_Log
begin

text \<open>
  The data logs that \<open>sensord_algo_process\<close> (\<open>legacy/sensord/sensord_algo.cpp\<close>) writes beside the
  events when \<open>data_log\<close> or \<open>bsx_datalog\<close> is set: one line per slot of the alignment array, one
  line per package.  Every line is formatted in a local buffer of 256 bytes.  The results: the
  lines fit the buffer, there is one per slot and per package, in the order in which the
  packages are delivered, and the log files hold them.
\<close>

section \<open>Lines\<close>

record bsx_datalog_buf =
  log_x :: int
  log_y :: int
  log_z :: int
  log_t :: int

definition zero_buf :: bsx_datalog_buf where
  "zero_buf = \<lparr> log_x = 0, log_y = 0, log_z = 0, log_t = 0 \<rparr>"

definition package_buf :: "bsx_fifo_data \<Rightarrow> bsx_datalog_buf" where
  "package_buf pk = (case content_p pk of (x, y, z) \<Rightarrow>
     \<lparr> log_x = x, log_y = y, log_z = z, log_t = time_stamp pk \<rparr>)"

text \<open>The format \<open>"%d, %d, %d, %lld,\t %d, %d, %d, %lld\n"\<close>.\<close>

definition input_line :: "bsx_datalog_buf \<Rightarrow> bsx_datalog_buf \<Rightarrow> string" where
  "input_line a g = (let s = '', ''; t = '','' @ [CHR 0x09] @ '' '' in
     show_int (log_x a) @ s @ show_int (log_y a) @ s @ show_int (log_z a) @ s @ show_int (log_t a) @ t @
     show_int (log_x g) @ s @ show_int (log_y g) @ s @ show_int (log_z g) @ s @ show_int (log_t g) @
     [CHR 0x0A])"

text \<open>The format \<open>"%lld,\t%u,\t%d, %d, %d,\t%lld\n"\<close>; \<open>now\<close> is \<open>GET_TIME_TICK()\<close>.\<close>

definition bsx_line :: "int \<Rightarrow> bsx_fifo_data \<Rightarrow> string" where
  "bsx_line now pk = (case content_p pk of (x, y, z) \<Rightarrow>
     let s = '', ''; t = '','' @ [CHR 0x09] in
     show_int now @ t @ show_int (sensor_id pk) @ t @ show_int x @ s @ show_int y @ s @ show_int z @ t @
     show_int (time_stamp pk) @ [CHR 0x0A])"

section \<open>The log calls of a run\<close>

text \<open>\<open>tick n\<close> is the clock at the package with the number \<open>n\<close>; \<open>fo\<close> and \<open>ch\<close>: whether a log file
  can be opened and its mode set.\<close>

fun algo_log ::
    "sensord_cfg \<Rightarrow> bool \<Rightarrow> bool \<Rightarrow> (nat \<Rightarrow> int) \<Rightarrow> nat \<Rightarrow> u8 list \<Rightarrow> hw_data list \<Rightarrow> hw_data list \<Rightarrow>
      log_action list option" where
  "algo_log c fo ch tick n [] acc gyr = Some []"
| "algo_log c fo ch tick n (ind # inds) acc gyr =
     (let a = ind AND HAS_ACC \<noteq> 0; g = ind AND HAS_GYR \<noteq> 0;
          n1 = (if a then n + 1 else n); n2 = (if g then n1 + 1 else n1) in
      if (a \<and> acc = []) \<or> (g \<and> gyr = []) then None
      else do {
        rest \<leftarrow> algo_log c fo ch tick n2 inds (if a then tl acc else acc) (if g then tl gyr else gyr);
        Some ((if a \<and> bsx_datalog c \<noteq> 0
               then [Bsx_datalog fo ch (bsx_line (tick n) (acc_package (hd acc)))] else []) @
              (if g \<and> bsx_datalog c \<noteq> 0
               then [Bsx_datalog fo ch (bsx_line (tick n1) (gyr_package (hd gyr)))] else []) @
              (if data_log c \<noteq> 0
               then [Algo_input fo ch (input_line
                  (if a then package_buf (acc_package (hd acc)) else zero_buf)
                  (if g then package_buf (gyr_package (hd gyr)) else zero_buf))] else []) @ rest)
      })"

fun bsx_text :: "log_action \<Rightarrow> string list" where
  "bsx_text (Bsx_datalog fo ch t) = [t]"
| "bsx_text _ = []"

fun data_text :: "log_action \<Rightarrow> string list" where
  "data_text (Algo_input fo ch t) = [t]"
| "data_text _ = []"

lemma algo_log_agrees:
  "input_packages inds acc gyr = Some pks \<Longrightarrow> \<exists>acts. algo_log c fo ch tick n inds acc gyr = Some acts \<and>
     concat (map bsx_text acts) = (if bsx_datalog c \<noteq> 0
       then map (\<lambda>(i, pk). bsx_line (tick i) pk) (enumerate n pks) else []) \<and>
     length (concat (map data_text acts)) = (if data_log c \<noteq> 0 then length inds else 0) \<and>
     (fo \<longrightarrow> list_all input_opens acts) \<and>
     concat (map input_text acts) = concat (concat (map data_text acts))"
proof (induction inds arbitrary: acc gyr pks n)
  case (Cons ind inds)
  let ?a = "ind AND HAS_ACC \<noteq> 0" and ?g = "ind AND HAS_GYR \<noteq> 0"
  let ?acc = "if ?a then tl acc else acc" and ?gyr = "if ?g then tl gyr else gyr"
  let ?n1 = "if ?a then n + 1 else n"
  let ?n2 = "if ?g then ?n1 + 1 else ?n1"
  from Cons.prems obtain rest where ok: "\<not> ((?a \<and> acc = []) \<or> (?g \<and> gyr = []))"
    and rest: "input_packages inds ?acc ?gyr = Some rest"
    and pks: "pks = (if ?a then [acc_package (hd acc)] else []) @
      (if ?g then [gyr_package (hd gyr)] else []) @ rest"
    by (auto simp: Let_def split: if_splits bind_splits)
  obtain acts where acts: "algo_log c fo ch tick ?n2 inds ?acc ?gyr = Some acts"
    "concat (map bsx_text acts) = (if bsx_datalog c \<noteq> 0
       then map (\<lambda>(i, pk). bsx_line (tick i) pk) (enumerate ?n2 rest) else [])"
    "length (concat (map data_text acts)) = (if data_log c \<noteq> 0 then length inds else 0)"
    "fo \<longrightarrow> list_all input_opens acts"
    "concat (map input_text acts) = concat (concat (map data_text acts))"
    using Cons.IH [OF rest, of ?n2] by blast
  show ?case
    unfolding algo_log.simps Let_def if_not_P [OF ok] acts(1) pks
    using acts(2-5) by (cases ?a; cases ?g; simp)
qed simp

section \<open>Lines fit the buffer\<close>

lemma length_show_nat: "n < 10 ^ k \<Longrightarrow> k \<noteq> 0 \<Longrightarrow> length (show_nat n) \<le> k"
proof (induction n arbitrary: k rule: show_nat.induct)
  case (1 n)
  show ?case
  proof (cases "n < 10")
    case True
    with 1(3) show ?thesis by (simp add: show_nat.simps)
  next
    case False
    obtain j where j: "k = Suc j" using 1(3) by (cases k) auto
    with False 1(2) have "n div 10 < 10 ^ j" "j \<noteq> 0" by (auto intro: Nat.gr0I)
    with 1(1) [OF False] j False show ?thesis by (subst show_nat.simps) simp
  qed
qed

lemma length_show_int:
  assumes "\<bar>i\<bar> < 10 ^ k" "k \<noteq> 0"
  shows "length (show_int i) \<le> Suc k"
proof -
  have "nat (- i) < 10 ^ k" "nat i < 10 ^ k" using assms(1) by (auto simp: nat_less_iff)
  with length_show_nat [OF _ assms(2)] show ?thesis
    by (auto simp: show_int_def intro: le_SucI)
qed

text \<open>Contents are 32-bit, time stamps 64-bit integers.\<close>

definition buf_range :: "bsx_datalog_buf \<Rightarrow> bool" where
  "buf_range d \<longleftrightarrow> \<bar>log_x d\<bar> \<le> 2 ^ 31 \<and> \<bar>log_y d\<bar> \<le> 2 ^ 31 \<and> \<bar>log_z d\<bar> \<le> 2 ^ 31 \<and> \<bar>log_t d\<bar> \<le> 2 ^ 63"

lemma length_show32: "\<bar>i\<bar> \<le> 2 ^ 31 \<Longrightarrow> length (show_int i) \<le> 11"
  using length_show_int [of i 10] by simp

lemma length_show64: "\<bar>i\<bar> \<le> 2 ^ 63 \<Longrightarrow> length (show_int i) \<le> 20"
  using length_show_int [of i 19] by simp

lemma input_line_fits:
  assumes "buf_range a" "buf_range g"
  shows "length (input_line a g) < 256"
  using assms length_show32 [of "log_x a"] length_show32 [of "log_y a"] length_show32 [of "log_z a"]
    length_show32 [of "log_x g"] length_show32 [of "log_y g"] length_show32 [of "log_z g"]
    length_show64 [of "log_t a"] length_show64 [of "log_t g"]
  by (simp add: buf_range_def input_line_def Let_def)

lemma bsx_line_fits:
  assumes "buf_range (package_buf pk)" "\<bar>now\<bar> \<le> 2 ^ 63" "\<bar>sensor_id pk\<bar> \<le> 2 ^ 31"
  shows "length (bsx_line now pk) < 256"
proof -
  obtain x y z where c: "content_p pk = (x, y, z)" by (cases "content_p pk")
  show ?thesis
    using assms length_show32 [of x] length_show32 [of y] length_show32 [of z]
      length_show64 [of "time_stamp pk"] length_show64 [of now] length_show32 [of "sensor_id pk"]
    by (simp add: buf_range_def package_buf_def bsx_line_def Let_def c)
qed

section \<open>The log files\<close>

text \<open>C30: While a run of the sensord thread delivers events, bsx_datalog receives one line
  per package in the order of delivery and the input log one line per slot of the
  alignment array; the input log holds its lines after those of earlier runs.\<close>

theorem algo_log_lines:
  assumes "pltf_open pl" "input_log pl u"
  shows "\<exists>pks acts pl'. input_packages (sort_input_samples acc gyr) acc gyr = Some pks \<and>
    algo_log c True ch tick 0 (sort_input_samples acc gyr) acc gyr = Some acts \<and>
    concat (map bsx_text acts) = (if bsx_datalog c \<noteq> 0
      then map (\<lambda>(i, pk). bsx_line (tick i) pk) (enumerate 0 pks) else []) \<and>
    length (concat (map data_text acts)) =
      (if data_log c \<noteq> 0 then length (sort_input_samples acc gyr) else 0) \<and>
    log_run lv cat acts pl = Some pl' \<and> pltf_open pl' \<and>
    input_log pl' (u @ concat (concat (map data_text acts)))"
proof -
  obtain pks where pks: "input_packages (sort_input_samples acc gyr) acc gyr = Some pks"
    using sort_input_samples_aligned [of acc gyr] by (auto simp: aligned_def split: option.splits)
  obtain acts where acts: "algo_log c True ch tick 0 (sort_input_samples acc gyr) acc gyr = Some acts"
    "concat (map bsx_text acts) = (if bsx_datalog c \<noteq> 0
      then map (\<lambda>(i, pk). bsx_line (tick i) pk) (enumerate 0 pks) else [])"
    "length (concat (map data_text acts)) =
      (if data_log c \<noteq> 0 then length (sort_input_samples acc gyr) else 0)"
    "list_all input_opens acts" "concat (map input_text acts) = concat (concat (map data_text acts))"
    using algo_log_agrees [OF pks, of c True ch tick 0] by blast
  from log_run_open [OF assms(1), of lv cat acts] acts(4) assms(2)
  obtain pl' where "log_run lv cat acts pl = Some pl'" "pltf_open pl'"
    "input_log pl' (u @ concat (map input_text acts))" by blast
  with pks acts show ?thesis by metis
qed

lemma algo_log_lines_witness:
  "\<exists>acts pl'. algo_log (default_cfg\<lparr>data_log := 1, bsx_datalog := 1\<rparr>) True True int 0
       (sort_input_samples [sample_at 1 5] [sample_at 2 5]) [sample_at 1 5] [sample_at 2 5] = Some acts \<and>
     length (concat (map data_text acts)) = length (sort_input_samples [sample_at 1 5] [sample_at 2 5]) \<and>
     log_run 28 1 acts ((pltf_start 18)\<lparr>g_fp_trace := Std_out\<rparr>) = Some pl' \<and>
     input_log pl' (concat (concat (map data_text acts)))"
proof -
  let ?pl = "(pltf_start 18)\<lparr>g_fp_trace := Std_out\<rparr>"
  have "pltf_open ?pl" "input_log ?pl []"
    by (simp_all add: pltf_open_def input_log_def pltf_start_def)
  from algo_log_lines [OF this, of "[sample_at 1 5]" "[sample_at 2 5]"
      "default_cfg\<lparr>data_log := 1, bsx_datalog := 1\<rparr>" True int 28 1]
  show ?thesis by auto
qed

end
