(* ===== verification/Hal_Types.thy ===== *)
theory Hal_Types
  imports Sensor_Constants C_Float
begin

text \<open>
  The data that the newer HALs (\<open>2.X\<close>, \<open>2.1\<close>, \<open>aidl\<close>, \<open>multihal\<close>) exchange with the sensors
  framework: results, operation modes, sensor descriptions and events.  The interface
  definitions themselves belong to the Android platform; the types here hold the members that
  the sources read and write.  Events are polymorphic in the representation of a \<open>float\<close>: the
  sensor classes compute with the rational value, the conversion routines only move the 32-bit
  pattern.  The theory also holds the ordered map that stands for \<open>std::map<int32_t, T>\<close>.
\<close>

type_synonym handle = "32 word"

datatype result = OK | PERMISSION_DENIED | NO_MEMORY | BAD_VALUE | INVALID_OPERATION

datatype operation_mode = NORMAL | DATA_INJECTION

datatype rate_level = STOP | RATE_NORMAL | FAST | VERY_FAST

datatype shared_mem_type = ASHMEM | GRALLOC

datatype shared_mem_format = SENSORS_EVENT

text \<open>A native handle is its file descriptors and its integers.\<close>

record shared_mem_info =
  sm_type :: shared_mem_type
  sm_format :: shared_mem_format
  sm_size :: u32
  sm_memoryHandle :: "int list \<times> int list"

abbreviation (input) "SENSOR_TYPE_HINGE_ANGLE \<equiv> (36 :: int)"
abbreviation (input) "SENSOR_TYPE_HEAD_TRACKER \<equiv> (37 :: int)"

record sensor_info =
  si_handle :: handle
  si_name :: string
  si_vendor :: string
  si_version :: int
  si_type :: int
  si_typeAsString :: string
  si_maxRange :: rat
  si_resolution :: rat
  si_power :: rat
  si_minDelay :: int
  si_fifoReservedEventCount :: int
  si_fifoMaxEventCount :: int
  si_requiredPermission :: string
  si_maxDelay :: int
  si_flags :: u32

text \<open>The value-initialised description, which \<open>operator[]\<close> of \<open>std::map\<close> inserts for a key
  that is missing.\<close>

definition default_info :: sensor_info where
  "default_info = \<lparr> si_handle = 0, si_name = [], si_vendor = [], si_version = 0, si_type = 0,
     si_typeAsString = [], si_maxRange = 0, si_resolution = 0, si_power = 0, si_minDelay = 0,
     si_fifoReservedEventCount = 0, si_fifoMaxEventCount = 0, si_requiredPermission = [],
     si_maxDelay = 0, si_flags = 0 \<rparr>"

definition is_wake_up :: "sensor_info \<Rightarrow> bool" where
  "is_wake_up i \<longleftrightarrow> si_flags i AND SENSOR_FLAG_WAKE_UP \<noteq> 0"

datatype 'f payload =
    Meta int
  | Vec3 'f 'f 'f int
  | Vec4 'f 'f 'f 'f
  | Uncal 'f 'f 'f 'f 'f 'f
  | Scalar 'f
  | StepCount u64
  | HeartRate 'f int
  | Pose6DOF "'f list"
  | Dynamic bool handle "u8 list"
  | Additional int int "u32 list"
  | Data "'f list"

record 'f event =
  ev_timestamp :: int
  ev_handle :: handle
  ev_type :: int
  ev_u :: "'f payload"

abbreviation (input) "META_DATA_FLUSH_COMPLETE \<equiv> (1 :: int)"
abbreviation (input) "ACCURACY_HIGH \<equiv> (3 :: int)"

section \<open>Maps keyed by a signed 32-bit handle\<close>

text \<open>Entries in ascending signed order of their keys, as an iteration over the map visits them.\<close>

type_synonym 'v handle_map = "(handle \<times> 'v) list"

fun map_put :: "handle \<Rightarrow> 'v \<Rightarrow> 'v handle_map \<Rightarrow> 'v handle_map" where
  "map_put k v [] = [(k, v)]"
| "map_put k v ((k', v') # m) =
     (if k = k' then (k, v) # m
      else if sint k < sint k' then (k, v) # (k', v') # m
      else (k', v') # map_put k v m)"

definition map_erase :: "handle \<Rightarrow> 'v handle_map \<Rightarrow> 'v handle_map" where
  "map_erase k m = filter (\<lambda>e. fst e \<noteq> k) m"

definition map_keys_sorted :: "'v handle_map \<Rightarrow> bool" where
  "map_keys_sorted m \<longleftrightarrow> sorted_wrt (<) (map (sint \<circ> fst) m)"

named_theorems handle_map_simps \<open>lookups in and updates of handle maps\<close>

lemma map_of_put [handle_map_simps]: "map_of (map_put k v m) = (map_of m)(k \<mapsto> v)"
  by (induction m) auto

lemma set_map_put: "e \<in> set (map_put k v m) \<Longrightarrow> e = (k, v) \<or> e \<in> set m"
  by (induction k v m rule: map_put.induct) (auto split: if_splits)

lemma keys_map_put: "fst ` set (map_put k v m) = insert k (fst ` set m)"
  by (simp add: dom_map_of_conv_image_fst [symmetric] map_of_put)

lemma map_keys_sorted_Nil [simp]: "map_keys_sorted []"
  by (simp add: map_keys_sorted_def)

lemma map_keys_sorted_put:
  assumes "map_keys_sorted m"
  shows "map_keys_sorted (map_put k v m)"
  using assms
proof (induction m)
  case (Cons e m)
  obtain k' v' where e: "e = (k', v')" by (cases e)
  from Cons.prems have m: "map_keys_sorted m" and lt: "\<And>x. x \<in> fst ` set m \<Longrightarrow> sint k' < sint x"
    by (auto simp: map_keys_sorted_def e)
  have ne: "sint k < sint k' \<or> sint k' < sint k" if "k \<noteq> k'"
    using that word_eq_iff_signed [of k k'] by (metis linorder_neqE)
  have above: "sint k' < sint x" if "x \<in> fst ` set (map_put k v m)" "sint k' < sint k" for x
    using that lt keys_map_put [of k v m] by auto
  show ?case
    using Cons.IH [OF m] m lt ne above
    by (fastforce simp: map_keys_sorted_def e)
qed (simp add: map_keys_sorted_def)

lemma map_keys_sorted_distinct: "map_keys_sorted m \<Longrightarrow> distinct (map fst m)"
proof (induction m)
  case (Cons e m)
  then show ?case by (force simp: map_keys_sorted_def)
qed simp

lemma map_of_erase [handle_map_simps]: "map_of (map_erase k m) = (map_of m)(k := None)"
  by (induction m) (auto simp: map_erase_def)

lemma map_keys_sorted_erase: "map_keys_sorted m \<Longrightarrow> map_keys_sorted (map_erase k m)"
  by (induction m) (auto simp: map_keys_sorted_def map_erase_def)

end
