(* ===== verification/Hal_Sensor.thy ===== *)
theory Hal_Sensor
  imports Hal_Types Sysfs
begin

text \<open>
  The sensor objects of the newer HALs: \<open>common/BoschSensors.h\<close> (the two SMI240 sensors) and the
  class \<open>Sensor\<close>, which the repository has three times, in \<open>2.X/Sensor.cpp\<close>, \<open>aidl/Sensor.cpp\<close>
  and \<open>multihal/Sensor.cpp\<close>.  Where the three differ there are three definitions, and the results
  say when they agree: the clamping of the sampling period, and the value of a sample.  The loop of
  the run thread is one iteration per wake-up, with the clock as its input; events are at least the
  sensor's minimal delay apart.  Reading the sysfs file is an input (its text, or \<open>None\<close>).
\<close>

section \<open>The two sensors\<close>

definition gravityToAcceleration :: "rat \<Rightarrow> rat" where
  "gravityToAcceleration gravity = f32 (gravity * f32 (980665 / 100000))"

text \<open>\<open>float * double / float\<close> is computed in double and returned as \<open>float\<close>.\<close>

definition M_PI :: rat where
  "M_PI = f64 (314159265358979323846 / 10 ^ 20)"

definition degreeToRad :: "rat \<Rightarrow> rat" where
  "degreeToRad degree = f32 (f64 (f64 (degree * M_PI) / 180))"

record sensor =
  mSensorInfo :: sensor_info
  mIsEnabled :: bool
  mSamplingPeriodNs :: int
  mLastSampleTimeNs :: int
  mStopThread :: bool
  mIioFileName :: string

definition new_Sensor :: "sensor_info \<Rightarrow> string \<Rightarrow> sensor" where
  "new_Sensor info file = \<lparr> mSensorInfo = info, mIsEnabled = False, mSamplingPeriodNs = 0,
     mLastSampleTimeNs = 0, mStopThread = False, mIioFileName = file \<rparr>"

definition SMI240ACC :: string where
  "SMI240ACC = ''/sys/bus/iio/devices/iio:device0/in_accel_x&y&z_raw''"

definition SMI240GYRO :: string where
  "SMI240GYRO = ''/sys/bus/iio/devices/iio:device0/in_anglvel_x&y&z_raw''"

definition Smi240Accel :: "handle \<Rightarrow> sensor" where
  "Smi240Accel sensorHandle = new_Sensor \<lparr> si_handle = sensorHandle,
     si_name = ''BOSCH SMI240 Accelerometer Sensor'', si_vendor = ''Robert Bosch GmbH'',
     si_version = 1, si_type = SENSOR_TYPE_ACCELEROMETER,
     si_typeAsString = ''android.sensor.accelerometer'',
     si_maxRange = gravityToAcceleration 16,
     si_resolution = gravityToAcceleration (f32 (1 / 2000)), si_power = 5,
     si_minDelay = 10000, si_fifoReservedEventCount = 0, si_fifoMaxEventCount = 0,
     si_requiredPermission = '''', si_maxDelay = 200000, si_flags = 0 \<rparr> SMI240ACC"

definition Smi240Gyro :: "handle \<Rightarrow> sensor" where
  "Smi240Gyro sensorHandle = new_Sensor \<lparr> si_handle = sensorHandle,
     si_name = ''BOSCH SMI240 Gyroscope Sensor'', si_vendor = ''Robert Bosch GmbH'',
     si_version = 1, si_type = SENSOR_TYPE_GYROSCOPE,
     si_typeAsString = ''android.sensor.gyroscope'',
     si_maxRange = degreeToRad 300, si_resolution = degreeToRad (f32 (1 / 100)), si_power = 5,
     si_minDelay = 10000, si_fifoReservedEventCount = 0, si_fifoMaxEventCount = 0,
     si_requiredPermission = '''', si_maxDelay = 200000, si_flags = 0 \<rparr> SMI240GYRO"

section \<open>batch, activate\<close>

text \<open>\<open>std::clamp\<close> in the sub-HAL; the same bounds by comparisons in the other two.\<close>

definition clamp :: "int \<Rightarrow> int \<Rightarrow> int \<Rightarrow> int" where
  "clamp v lo hi = (if v < lo then lo else if hi < v then hi else v)"

definition set_period :: "int \<Rightarrow> sensor \<Rightarrow> sensor" where
  "set_period p s = (if mSamplingPeriodNs s \<noteq> p then s\<lparr>mSamplingPeriodNs := p\<rparr> else s)"

definition sensor_batch_multihal :: "int \<Rightarrow> sensor \<Rightarrow> sensor" where
  "sensor_batch_multihal samplingPeriodNs s =
     set_period (clamp samplingPeriodNs (si_minDelay (mSensorInfo s) * 1000)
       (si_maxDelay (mSensorInfo s) * 1000)) s"

definition sensor_batch_2X :: "int \<Rightarrow> sensor \<Rightarrow> sensor" where
  "sensor_batch_2X samplingPeriodNs s =
     set_period
       (if samplingPeriodNs < si_minDelay (mSensorInfo s) * 1000
        then si_minDelay (mSensorInfo s) * 1000
        else if samplingPeriodNs > si_maxDelay (mSensorInfo s) * 1000
        then si_maxDelay (mSensorInfo s) * 1000 else samplingPeriodNs) s"

definition sensor_batch_aidl :: "int \<Rightarrow> sensor \<Rightarrow> sensor" where
  "sensor_batch_aidl samplingPeriodNs s =
     (let p = (if samplingPeriodNs < si_minDelay (mSensorInfo s) * 1000
               then si_minDelay (mSensorInfo s) * 1000
               else if samplingPeriodNs > si_maxDelay (mSensorInfo s) * 1000
               then si_maxDelay (mSensorInfo s) * 1000 else samplingPeriodNs)
      in set_period p s)"

lemma sensor_batch_same:
  "sensor_batch_2X = sensor_batch_multihal" "sensor_batch_aidl = sensor_batch_multihal"
  by (auto simp: fun_eq_iff sensor_batch_2X_def sensor_batch_aidl_def sensor_batch_multihal_def
      clamp_def)

definition sensor_activate :: "bool \<Rightarrow> sensor \<Rightarrow> sensor" where
  "sensor_activate enable s = (if mIsEnabled s \<noteq> enable then s\<lparr>mIsEnabled := enable\<rparr> else s)"

definition isWakeUpSensor :: "sensor \<Rightarrow> bool" where
  "isWakeUpSensor s \<longleftrightarrow> is_wake_up (mSensorInfo s)"

definition supportsDataInjection :: "sensor \<Rightarrow> bool" where
  "supportsDataInjection s \<longleftrightarrow> si_flags (mSensorInfo s) AND SENSOR_FLAG_DATA_INJECTION \<noteq> 0"

section \<open>flush, operation mode, injection\<close>

text \<open>Answers of the AIDL interface.\<close>

datatype status = S_OK | EX_SECURITY | EX_ILLEGAL_ARGUMENT | EX_UNSUPPORTED_OPERATION
  | EX_TRANSACTION_FAILED | ERROR_NO_MEMORY | ERROR_BAD_VALUE

text \<open>The time stamp of the flush event is not assigned: \<open>t\<close> is what it holds.\<close>

definition flush_event :: "int \<Rightarrow> sensor \<Rightarrow> rat event" where
  "flush_event t s = \<lparr> ev_timestamp = t, ev_handle = si_handle (mSensorInfo s),
     ev_type = SENSOR_TYPE_META_DATA, ev_u = Meta META_DATA_FLUSH_COMPLETE \<rparr>"

definition sensor_flush :: "int \<Rightarrow> sensor \<Rightarrow> result \<times> (rat event list \<times> bool) list" where
  "sensor_flush t s =
     (if \<not> mIsEnabled s \<or> si_flags (mSensorInfo s) AND SENSOR_FLAG_ONE_SHOT_MODE \<noteq> 0
      then (BAD_VALUE, []) else (OK, [([flush_event t s], isWakeUpSensor s)]))"

definition sensor_flush_aidl :: "int \<Rightarrow> sensor \<Rightarrow> status \<times> (rat event list \<times> bool) list" where
  "sensor_flush_aidl t s =
     (if \<not> mIsEnabled s \<or> si_flags (mSensorInfo s) AND SENSOR_FLAG_ONE_SHOT_MODE \<noteq> 0
      then (ERROR_BAD_VALUE, []) else (S_OK, [([flush_event t s], isWakeUpSensor s)]))"

definition sensor_setOperationMode_2X :: "operation_mode \<Rightarrow> sensor \<Rightarrow> result" where
  "sensor_setOperationMode_2X mode s = (if mode = NORMAL then OK else BAD_VALUE)"

definition sensor_setOperationMode_aidl :: "operation_mode \<Rightarrow> sensor \<Rightarrow> status" where
  "sensor_setOperationMode_aidl mode s = (if mode = NORMAL then S_OK else EX_ILLEGAL_ARGUMENT)"

definition sensor_injectEvent :: "'f event \<Rightarrow> sensor \<Rightarrow> result" where
  "sensor_injectEvent ev s = INVALID_OPERATION"

definition sensor_injectEvent_aidl :: "'f event \<Rightarrow> sensor \<Rightarrow> status" where
  "sensor_injectEvent_aidl ev s =
     (if ev_type ev = SENSOR_TYPE_ADDITIONAL_INFO then S_OK
      else if \<not> supportsDataInjection s then EX_UNSUPPORTED_OPERATION else ERROR_BAD_VALUE)"

section \<open>The run thread\<close>

text \<open>One pass of the loop of \<open>run\<close> with the sensor enabled: whether events are posted, and how
  long the thread waits.\<close>

definition run_iteration :: "int \<Rightarrow> sensor \<Rightarrow> bool \<times> int \<times> sensor" where
  "run_iteration now s =
     (let nextSampleTime = mLastSampleTimeNs s + mSamplingPeriodNs s in
      if now \<ge> nextSampleTime
      then let s' = s\<lparr>mLastSampleTimeNs := now\<rparr> in
        (True, mLastSampleTimeNs s' + mSamplingPeriodNs s' - now, s')
      else (False, nextSampleTime - now, s))"

datatype sensor_call = Batch int | Activate bool | Wake int

fun sensor_step :: "sensor_call \<Rightarrow> sensor \<Rightarrow> int list \<times> sensor" where
  "sensor_step (Batch p) s = ([], sensor_batch_multihal p s)"
| "sensor_step (Activate b) s = ([], sensor_activate b s)"
| "sensor_step (Wake now) s =
     (if mIsEnabled s then case run_iteration now s of (posts, wait, s') \<Rightarrow>
        (if posts then [now] else [], s')
      else ([], s))"

text \<open>The times at which events are posted.\<close>

fun sample_times :: "sensor_call list \<Rightarrow> sensor \<Rightarrow> int list" where
  "sample_times [] s = []"
| "sample_times (c # cs) s = (case sensor_step c s of (ts, s') \<Rightarrow> ts @ sample_times cs s')"

text \<open>What the loop guarantees between two calls of \<open>batch\<close>.\<close>

lemma run_iteration_cases:
  "run_iteration now s = (if mLastSampleTimeNs s + mSamplingPeriodNs s \<le> now
     then (True, mSamplingPeriodNs s, s\<lparr>mLastSampleTimeNs := now\<rparr>)
     else (False, mLastSampleTimeNs s + mSamplingPeriodNs s - now, s))"
  by (simp add: run_iteration_def Let_def)

text \<open>A pass of the run thread waits until the last sample time plus the period, never longer
  than a period, and posts exactly when that time has come.\<close>

theorem run_iteration_waits_for_next_sample:
  assumes "run_iteration now s = (posts, wait, s')"
    and "mLastSampleTimeNs s \<le> now" "0 \<le> mSamplingPeriodNs s"
  shows "now + wait = mLastSampleTimeNs s' + mSamplingPeriodNs s' \<and> 0 \<le> wait \<and>
    wait \<le> mSamplingPeriodNs s \<and> mLastSampleTimeNs s' \<le> now \<and>
    (posts \<longleftrightarrow> mLastSampleTimeNs s + mSamplingPeriodNs s \<le> now) \<and>
    mLastSampleTimeNs s' = (if posts then now else mLastSampleTimeNs s)"
  using assms by (auto simp: run_iteration_cases split: if_splits)

definition sane_info :: "sensor_info \<Rightarrow> bool" where
  "sane_info i \<longleftrightarrow> 0 < si_minDelay i \<and> si_minDelay i \<le> si_maxDelay i"

lemma sensor_batch_bounds:
  assumes "sane_info (mSensorInfo s)"
  shows "si_minDelay (mSensorInfo s) * 1000 \<le> mSamplingPeriodNs (sensor_batch_multihal p s)"
    "mSamplingPeriodNs (sensor_batch_multihal p s) \<le> si_maxDelay (mSensorInfo s) * 1000"
    "mSensorInfo (sensor_batch_multihal p s) = mSensorInfo s"
    "mLastSampleTimeNs (sensor_batch_multihal p s) = mLastSampleTimeNs s"
  using assms by (auto simp: sensor_batch_multihal_def set_period_def clamp_def sane_info_def)

lemma sensor_step_keeps:
  assumes "sensor_step c s = (ts, s')" "sane_info (mSensorInfo s)"
    and "si_minDelay (mSensorInfo s) * 1000 \<le> mSamplingPeriodNs s"
  shows "mSensorInfo s' = mSensorInfo s \<and>
    si_minDelay (mSensorInfo s) * 1000 \<le> mSamplingPeriodNs s' \<and>
    (ts = [] \<and> mLastSampleTimeNs s' = mLastSampleTimeNs s \<or>
     (\<exists>t. ts = [t] \<and> mLastSampleTimeNs s' = t \<and>
       mLastSampleTimeNs s + si_minDelay (mSensorInfo s) * 1000 \<le> t))"
  using assms sensor_batch_bounds [of s]
  by (cases c) (auto simp: sensor_activate_def run_iteration_cases split: if_splits)

lemma sample_times_spread:
  "sane_info (mSensorInfo s) \<Longrightarrow> si_minDelay (mSensorInfo s) * 1000 \<le> mSamplingPeriodNs s \<Longrightarrow>
     sorted_wrt (\<lambda>a b. a + si_minDelay (mSensorInfo s) * 1000 \<le> b)
       (mLastSampleTimeNs s # sample_times cs s)"
proof (induction cs arbitrary: s)
  case (Cons c cs)
  obtain ts s' where st: "sensor_step c s = (ts, s')" by fastforce
  note K = sensor_step_keeps [OF st Cons.prems]
  then have "sorted_wrt (\<lambda>a b. a + si_minDelay (mSensorInfo s) * 1000 \<le> b)
      (mLastSampleTimeNs s' # sample_times cs s')"
    using Cons.IH [of s'] Cons.prems by simp
  moreover have "0 < si_minDelay (mSensorInfo s) * 1000"
    using Cons.prems(1) by (simp add: sane_info_def)
  ultimately show ?case using K st by fastforce
qed simp



theorem run_iteration_waits_for_next_sample_witness:
  "\<exists>w s'. run_iteration 7 ((Smi240Gyro 2)\<lparr>mSamplingPeriodNs := 10, mLastSampleTimeNs := 4\<rparr>) =
     (False, w, s') \<and> 7 + w = 14"
proof -
  let ?s = "(Smi240Gyro 2)\<lparr>mSamplingPeriodNs := 10, mLastSampleTimeNs := 4\<rparr>"
  have "run_iteration 7 ?s = (False, 7, ?s)"
    by (simp add: run_iteration_cases)
  from this run_iteration_waits_for_next_sample [OF this] show ?thesis by simp
qed

section \<open>Reading a sample\<close>

text \<open>Extraction of strings from a stream: maximal runs of characters that are not white space.\<close>

definition isspace :: "char \<Rightarrow> bool" where
  "isspace c \<longleftrightarrow> c = CHR '' '' \<or> (9 \<le> (of_char c :: nat) \<and> (of_char c :: nat) \<le> 13)"

fun words_from :: "string \<Rightarrow> string \<Rightarrow> string list" where
  "words_from w [] = (if w = [] then [] else [w])"
| "words_from w (c # cs) =
     (if isspace c then (if w = [] then [] else [w]) @ words_from [] cs
      else words_from (w @ [c]) cs)"

definition words_of :: "string \<Rightarrow> string list" where
  "words_of s = words_from [] s"

text \<open>\<open>strtod\<close> on a word in plain decimal notation: a sign, digits, a fraction.  A word that does
  not start with a number is \<open>Not_a_number\<close>; exponents, hexadecimal notation, infinities, NaN and
  magnitudes outside the normal range of \<open>float\<close> are \<open>Other_notation\<close>, which the model leaves
  open.\<close>

datatype numeral_text = Number rat | Not_a_number | Other_notation

definition in_float_range :: "rat \<Rightarrow> bool" where
  "in_float_range v \<longleftrightarrow> v = 0 \<or> 1 / 2 ^ 126 \<le> \<bar>v\<bar> \<and> \<bar>v\<bar> < 2 ^ 127"

definition unsigned_number :: "string \<Rightarrow> numeral_text" where
  "unsigned_number p =
     (case scan_digits 0 p of (whole, rest) \<Rightarrow>
        let digits = length p - length rest;
            fraction = (case rest of c # cs \<Rightarrow> if c = CHR ''.'' then Some cs else None | [] \<Rightarrow> None);
            tail = (case fraction of None \<Rightarrow> rest | Some cs \<Rightarrow> snd (scan_digits 0 cs));
            places = (case fraction of None \<Rightarrow> 0 | Some cs \<Rightarrow> length cs - length tail);
            value = of_nat whole +
              (case fraction of None \<Rightarrow> 0 | Some cs \<Rightarrow> of_nat (fst (scan_digits 0 cs)) / 10 ^ places)
        in if digits + places = 0 then
             (case p of c # _ \<Rightarrow> if c \<in> set ''iInN'' then Other_notation else Not_a_number
              | [] \<Rightarrow> Not_a_number)
           else if tail \<noteq> [] \<and> hd tail \<in> set ''eExX'' \<or> \<not> in_float_range value then Other_notation
           else Number value)"

definition negate_number :: "numeral_text \<Rightarrow> numeral_text" where
  "negate_number n = (case n of Number v \<Rightarrow> Number (- v) | _ \<Rightarrow> n)"

fun parse_number :: "string \<Rightarrow> numeral_text" where
  "parse_number [] = Not_a_number"
| "parse_number (c # cs) =
     (if c = CHR ''-'' then negate_number (unsigned_number cs)
      else if c = CHR ''+'' then unsigned_number cs
      else unsigned_number (c # cs))"

text \<open>\<open>atof\<close> answers 0 where there is no number; \<open>std::stof\<close> throws.  Outside the notation
  covered both are \<open>None\<close> here.\<close>

definition atof :: "string \<Rightarrow> rat option" where
  "atof w = (case parse_number w of Number v \<Rightarrow> Some (f64 v) | Not_a_number \<Rightarrow> Some 0
     | Other_notation \<Rightarrow> None)"

datatype stof_result = Stof rat | Throws | Unknown

definition stof :: "string \<Rightarrow> stof_result" where
  "stof w = (case parse_number w of Number v \<Rightarrow> Stof (f32 v) | Not_a_number \<Rightarrow> Throws
     | Other_notation \<Rightarrow> Unknown)"

text \<open>\<open>readFromFile\<close> of \<open>hwctl/iioHwctl.cpp\<close>: -1 without the file.\<close>

definition readFromFile :: "(string \<Rightarrow> string option) \<Rightarrow> string \<Rightarrow> string \<Rightarrow> int \<times> string" where
  "readFromFile fs filename result = (case fs filename of
     None \<Rightarrow> (-1, result) | Some text \<Rightarrow> (0, text))"

text \<open>The product of a \<open>double\<close> and a \<open>float\<close> is a \<open>double\<close>; the member is a \<open>float\<close>.\<close>

definition axis_value :: "rat \<Rightarrow> rat \<Rightarrow> rat" where
  "axis_value d resolution = f32 (f64 (d * resolution))"

definition fillPayload :: "string \<Rightarrow> sensor \<Rightarrow> rat payload \<Rightarrow> rat payload option" where
  "fillPayload data s payload =
     (let results = words_of data; res = si_resolution (mSensorInfo s) in
      if length results > 2 then do {
        x \<leftarrow> atof (results ! 0);
        y \<leftarrow> atof (results ! 1);
        z \<leftarrow> atof (results ! 2);
        Some (Vec3 (axis_value x res) (axis_value y res) (axis_value z res) ACCURACY_HIGH)
      }
      else Some payload)"

definition readEventPayload ::
    "(string \<Rightarrow> string option) \<Rightarrow> sensor \<Rightarrow> rat payload \<Rightarrow> rat payload option" where
  "readEventPayload fs s payload =
     (case readFromFile fs (mIioFileName s) [] of (ret, values) \<Rightarrow>
        if ret = 0 then fillPayload values s payload else Some payload)"

text \<open>The AIDL variant.  The outer \<open>None\<close> is text that the model does not cover; \<open>Inl ()\<close> is the
  exception of \<open>std::stof\<close>, which nothing catches.\<close>

definition fillPayload_aidl :: "string \<Rightarrow> sensor \<Rightarrow> rat payload \<Rightarrow> (unit + rat payload) option" where
  "fillPayload_aidl data s payload =
     (let results = words_of data; res = si_resolution (mSensorInfo s) in
      if length results > 2 then
        (case (stof (results ! 0), stof (results ! 1), stof (results ! 2)) of
           (Throws, _, _) \<Rightarrow> Some (Inl ())
         | (Stof x, Throws, _) \<Rightarrow> Some (Inl ())
         | (Stof x, Stof y, Throws) \<Rightarrow> Some (Inl ())
         | (Stof x, Stof y, Stof z) \<Rightarrow>
             Some (Inr (Vec3 (f32 (x * res)) (f32 (y * res)) (f32 (z * res)) ACCURACY_HIGH))
         | _ \<Rightarrow> None)
      else Some (Inr payload))"

definition readEventPayload_aidl ::
    "(string \<Rightarrow> string option) \<Rightarrow> sensor \<Rightarrow> rat payload \<Rightarrow> (unit + rat payload) option" where
  "readEventPayload_aidl fs s payload =
     (case readFromFile fs (mIioFileName s) [] of (ret, values) \<Rightarrow>
        if ret = 0 then fillPayload_aidl values s payload else Some (Inr payload))"

text \<open>\<open>readEvents\<close>: one event.  The sub-HAL zeroes the three axes only, so that \<open>status\<close> is what
  the memory holds; the other two clear the whole payload, which for the tagged AIDL union is the
  value \<open>zeroed\<close>.\<close>

definition readEvents_multihal ::
    "int \<Rightarrow> int \<Rightarrow> (string \<Rightarrow> string option) \<Rightarrow> sensor \<Rightarrow> rat event list option" where
  "readEvents_multihal stale_status now fs s = do {
     u \<leftarrow> readEventPayload fs s (Vec3 0 0 0 stale_status);
     Some [\<lparr> ev_timestamp = now, ev_handle = si_handle (mSensorInfo s),
       ev_type = si_type (mSensorInfo s), ev_u = u \<rparr>]
   }"

definition readEvents_2X ::
    "int \<Rightarrow> (string \<Rightarrow> string option) \<Rightarrow> sensor \<Rightarrow> rat event list option" where
  "readEvents_2X now fs s = do {
     u \<leftarrow> readEventPayload fs s (Vec3 0 0 0 0);
     Some [\<lparr> ev_timestamp = now, ev_handle = si_handle (mSensorInfo s),
       ev_type = si_type (mSensorInfo s), ev_u = u \<rparr>]
   }"

definition readEvents_aidl ::
    "rat payload \<Rightarrow> int \<Rightarrow> (string \<Rightarrow> string option) \<Rightarrow> sensor \<Rightarrow> (unit + rat event list) option" where
  "readEvents_aidl zeroed now fs s = (case readEventPayload_aidl fs s zeroed of
     None \<Rightarrow> None
   | Some (Inl _) \<Rightarrow> Some (Inl ())
   | Some (Inr u) \<Rightarrow> Some (Inr [\<lparr> ev_timestamp = now, ev_handle = si_handle (mSensorInfo s),
       ev_type = si_type (mSensorInfo s), ev_u = u \<rparr>]))"

section \<open>The value of a sample\<close>

text \<open>The line that the driver writes: three decimal numbers.\<close>

definition sysfs_line :: "int \<Rightarrow> int \<Rightarrow> int \<Rightarrow> string" where
  "sysfs_line x y z = show_int x @ '' '' @ show_int y @ '' '' @ show_int z @ [CHR 0x0A]"

lemma words_from_word:
  "\<forall>c\<in>set u. \<not> isspace c \<Longrightarrow> isspace c \<Longrightarrow>
   words_from w (u @ c # cs) = (if w @ u = [] then [] else [w @ u]) @ words_from [] cs"
  by (induction u arbitrary: w) auto

lemma isdigit_not_space: "isdigit c \<Longrightarrow> \<not> isspace c"
  by (auto simp: isdigit_def isspace_def)

lemma show_int_no_space: "\<forall>c\<in>set (show_int i). \<not> isspace c"
  using show_nat_digits [of "nat i"] show_nat_digits [of "nat (- i)"] isdigit_not_space
  by (auto simp: show_int_def isspace_def)

lemma show_int_not_empty: "show_int i \<noteq> []"
  by (simp add: show_int_def show_nat_nonempty)

lemma words_of_sysfs_line: "words_of (sysfs_line x y z) = [show_int x, show_int y, show_int z]"
proof -
  have sp: "isspace CHR '' ''" "isspace CHR 0x0A" by (simp_all add: isspace_def)
  show ?thesis
    using show_int_not_empty
    by (simp add: words_of_def sysfs_line_def sp words_from_word [OF show_int_no_space])
qed

lemma unsigned_number_show_nat:
  assumes "n < 2 ^ 31"
  shows "unsigned_number (show_nat n) = Number (of_nat n)"
proof -
  have scan: "scan_digits 0 (show_nat n) = (n, [])"
    using scan_digits_append [OF show_nat_digits, of 0 n "[]"] scan_show_nat [of n] by simp
  have "in_float_range (of_nat n)"
  proof (cases "n = 0")
    case False
    have "(of_nat n :: rat) < of_nat (2 ^ 31)" using assms by (simp only: of_nat_less_iff)
    with False show ?thesis by (simp add: in_float_range_def)
  qed (simp add: in_float_range_def)
  then show ?thesis
    using show_nat_nonempty [of n] by (simp add: unsigned_number_def scan Let_def)
qed

lemma parse_number_show_int:
  assumes "\<bar>i\<bar> < 2 ^ 31"
  shows "parse_number (show_int i) = Number (of_int i)"
proof (cases "i < 0")
  case True
  then show ?thesis
    using assms unsigned_number_show_nat [of "nat (- i)"]
    by (simp add: show_int_def negate_number_def nat_less_iff)
next
  case False
  obtain d ds where d: "show_nat (nat i) = d # ds" "isdigit d" by (rule show_nat_head)
  then have "d \<noteq> CHR ''-''" "d \<noteq> CHR ''+''" by (auto simp: isdigit_def)
  then show ?thesis
    using False d assms unsigned_number_show_nat [of "nat i"]
    by (simp add: show_int_def nat_less_iff)
qed

lemma axis_values_agree:
  assumes "\<bar>i\<bar> \<le> 2 ^ 24" "f32 res = res"
  shows "atof (show_int i) = Some (of_int i)" "stof (show_int i) = Stof (of_int i)"
    "axis_value (of_int i) res = f32 (of_int i * res)"
proof -
  have "parse_number (show_int i) = Number (of_int i)"
    using assms(1) by (intro parse_number_show_int) simp
  then show "atof (show_int i) = Some (of_int i)" "stof (show_int i) = Stof (of_int i)"
    using assms(1) by (simp_all add: atof_def stof_def fl_of_int)
  show "axis_value (of_int i) res = f32 (of_int i * res)"
    using fl_product_exact [OF assms(2,1), of 53] by (simp add: axis_value_def)
qed

definition sample_event :: "int \<Rightarrow> int \<Rightarrow> int \<Rightarrow> int \<Rightarrow> sensor \<Rightarrow> rat event" where
  "sample_event now x y z s =
     (let res = si_resolution (mSensorInfo s) in
      \<lparr> ev_timestamp = now, ev_handle = si_handle (mSensorInfo s), ev_type = si_type (mSensorInfo s),
        ev_u = Vec3 (f32 (of_int x * res)) (f32 (of_int y * res)) (f32 (of_int z * res))
          ACCURACY_HIGH \<rparr>)"

lemma fillPayload_line:
  assumes "f32 (si_resolution (mSensorInfo s)) = si_resolution (mSensorInfo s)"
    and "\<bar>x\<bar> \<le> 2 ^ 24" "\<bar>y\<bar> \<le> 2 ^ 24" "\<bar>z\<bar> \<le> 2 ^ 24"
  shows "fillPayload (sysfs_line x y z) s u = Some (ev_u (sample_event now x y z s))"
    "fillPayload_aidl (sysfs_line x y z) s u = Some (Inr (ev_u (sample_event now x y z s)))"
  by (simp_all add: fillPayload_def fillPayload_aidl_def sample_event_def words_of_sysfs_line Let_def
      axis_values_agree [OF assms(2,1)] axis_values_agree [OF assms(3,1)]
      axis_values_agree [OF assms(4,1)])

lemma readEvents_multihal_line:
  assumes "fs (mIioFileName s) = Some (sysfs_line x y z)"
    and "f32 (si_resolution (mSensorInfo s)) = si_resolution (mSensorInfo s)"
    and "\<bar>x\<bar> \<le> 2 ^ 24" "\<bar>y\<bar> \<le> 2 ^ 24" "\<bar>z\<bar> \<le> 2 ^ 24"
  shows "readEvents_multihal stale now fs s = Some [sample_event now x y z s]"
  using assms(1) fillPayload_line(1) [OF assms(2-5), of _ now]
  by (simp add: readEvents_multihal_def readEventPayload_def readFromFile_def sample_event_def Let_def)

text \<open>C22: For the text of three integers of up to 24 bits the sub-HAL, the HIDL service and
  the AIDL service report the same event: raw value times resolution, rounded once to
  float, although one multiplies in double and another in float.\<close>

theorem hals_report_the_same_sample:
  assumes "fs (mIioFileName s) = Some (sysfs_line x y z)"
    and "f32 (si_resolution (mSensorInfo s)) = si_resolution (mSensorInfo s)"
    and "\<bar>x\<bar> \<le> 2 ^ 24" "\<bar>y\<bar> \<le> 2 ^ 24" "\<bar>z\<bar> \<le> 2 ^ 24"
  shows "readEvents_multihal stale now fs s = Some [sample_event now x y z s] \<and>
    readEvents_2X now fs s = Some [sample_event now x y z s] \<and>
    readEvents_aidl zeroed now fs s = Some (Inr [sample_event now x y z s])"
  using assms(1) readEvents_multihal_line [of fs s x y z stale now] assms
    fillPayload_line [OF assms(2-5), of _ now]
  by (simp add: readEvents_2X_def readEvents_aidl_def readEventPayload_def readEventPayload_aidl_def
      readFromFile_def sample_event_def Let_def)

theorem hals_report_the_same_sample_witness:
  "readEvents_aidl (Vec3 0 0 0 0) 77 (\<lambda>f. Some (sysfs_line (-2000) 0 32000)) (Smi240Accel 1) =
     Some (Inr [sample_event 77 (-2000) 0 32000 (Smi240Accel 1)])"
proof -
  have "f32 (si_resolution (mSensorInfo (Smi240Accel 1))) = si_resolution (mSensorInfo (Smi240Accel 1))"
    by (simp add: Smi240Accel_def new_Sensor_def gravityToAcceleration_def)
  then show ?thesis
    using hals_report_the_same_sample [of "\<lambda>f. Some (sysfs_line (-2000) 0 32000)" "Smi240Accel 1"
        "-2000" 0 32000 0 77 "Vec3 0 0 0 0"] by simp
qed

text \<open>When the first word of a sample is not a number the AIDL service ends with the uncaught
  exception of std::stof, while the sub-HAL reports 0 for the axis.\<close>

theorem bad_sample_text:
  assumes "fs (mIioFileName s) = Some text" "words_of text = w # v # u # ws"
    and "parse_number w = Not_a_number" "atof v = Some y" "atof u = Some z"
  shows "readEvents_aidl zeroed now fs s = Some (Inl ()) \<and>
    (\<exists>ay az. readEvents_multihal stale now fs s = Some [\<lparr> ev_timestamp = now,
       ev_handle = si_handle (mSensorInfo s), ev_type = si_type (mSensorInfo s),
       ev_u = Vec3 0 ay az ACCURACY_HIGH \<rparr>])"
  using assms
  by (simp add: readEvents_multihal_def readEvents_aidl_def readEventPayload_def atof_def [of w]
      readEventPayload_aidl_def readFromFile_def fillPayload_def fillPayload_aidl_def Let_def
      stof_def [of w] axis_value_def)

theorem bad_sample_text_witness:
  "readEvents_aidl (Vec3 0 0 0 0) 5 (\<lambda>f. Some ''error 1 2'') (Smi240Gyro 2) = Some (Inl ())"
proof -
  have "words_of ''error 1 2'' = [''error'', ''1'', ''2'']"
    by (simp add: words_of_def isspace_def)
  moreover have "parse_number ''error'' = Not_a_number" by code_simp
  moreover have "atof ''1'' = Some 1" "atof ''2'' = Some 2" by code_simp+
  ultimately show ?thesis
    using bad_sample_text [of "\<lambda>f. Some ''error 1 2''" "Smi240Gyro 2" "''error 1 2''"] by simp
qed

text \<open>A file that cannot be read, or has fewer than three words, leaves the zero event.\<close>

lemma readEvents_without_file:
  assumes "fs (mIioFileName s) = None"
  shows "readEvents_2X now fs s = Some [\<lparr> ev_timestamp = now, ev_handle = si_handle (mSensorInfo s),
    ev_type = si_type (mSensorInfo s), ev_u = Vec3 0 0 0 0 \<rparr>]"
  using assms by (simp add: readEvents_2X_def readEventPayload_def readFromFile_def)

end
