(* ===== verification/Sensor_Thread.thy ===== *)
theory Sensor_Thread
  imports Hal_Sensor
begin

text \<open>
  The run thread of a \<open>Sensor\<close> and the thread that calls \<open>batch\<close>, \<open>activate\<close> and the destructor,
  with the mutex \<open>mRunMutex\<close> and the condition variable \<open>mWaitCV\<close> between them
  (\<open>multihal/Sensor.cpp\<close>, \<open>2.X/Sensor.cpp\<close>, \<open>aidl/Sensor.cpp\<close>).  A step is the code of one thread
  from one synchronisation to the next; a step of the environment ends a wait, by a time-out or
  spuriously.  The two kinds of destructor differ in one line: \<open>multihal\<close> unlocks the mutex
  before it joins, the others call \<open>lock.release()\<close>, which gives the ownership up and leaves the
  mutex locked.  The results: the first destructor returns after at most four further steps,
  whatever the schedule; the second never returns; no event is posted once the stop flag is
  set.  \<open>mStopThread\<close>, which the constructors leave uninitialised, starts as false here.
\<close>

section \<open>State and steps\<close>

datatype holder = Run_thread | Calling_thread

datatype run_pc = At_start | In_loop | Waiting | Waiting_timed | Woken | Woken_timed | Finished

datatype calling_pc = Idle | Activating bool | Destroying | Joining | Destroyed

record sensor_thread =
  st_sensor :: sensor
  mRunMutex :: "holder option"
  st_run :: run_pc
  st_calling :: calling_pc
  notified :: bool
  posted :: "int list"

definition start_Sensor :: "sensor \<Rightarrow> sensor_thread" where
  "start_Sensor sn = \<lparr> st_sensor = sn, mRunMutex = None, st_run = At_start, st_calling = Idle,
     notified = False, posted = [] \<rparr>"

text \<open>\<open>notify_all\<close> reaches a thread that waits.\<close>

definition notify_all :: "sensor_thread \<Rightarrow> sensor_thread" where
  "notify_all s = (if st_run s \<in> {Waiting, Waiting_timed} then s\<lparr>notified := True\<rparr> else s)"

text \<open>The run thread: entry, a pass of the loop up to the wait, the end of a wait, the mutex
  locked again (with the predicate of \<open>wait\<close> tested before the loop goes on).  \<open>None\<close>: it is
  blocked or has ended.\<close>

definition run_step :: "int \<Rightarrow> sensor_thread \<Rightarrow> sensor_thread option" where
  "run_step now s = (case st_run s of
     At_start \<Rightarrow>
       if mRunMutex s = None then Some (s\<lparr>mRunMutex := Some Run_thread, st_run := In_loop\<rparr>) else None
   | In_loop \<Rightarrow>
       if mStopThread (st_sensor s) then Some (s\<lparr>mRunMutex := None, st_run := Finished\<rparr>)
       else if \<not> mIsEnabled (st_sensor s)
       then Some (s\<lparr>mRunMutex := None, st_run := Waiting, notified := False\<rparr>)
       else (case run_iteration now (st_sensor s) of (posts, wait, sn) \<Rightarrow>
         Some (s\<lparr>st_sensor := sn, posted := posted s @ (if posts then [now] else []),
           mRunMutex := None, st_run := Waiting_timed, notified := False\<rparr>))
   | Waiting \<Rightarrow> if notified s then Some (s\<lparr>st_run := Woken\<rparr>) else None
   | Waiting_timed \<Rightarrow> if notified s then Some (s\<lparr>st_run := Woken_timed\<rparr>) else None
   | Woken \<Rightarrow>
       if mRunMutex s \<noteq> None then None
       else if mIsEnabled (st_sensor s) \<or> mStopThread (st_sensor s)
       then Some (s\<lparr>mRunMutex := Some Run_thread, st_run := In_loop\<rparr>)
       else Some (s\<lparr>st_run := Waiting, notified := False\<rparr>)
   | Woken_timed \<Rightarrow>
       if mRunMutex s = None then Some (s\<lparr>mRunMutex := Some Run_thread, st_run := In_loop\<rparr>) else None
   | Finished \<Rightarrow> None)"

definition wait_ends :: "sensor_thread \<Rightarrow> sensor_thread option" where
  "wait_ends s = (case st_run s of
     Waiting \<Rightarrow> Some (s\<lparr>st_run := Woken\<rparr>)
   | Waiting_timed \<Rightarrow> Some (s\<lparr>st_run := Woken_timed\<rparr>)
   | _ \<Rightarrow> None)"

text \<open>The destructor up to the join: in \<open>multihal\<close> the lock goes out of scope, in the other two
  copies \<open>release\<close> leaves the mutex locked.\<close>

definition destructor_multihal :: "sensor_thread \<Rightarrow> sensor_thread option" where
  "destructor_multihal s =
     (if mRunMutex s = None
      then Some (notify_all (s\<lparr>st_sensor := (st_sensor s)\<lparr>mStopThread := True, mIsEnabled := False\<rparr>,
        mRunMutex := None, st_calling := Joining\<rparr>))
      else None)"

definition destructor_2X :: "sensor_thread \<Rightarrow> sensor_thread option" where
  "destructor_2X s =
     (if mRunMutex s = None
      then Some (notify_all (s\<lparr>st_sensor := (st_sensor s)\<lparr>mStopThread := True, mIsEnabled := False\<rparr>,
        mRunMutex := Some Calling_thread, st_calling := Joining\<rparr>))
      else None)"

text \<open>The steps of the calling thread; \<open>unlocks\<close> chooses the destructor.\<close>

definition calling_step :: "bool \<Rightarrow> sensor_thread \<Rightarrow> sensor_thread option" where
  "calling_step unlocks s = (case st_calling s of
     Activating enable \<Rightarrow>
       if mRunMutex s = None
       then Some (notify_all (s\<lparr>st_sensor := (st_sensor s)\<lparr>mIsEnabled := enable\<rparr>, st_calling := Idle\<rparr>))
       else None
   | Destroying \<Rightarrow> if unlocks then destructor_multihal s else destructor_2X s
   | Joining \<Rightarrow> if st_run s = Finished then Some (s\<lparr>st_calling := Destroyed\<rparr>) else None
   | _ \<Rightarrow> None)"

datatype thread_call = Call_batch int | Call_activate bool | Call_destroy

text \<open>The start of a call.  \<open>batch\<close> changes the period without the mutex; \<open>activate\<close> compares
  before it locks.\<close>

fun begin_call :: "thread_call \<Rightarrow> sensor_thread \<Rightarrow> sensor_thread option" where
  "begin_call (Call_batch period) s =
     (if st_calling s \<noteq> Idle then None
      else let sn = sensor_batch_multihal period (st_sensor s) in
        Some (if sn \<noteq> st_sensor s then notify_all (s\<lparr>st_sensor := sn\<rparr>) else s))"
| "begin_call (Call_activate enable) s =
     (if st_calling s \<noteq> Idle then None
      else Some (if mIsEnabled (st_sensor s) \<noteq> enable then s\<lparr>st_calling := Activating enable\<rparr> else s))"
| "begin_call Call_destroy s =
     (if st_calling s \<noteq> Idle then None else Some (s\<lparr>st_calling := Destroying\<rparr>))"

inductive thread_step :: "bool \<Rightarrow> sensor_thread \<Rightarrow> sensor_thread \<Rightarrow> bool" for unlocks where
  run: "run_step now s = Some s' \<Longrightarrow> thread_step unlocks s s'"
| calling: "calling_step unlocks s = Some s' \<Longrightarrow> thread_step unlocks s s'"
| call: "begin_call c s = Some s' \<Longrightarrow> thread_step unlocks s s'"
| wait_over: "wait_ends s = Some s' \<Longrightarrow> thread_step unlocks s s'"

inductive_cases thread_stepE: "thread_step unlocks s s'"

inductive thread_reachable :: "bool \<Rightarrow> sensor_thread \<Rightarrow> bool" for unlocks where
  start: "\<not> mStopThread sn \<Longrightarrow> \<not> mIsEnabled sn \<Longrightarrow> thread_reachable unlocks (start_Sensor sn)"
| step: "thread_reachable unlocks s \<Longrightarrow> thread_step unlocks s s' \<Longrightarrow> thread_reachable unlocks s'"

section \<open>Invariant\<close>

definition stopping :: "sensor_thread \<Rightarrow> bool" where
  "stopping s \<longleftrightarrow> st_calling s \<in> {Joining, Destroyed}"

definition thread_inv :: "bool \<Rightarrow> sensor_thread \<Rightarrow> bool" where
  "thread_inv unlocks s \<longleftrightarrow>
     (mRunMutex s = Some Run_thread \<longleftrightarrow> st_run s = In_loop) \<and>
     (mRunMutex s = Some Calling_thread \<longleftrightarrow> \<not> unlocks \<and> stopping s) \<and>
     (mStopThread (st_sensor s) \<longleftrightarrow> stopping s) \<and>
     (st_run s = Finished \<longrightarrow> stopping s) \<and>
     (stopping s \<longrightarrow> \<not> mIsEnabled (st_sensor s)) \<and>
     (st_calling s = Destroyed \<longrightarrow> st_run s = Finished) \<and>
     (stopping s \<and> st_run s \<in> {Waiting, Waiting_timed} \<longrightarrow> notified s) \<and>
     (\<not> unlocks \<and> stopping s \<longrightarrow> st_run s \<noteq> Finished)"

lemma run_iteration_flags:
  "run_iteration now sn = (posts, wait, sn') \<Longrightarrow>
     mStopThread sn' = mStopThread sn \<and> mIsEnabled sn' = mIsEnabled sn"
  by (auto simp: run_iteration_cases split: if_splits)

lemma batch_flags:
  "mStopThread (sensor_batch_multihal p sn) = mStopThread sn"
  "mIsEnabled (sensor_batch_multihal p sn) = mIsEnabled sn"
  by (simp_all add: sensor_batch_multihal_def set_period_def)

lemma thread_inv_start:
  "\<not> mStopThread sn \<Longrightarrow> \<not> mIsEnabled sn \<Longrightarrow> thread_inv unlocks (start_Sensor sn)"
  by (simp add: thread_inv_def start_Sensor_def stopping_def)

lemma run_step_inv:
  assumes "thread_inv unlocks s" "run_step now s = Some s'"
  shows "thread_inv unlocks s'"
  using assms run_iteration_flags [of now "st_sensor s"]
  by (cases "st_run s") (auto simp: run_step_def thread_inv_def stopping_def
      split: if_splits prod.splits)

lemmas thread_inv_simps = thread_inv_def stopping_def notify_all_def

lemma calling_step_inv:
  assumes "thread_inv unlocks s" "calling_step unlocks s = Some s'"
  shows "thread_inv unlocks s'"
proof (cases "st_calling s")
  case (Activating enable)
  with assms(2) have "mRunMutex s = None"
    "s' = notify_all (s\<lparr>st_sensor := (st_sensor s)\<lparr>mIsEnabled := enable\<rparr>, st_calling := Idle\<rparr>)"
    by (simp_all add: calling_step_def split: if_splits)
  with assms(1) Activating show ?thesis by (cases "st_run s") (simp_all add: thread_inv_simps)
next
  case Destroying
  with assms(2) have "mRunMutex s = None"
    "s' = notify_all (s\<lparr>st_sensor := (st_sensor s)\<lparr>mStopThread := True, mIsEnabled := False\<rparr>,
       mRunMutex := (if unlocks then None else Some Calling_thread), st_calling := Joining\<rparr>)"
    by (simp_all add: calling_step_def destructor_multihal_def destructor_2X_def split: if_splits)
  with assms(1) Destroying show ?thesis
    by (cases "st_run s"; cases unlocks) (simp_all add: thread_inv_simps)
next
  case Joining
  with assms(2) have "st_run s = Finished" "s' = s\<lparr>st_calling := Destroyed\<rparr>"
    by (simp_all add: calling_step_def split: if_splits)
  with assms(1) Joining show ?thesis by (simp add: thread_inv_simps)
qed (use assms(2) in \<open>simp_all add: calling_step_def\<close>)

lemma notify_all_inv: "thread_inv unlocks s \<Longrightarrow> thread_inv unlocks (notify_all s)"
  by (simp add: thread_inv_simps)

lemma thread_inv_sensor:
  "mStopThread sn = mStopThread (st_sensor s) \<Longrightarrow> mIsEnabled sn = mIsEnabled (st_sensor s) \<Longrightarrow>
     thread_inv unlocks (s\<lparr>st_sensor := sn\<rparr>) = thread_inv unlocks s"
  by (simp add: thread_inv_def stopping_def)

lemma begin_call_inv:
  assumes "thread_inv unlocks s" "begin_call c s = Some s'"
  shows "thread_inv unlocks s'"
proof (cases c)
  case (Call_batch p)
  with assms(2) have "s' = s \<or> s' = notify_all (s\<lparr>st_sensor := sensor_batch_multihal p (st_sensor s)\<rparr>)"
    by (auto simp: Let_def split: if_splits)
  with assms(1) show ?thesis
    using notify_all_inv thread_inv_sensor [OF batch_flags] by metis
next
  case (Call_activate enable)
  with assms(2) have "st_calling s = Idle" "s' = s \<or> s' = s\<lparr>st_calling := Activating enable\<rparr>"
    by (auto split: if_splits)
  with assms(1) show ?thesis by (elim disjE) (simp_all add: thread_inv_simps)
next
  case Call_destroy
  with assms(2) have "st_calling s = Idle" "s' = s\<lparr>st_calling := Destroying\<rparr>"
    by (auto split: if_splits)
  with assms(1) show ?thesis by (simp add: thread_inv_simps)
qed

lemma wait_ends_inv:
  assumes "thread_inv unlocks s" "wait_ends s = Some s'"
  shows "thread_inv unlocks s'"
proof -
  have "st_run s = Waiting \<and> s' = s\<lparr>st_run := Woken\<rparr> \<or>
      st_run s = Waiting_timed \<and> s' = s\<lparr>st_run := Woken_timed\<rparr>"
    using assms(2) by (cases "st_run s") (simp_all add: wait_ends_def)
  with assms(1) show ?thesis by (elim disjE conjE) (simp_all add: thread_inv_def stopping_def)
qed

lemma thread_step_inv: "thread_step unlocks s s' \<Longrightarrow> thread_inv unlocks s \<Longrightarrow> thread_inv unlocks s'"
  by (elim thread_stepE)
    (blast intro: run_step_inv calling_step_inv begin_call_inv wait_ends_inv)+

lemma thread_reachable_inv: "thread_reachable unlocks s \<Longrightarrow> thread_inv unlocks s"
  by (induction rule: thread_reachable.induct) (blast intro: thread_inv_start thread_step_inv)+

section \<open>After the stop flag is set\<close>

text \<open>How many steps the two threads can still make.\<close>

fun run_rank :: "run_pc \<Rightarrow> nat" where
  "run_rank Finished = 0"
| "run_rank In_loop = 1"
| "run_rank At_start = 2"
| "run_rank Woken = 2"
| "run_rank Woken_timed = 2"
| "run_rank Waiting = 3"
| "run_rank Waiting_timed = 3"

definition stop_rank :: "sensor_thread \<Rightarrow> nat" where
  "stop_rank s = run_rank (st_run s) + (if st_calling s = Destroyed then 0 else 1)"

lemma stop_rank_bound: "stop_rank s \<le> 4"
  by (cases "st_run s") (simp_all add: stop_rank_def)

definition winds_down :: "sensor_thread \<Rightarrow> sensor_thread \<Rightarrow> bool" where
  "winds_down s s' \<longleftrightarrow> stopping s' \<and> stop_rank s' < stop_rank s \<and> posted s' = posted s"

lemma stop_run_step:
  assumes "thread_inv unlocks s" "stopping s" "run_step now s = Some s'"
  shows "winds_down s s'"
proof -
  have "mStopThread (st_sensor s)" using assms(1,2) by (simp add: thread_inv_def)
  with assms(2,3) show ?thesis
    by (cases "st_run s")
      (auto simp: run_step_def winds_down_def stopping_def stop_rank_def split: if_splits)
qed

lemma stop_step:
  assumes "thread_inv unlocks s" "stopping s" "thread_step unlocks s s'"
  shows "winds_down s s'"
  using assms(3)
proof (cases rule: thread_step.cases)
  case (run now)
  then show ?thesis by (rule stop_run_step [OF assms(1,2)])
next
  case calling
  with assms(2) show ?thesis
    by (auto simp: calling_step_def winds_down_def stopping_def stop_rank_def split: if_splits)
next
  case (call c)
  with assms(2) show ?thesis by (cases c) (auto simp: stopping_def)
next
  case wait_over
  with assms(2) show ?thesis
    by (cases "st_run s") (auto simp: wait_ends_def winds_down_def stopping_def stop_rank_def)
qed

lemma stop_run:
  "(thread_step unlocks ^^ n) s s' \<Longrightarrow> thread_inv unlocks s \<Longrightarrow> stopping s \<Longrightarrow>
     thread_inv unlocks s' \<and> stopping s' \<and> stop_rank s' + n \<le> stop_rank s \<and> posted s' = posted s"
proof (induction n arbitrary: s')
  case (Suc n)
  then obtain t where t: "(thread_step unlocks ^^ n) s t" "thread_step unlocks t s'" by auto
  from Suc.IH [OF t(1) Suc.prems(2,3)]
  have inv: "thread_inv unlocks t" "stopping t" "stop_rank t + n \<le> stop_rank s" "posted t = posted s"
    by simp_all
  from stop_step [OF inv(1,2) t(2)] thread_step_inv [OF t(2) inv(1)] inv show ?case
    by (simp add: winds_down_def)
qed simp

text \<open>While the destructor of \<open>multihal\<close> waits, one of the two threads can go on by itself.\<close>

lemma joining_not_stuck:
  assumes "thread_inv True s" "st_calling s = Joining"
  shows "\<exists>s'. run_step now s = Some s' \<or> calling_step True s = Some s'"
proof -
  have "mRunMutex s = None \<or> st_run s = In_loop"
    using assms by (cases "mRunMutex s"; cases "the (mRunMutex s)") (simp_all add: thread_inv_def)
  with assms show ?thesis
    by (cases "st_run s") (auto simp: run_step_def calling_step_def thread_inv_def stopping_def)
qed

text \<open>C7: Once the destructor of multihal/Sensor.cpp waits for the run thread, every schedule
  of steps, time-outs and spurious wake-ups has at most four further steps, and until the
  object is destroyed one of the two threads can make the next one by itself.\<close>

theorem destructor_returns:
  assumes "thread_reachable True s" "st_calling s = Joining" "(thread_step True ^^ n) s s'"
  shows "n \<le> 4 \<and> (st_calling s' = Destroyed \<or>
    (\<exists>s''. run_step now s' = Some s'' \<or> calling_step True s' = Some s''))"
proof -
  have run: "thread_inv True s' \<and> stopping s' \<and> stop_rank s' + n \<le> stop_rank s \<and> posted s' = posted s"
    using stop_run [OF assms(3) thread_reachable_inv [OF assms(1)]] assms(2) by (simp add: stopping_def)
  with stop_rank_bound [of s] joining_not_stuck [of s' now] show ?thesis
    by (auto simp: stopping_def)
qed

text \<open>C8: The destructor of 2.X/Sensor.cpp (and its copy in aidl) never returns, whatever was
  called before and however the threads are scheduled: it joins a thread that waits for
  the mutex it has locked and released only the ownership of.\<close>

theorem destructor_never_returns:
  assumes "thread_reachable False s"
  shows "st_calling s \<noteq> Destroyed \<and> (st_calling s = Joining \<longrightarrow>
    mRunMutex s = Some Calling_thread \<and> st_run s \<noteq> Finished)"
  using thread_reachable_inv [OF assms] by (auto simp: thread_inv_def stopping_def)

text \<open>No event is posted after the destructor has set the stop flag, whatever the schedule and
  in any of the copies.\<close>

theorem no_event_after_stop:
  assumes "thread_reachable unlocks s" "stopping s" "(thread_step unlocks ^^ n) s s'"
  shows "posted s' = posted s"
  using stop_run [OF assms(3) thread_reachable_inv [OF assms(1)] assms(2)] by simp

section \<open>Instances\<close>

definition stopped_accel :: sensor where
  "stopped_accel = (Smi240Accel 1)\<lparr>mStopThread := True, mIsEnabled := False\<rparr>"

definition joining_thread :: "bool \<Rightarrow> sensor_thread" where
  "joining_thread unlocks = (start_Sensor stopped_accel)\<lparr>
     mRunMutex := if unlocks then None else Some Calling_thread, st_calling := Joining\<rparr>"

lemma joining_thread_reachable: "thread_reachable unlocks (joining_thread unlocks)"
proof -
  let ?s = "start_Sensor (Smi240Accel 1)"
  have "\<not> mStopThread (Smi240Accel 1)" "\<not> mIsEnabled (Smi240Accel 1)"
    by (simp_all add: Smi240Accel_def new_Sensor_def)
  then have "thread_reachable unlocks ?s" by (rule thread_reachable.start)
  moreover have "begin_call Call_destroy ?s = Some (?s\<lparr>st_calling := Destroying\<rparr>)"
    by (simp add: start_Sensor_def)
  ultimately have "thread_reachable unlocks (?s\<lparr>st_calling := Destroying\<rparr>)"
    by (blast intro: thread_reachable.step thread_step.call)
  moreover have "calling_step unlocks (?s\<lparr>st_calling := Destroying\<rparr>) = Some (joining_thread unlocks)"
    by (simp add: calling_step_def destructor_multihal_def destructor_2X_def start_Sensor_def
      notify_all_def joining_thread_def stopped_accel_def)
  ultimately show ?thesis by (blast intro: thread_reachable.step thread_step.calling)
qed

lemma joining_thread_joins:
  "st_calling (joining_thread unlocks) = Joining" "stopping (joining_thread unlocks)"
  by (simp_all add: joining_thread_def stopping_def)

lemma destructor_returns_witness:
  "\<exists>s1 s2 s3. run_step 0 (joining_thread True) = Some s1 \<and> run_step 0 s1 = Some s2 \<and>
     calling_step True s2 = Some s3 \<and> st_calling s3 = Destroyed"
proof -
  obtain s1 where s1: "run_step 0 (joining_thread True) = Some s1" "st_run s1 = In_loop"
    "st_sensor s1 = stopped_accel" "st_calling s1 = Joining"
    by (simp add: run_step_def joining_thread_def start_Sensor_def)
  then obtain s2 where s2: "run_step 0 s1 = Some s2" "st_run s2 = Finished" "st_calling s2 = Joining"
    by (simp add: run_step_def stopped_accel_def)
  have "(thread_step True ^^ 2) (joining_thread True) s2"
    using thread_step.run [OF s1(1)] thread_step.run [OF s2(1)] by (auto simp: numeral_2_eq_2)
  from destructor_returns [OF joining_thread_reachable joining_thread_joins(1) this, of 0] s2
  obtain s3 where "calling_step True s2 = Some s3" by (auto simp: run_step_def)
  with s1(1) s2 show ?thesis by (auto simp: calling_step_def)
qed

lemma destructor_never_returns_witness:
  "st_calling (joining_thread False) \<noteq> Destroyed \<and>
   mRunMutex (joining_thread False) = Some Calling_thread \<and> run_step 0 (joining_thread False) = None"
  using destructor_never_returns [OF joining_thread_reachable] joining_thread_joins(1) [of False]
  by (simp add: run_step_def joining_thread_def start_Sensor_def)

lemma no_event_after_stop_witness:
  "\<exists>s'. run_step 5 (joining_thread True) = Some s' \<and> posted s' = []"
proof -
  obtain s' where s': "run_step 5 (joining_thread True) = Some s'"
    by (simp add: run_step_def joining_thread_def start_Sensor_def)
  have "(thread_step True ^^ 1) (joining_thread True) s'"
    using thread_step.run [OF s'] by auto
  from no_event_after_stop [OF joining_thread_reachable joining_thread_joins(2) this] s'
  show ?thesis by (simp add: joining_thread_def start_Sensor_def)
qed

end
