(* ===== verification/Event_Queue.thy ===== *)
theory Event_Queue
  imports Prelude "HOL-Library.Multiset" "HOL-Library.Sublist"
begin

text \<open>
  The event path of \<open>multihal/2.X/HalProxy.cpp\<close>: events posted by the sub-HALs go to the event
  message queue of the framework or wait in \<open>mPendingWriteEventsQueue\<close> for the writer thread
  \<open>handlePendingWrites\<close>; the shared wake lock is held while its reference count is positive
  (\<open>ScopedWakelock.cpp\<close>, \<open>handleWakelocks\<close>).  The message queue belongs to the platform: the
  room it has, and whether a write succeeds, are inputs of each step, and \<open>fmq\<close> records what has
  been written.  The writer thread releases the mutex while it blocks, so its iteration is two
  steps with any other steps between them.  Counters are \<open>nat\<close>; the one subtraction that C++ does
  not guard wraps as \<open>size_t\<close> does.
\<close>

definition size_sub :: "nat \<Rightarrow> nat \<Rightarrow> nat" where
  "size_sub a b = (if b \<le> a then a - b else a + 2 ^ 64 - b)"

abbreviation (input) "kMaxSizePendingWriteEventsQueue \<equiv> (100000 :: nat)"

record 'e event_queue =
  mPendingWriteEventsQueue :: "('e list \<times> nat) list"
  mSizePendingWriteEventsQueue :: nat
  mMostEventsObserved :: nat
  mThreadsRun :: bool
  mWakelockRefCount :: nat
  mWakelockTimeoutStartTime :: int
  mWakelockTimeoutResetTime :: int
  quantumCount :: nat
  in_flight :: "nat option"
  wake_lock :: bool
  fmq :: "'e list"
  dropped :: "'e list"

definition new_event_queue :: "nat \<Rightarrow> int \<Rightarrow> 'e event_queue" where
  "new_event_queue quantum now = \<lparr> mPendingWriteEventsQueue = [],
     mSizePendingWriteEventsQueue = 0, mMostEventsObserved = 0, mThreadsRun = True,
     mWakelockRefCount = 0, mWakelockTimeoutStartTime = now, mWakelockTimeoutResetTime = now,
     quantumCount = quantum, in_flight = None, wake_lock = False, fmq = [], dropped = [] \<rparr>"

section \<open>The reference count of the wake lock\<close>

definition incrementRefCountAndMaybeAcquireWakelock ::
    "nat \<Rightarrow> int \<Rightarrow> 'e event_queue \<Rightarrow> bool \<times> 'e event_queue" where
  "incrementRefCountAndMaybeAcquireWakelock delta now s =
     (if \<not> mThreadsRun s then (False, s)
      else (True, s\<lparr> wake_lock := (if mWakelockRefCount s = 0 then True else wake_lock s),
        mWakelockTimeoutStartTime := now, mWakelockRefCount := mWakelockRefCount s + delta \<rparr>))"

text \<open>The time stamp \<open>-1\<close> is the default argument.\<close>

definition decrementRefCountAndMaybeReleaseWakelock ::
    "nat \<Rightarrow> int \<Rightarrow> 'e event_queue \<Rightarrow> 'e event_queue" where
  "decrementRefCountAndMaybeReleaseWakelock delta timeoutStart s =
     (if \<not> mThreadsRun s then s
      else let start = (if timeoutStart = -1 then mWakelockTimeoutResetTime s else timeoutStart) in
        if mWakelockRefCount s = 0 \<or> start < mWakelockTimeoutResetTime s then s
        else let count = mWakelockRefCount s - min (mWakelockRefCount s) delta in
          s\<lparr> mWakelockRefCount := count, wake_lock := (if count = 0 then False else wake_lock s) \<rparr>)"

definition resetSharedWakelock :: "int \<Rightarrow> 'e event_queue \<Rightarrow> 'e event_queue" where
  "resetSharedWakelock now s =
     (decrementRefCountAndMaybeReleaseWakelock (mWakelockRefCount s) (-1) s)
       \<lparr>mWakelockTimeoutResetTime := now\<rparr>"

text \<open>The remaining time, or \<open>None\<close> when the wake lock has been held for too long.  The limit
  \<open>kWakelockTimeoutNs\<close> is a constant of the platform's interface and an argument here.\<close>

definition sharedWakelockDidTimeout :: "int \<Rightarrow> int \<Rightarrow> 'e event_queue \<Rightarrow> int option" where
  "sharedWakelockDidTimeout kWakelockTimeoutNs now s =
     (let duration = now - mWakelockTimeoutStartTime s in
      if duration > kWakelockTimeoutNs then None else Some (kWakelockTimeoutNs - duration))"

text \<open>One iteration of \<open>handleWakelocks\<close>; \<open>handled\<close> is what the blocking read delivers in time.\<close>

definition handleWakelocks_iteration ::
    "int \<Rightarrow> int \<Rightarrow> nat option \<Rightarrow> 'e event_queue \<Rightarrow> 'e event_queue" where
  "handleWakelocks_iteration limit now handled s =
     (if \<not> mThreadsRun s \<or> mWakelockRefCount s = 0 then s
      else case sharedWakelockDidTimeout limit now s of
        None \<Rightarrow> resetSharedWakelock now s
      | Some timeLeft \<Rightarrow>
          (case handled of None \<Rightarrow> s
           | Some n \<Rightarrow> decrementRefCountAndMaybeReleaseWakelock n (-1) s))"

record scoped_wakelock =
  mLocked :: bool
  mCreatedAtTimeNs :: int

definition new_ScopedWakelock ::
    "bool \<Rightarrow> int \<Rightarrow> 'e event_queue \<Rightarrow> scoped_wakelock \<times> 'e event_queue" where
  "new_ScopedWakelock locked now s =
     (if locked then case incrementRefCountAndMaybeAcquireWakelock 1 now s of
        (ok, s') \<Rightarrow> (\<lparr> mLocked = ok, mCreatedAtTimeNs = now \<rparr>, s')
      else (\<lparr> mLocked = False, mCreatedAtTimeNs = now \<rparr>, s))"

definition destroy_ScopedWakelock :: "scoped_wakelock \<Rightarrow> 'e event_queue \<Rightarrow> 'e event_queue" where
  "destroy_ScopedWakelock wl s =
     (if mLocked wl then decrementRefCountAndMaybeReleaseWakelock 1 (mCreatedAtTimeNs wl) s else s)"

section \<open>Posting and the writer thread\<close>

text \<open>What \<open>write\<close> puts into the message queue: only when nothing is pending.\<close>

definition num_to_write :: "nat \<Rightarrow> bool \<Rightarrow> 'e list \<Rightarrow> 'e event_queue \<Rightarrow> nat" where
  "num_to_write avail write_ok events s =
     (if mPendingWriteEventsQueue s = [] then
        let n = min (length events) avail in if n > 0 \<and> write_ok then n else 0
      else 0)"

definition push_pending :: "nat \<Rightarrow> nat \<Rightarrow> 'e list \<Rightarrow> 'e event_queue \<Rightarrow> 'e event_queue" where
  "push_pending numToWrite numWakeupEvents events s =
     (let numLeft = length events - numToWrite in
      if numToWrite < length events then
        if mSizePendingWriteEventsQueue s + numLeft \<le> kMaxSizePendingWriteEventsQueue then
          let size = mSizePendingWriteEventsQueue s + numLeft in
          s\<lparr> mPendingWriteEventsQueue := mPendingWriteEventsQueue s @
                [(drop numToWrite events, numWakeupEvents)],
             mSizePendingWriteEventsQueue := size,
             mMostEventsObserved := max (mMostEventsObserved s) size \<rparr>
        else s\<lparr> dropped := dropped s @ drop numToWrite events \<rparr>
      else s)"

definition postEventsToMessageQueue ::
    "nat \<Rightarrow> bool \<Rightarrow> int \<Rightarrow> 'e list \<Rightarrow> nat \<Rightarrow> bool \<Rightarrow> 'e event_queue \<Rightarrow> 'e event_queue" where
  "postEventsToMessageQueue avail write_ok now events numWakeupEvents locked s =
     (let s1 = (if locked then snd (incrementRefCountAndMaybeAcquireWakelock numWakeupEvents now s)
                else s);
          numToWrite = num_to_write avail write_ok events s1;
          s2 = s1\<lparr> fmq := fmq s1 @ take numToWrite events \<rparr>
      in push_pending numToWrite numWakeupEvents events s2)"

definition countNumWakeupEvents :: "('e \<Rightarrow> bool) \<Rightarrow> 'e list \<Rightarrow> nat \<Rightarrow> nat" where
  "countNumWakeupEvents is_wakeup events n = length (filter is_wakeup (take n events))"

text \<open>The writer thread up to \<open>lock.unlock()\<close>, and from the end of \<open>writeBlocking\<close> on.\<close>

definition handlePendingWrites_begin :: "'e event_queue \<Rightarrow> 'e event_queue" where
  "handlePendingWrites_begin s =
     (case mPendingWriteEventsQueue s of
        (events, num) # rest \<Rightarrow>
          if mThreadsRun s \<and> in_flight s = None
          then s\<lparr> in_flight := Some (min (length events) (quantumCount s)) \<rparr> else s
      | [] \<Rightarrow> s)"

definition handlePendingWrites_end ::
    "('e \<Rightarrow> bool) \<Rightarrow> bool \<Rightarrow> 'e event_queue \<Rightarrow> 'e event_queue" where
  "handlePendingWrites_end is_wakeup write_ok s =
     (case (in_flight s, mPendingWriteEventsQueue s) of
        (Some numToWrite, (events, numWakeupEvents) # rest) \<Rightarrow>
          let eventQueueSize = quantumCount s;
              s1 = (if write_ok then s\<lparr> fmq := fmq s @ take numToWrite events \<rparr>
                    else let s' = s\<lparr> dropped := dropped s @ take numToWrite events \<rparr> in
                      if numWakeupEvents > 0 then
                        decrementRefCountAndMaybeReleaseWakelock
                          (if length events > eventQueueSize
                           then countNumWakeupEvents is_wakeup events eventQueueSize
                           else numWakeupEvents) (-1) s'
                      else s')
          in s1\<lparr> mSizePendingWriteEventsQueue :=
                   size_sub (mSizePendingWriteEventsQueue s1) numToWrite,
                 mPendingWriteEventsQueue :=
                   (if length events > eventQueueSize
                    then (drop eventQueueSize events, numWakeupEvents) # rest else rest),
                 in_flight := None \<rparr>
      | _ \<Rightarrow> s)"

text \<open>\<open>stopThreads\<close> clears the flag and joins both threads; \<open>handleWakelocks\<close> ends with
  \<open>resetSharedWakelock\<close>.  \<open>initializeCommon\<close> resets once more, forgets the pending events and
  starts again.  Both resets happen while \<open>mThreadsRun\<close> is false.\<close>

definition stopThreads :: "int \<Rightarrow> 'e event_queue \<Rightarrow> 'e event_queue" where
  "stopThreads now s = resetSharedWakelock now (s\<lparr> mThreadsRun := False \<rparr>)"

definition restart_queue :: "int \<Rightarrow> 'e event_queue \<Rightarrow> 'e event_queue" where
  "restart_queue now s =
     (if in_flight s \<noteq> None then s
      else let s1 = resetSharedWakelock now s in
        s1\<lparr> dropped := dropped s1 @ concat (map fst (mPendingWriteEventsQueue s1)),
            mPendingWriteEventsQueue := [], mSizePendingWriteEventsQueue := 0,
            mThreadsRun := True \<rparr>)"

section \<open>Runs\<close>

datatype 'e action =
    Scoped_create int
  | Scoped_destroy int
  | Post nat bool int "'e list" nat bool
  | Write_begin
  | Write_end bool
  | Wakelocks int "nat option"
  | Stop_threads int
  | Restart int

fun act :: "('e \<Rightarrow> bool) \<Rightarrow> int \<Rightarrow> 'e action \<Rightarrow> 'e event_queue \<Rightarrow> 'e event_queue" where
  "act wk limit (Scoped_create now) s = snd (new_ScopedWakelock True now s)"
| "act wk limit (Scoped_destroy created) s =
     destroy_ScopedWakelock \<lparr> mLocked = True, mCreatedAtTimeNs = created \<rparr> s"
| "act wk limit (Post avail ok now events num locked) s =
     postEventsToMessageQueue avail ok now events num locked s"
| "act wk limit Write_begin s = handlePendingWrites_begin s"
| "act wk limit (Write_end ok) s = handlePendingWrites_end wk ok s"
| "act wk limit (Wakelocks now handled) s = handleWakelocks_iteration limit now handled s"
| "act wk limit (Stop_threads now) s = stopThreads now s"
| "act wk limit (Restart now) s = restart_queue now s"

definition run :: "('e \<Rightarrow> bool) \<Rightarrow> int \<Rightarrow> 'e action list \<Rightarrow> 'e event_queue \<Rightarrow> 'e event_queue" where
  "run wk limit acts s = fold (act wk limit) acts s"

fun posted_by :: "'e action \<Rightarrow> 'e list" where
  "posted_by (Post avail ok now events num locked) = events"
| "posted_by _ = []"

definition posted :: "'e action list \<Rightarrow> 'e list" where
  "posted acts = concat (map posted_by acts)"

definition waiting :: "'e event_queue \<Rightarrow> 'e list" where
  "waiting s = concat (map fst (mPendingWriteEventsQueue s))"

section \<open>Frame lemmas\<close>

named_theorems queue_frame \<open>what the wake-lock operations leave alone\<close>

lemma increment_frame [queue_frame]:
  "mPendingWriteEventsQueue (snd (incrementRefCountAndMaybeAcquireWakelock d now s)) =
     mPendingWriteEventsQueue s"
  "mSizePendingWriteEventsQueue (snd (incrementRefCountAndMaybeAcquireWakelock d now s)) =
     mSizePendingWriteEventsQueue s"
  "quantumCount (snd (incrementRefCountAndMaybeAcquireWakelock d now s)) = quantumCount s"
  "in_flight (snd (incrementRefCountAndMaybeAcquireWakelock d now s)) = in_flight s"
  "fmq (snd (incrementRefCountAndMaybeAcquireWakelock d now s)) = fmq s"
  "dropped (snd (incrementRefCountAndMaybeAcquireWakelock d now s)) = dropped s"
  "mThreadsRun (snd (incrementRefCountAndMaybeAcquireWakelock d now s)) = mThreadsRun s"
  by (simp_all add: incrementRefCountAndMaybeAcquireWakelock_def)

lemma decrement_frame [queue_frame]:
  "mPendingWriteEventsQueue (decrementRefCountAndMaybeReleaseWakelock d t s) =
     mPendingWriteEventsQueue s"
  "mSizePendingWriteEventsQueue (decrementRefCountAndMaybeReleaseWakelock d t s) =
     mSizePendingWriteEventsQueue s"
  "quantumCount (decrementRefCountAndMaybeReleaseWakelock d t s) = quantumCount s"
  "in_flight (decrementRefCountAndMaybeReleaseWakelock d t s) = in_flight s"
  "fmq (decrementRefCountAndMaybeReleaseWakelock d t s) = fmq s"
  "dropped (decrementRefCountAndMaybeReleaseWakelock d t s) = dropped s"
  "mThreadsRun (decrementRefCountAndMaybeReleaseWakelock d t s) = mThreadsRun s"
  by (simp_all add: decrementRefCountAndMaybeReleaseWakelock_def Let_def)

lemma reset_frame [queue_frame]:
  "mPendingWriteEventsQueue (resetSharedWakelock now s) = mPendingWriteEventsQueue s"
  "mSizePendingWriteEventsQueue (resetSharedWakelock now s) = mSizePendingWriteEventsQueue s"
  "quantumCount (resetSharedWakelock now s) = quantumCount s"
  "in_flight (resetSharedWakelock now s) = in_flight s"
  "fmq (resetSharedWakelock now s) = fmq s"
  "dropped (resetSharedWakelock now s) = dropped s"
  "mThreadsRun (resetSharedWakelock now s) = mThreadsRun s"
  by (simp_all add: resetSharedWakelock_def queue_frame)

section \<open>Every event is in one place, in order\<close>

definition queue_inv :: "'e event_queue \<Rightarrow> bool" where
  "queue_inv s \<longleftrightarrow>
     mSizePendingWriteEventsQueue s = length (waiting s) \<and>
     length (waiting s) \<le> kMaxSizePendingWriteEventsQueue \<and>
     (\<forall>p\<in>set (mPendingWriteEventsQueue s). fst p \<noteq> []) \<and>
     (\<forall>n. in_flight s = Some n \<longrightarrow> (\<exists>events num rest.
        mPendingWriteEventsQueue s = (events, num) # rest \<and> n = min (length events) (quantumCount s)))"

definition history :: "'e list \<Rightarrow> 'e event_queue \<Rightarrow> bool" where
  "history past s \<longleftrightarrow>
     mset past = mset (fmq s) + mset (waiting s) + mset (dropped s) \<and>
     subseq (fmq s @ waiting s) past"

lemma queue_inv_cong:
  assumes "mPendingWriteEventsQueue s' = mPendingWriteEventsQueue s"
    and "mSizePendingWriteEventsQueue s' = mSizePendingWriteEventsQueue s"
    and "quantumCount s' = quantumCount s" and "in_flight s' = in_flight s"
  shows "queue_inv s' \<longleftrightarrow> queue_inv s"
  using assms by (simp add: queue_inv_def waiting_def)

lemma history_cong:
  assumes "mPendingWriteEventsQueue s' = mPendingWriteEventsQueue s"
    and "fmq s' = fmq s" and "dropped s' = dropped s"
  shows "history past s' \<longleftrightarrow> history past s"
  using assms by (simp add: history_def waiting_def)

lemma num_to_write_bounds:
  "num_to_write avail ok events s \<le> length events"
  "mPendingWriteEventsQueue s \<noteq> [] \<Longrightarrow> num_to_write avail ok events s = 0"
  by (auto simp: num_to_write_def Let_def)

lemma num_to_write_cong:
  "mPendingWriteEventsQueue s' = mPendingWriteEventsQueue s \<Longrightarrow>
     num_to_write avail ok events s' = num_to_write avail ok events s"
  by (simp add: num_to_write_def)

text \<open>A post without its effect on the wake lock.\<close>

definition post_queue :: "nat \<Rightarrow> bool \<Rightarrow> 'e list \<Rightarrow> nat \<Rightarrow> 'e event_queue \<Rightarrow> 'e event_queue" where
  "post_queue avail ok events num s =
     (let n = num_to_write avail ok events s in
      push_pending n num events (s\<lparr> fmq := fmq s @ take n events \<rparr>))"

lemma post_as_queue:
  "postEventsToMessageQueue avail ok now events num locked s =
     post_queue avail ok events num
       (if locked then snd (incrementRefCountAndMaybeAcquireWakelock num now s) else s)"
  by (simp add: postEventsToMessageQueue_def post_queue_def Let_def)

lemma post_queue_inv:
  assumes "queue_inv s"
  shows "queue_inv (post_queue avail ok events num s)"
proof -
  define n where "n = num_to_write avail ok events s"
  show ?thesis
  proof (cases "n < length events \<and> mSizePendingWriteEventsQueue s + (length events - n) \<le> 100000")
    case True
    then show ?thesis
      using assms by (auto simp: queue_inv_def waiting_def post_queue_def push_pending_def Let_def
          n_def [symmetric])
  next
    case False
    then show ?thesis
      using assms by (auto simp: queue_inv_def waiting_def post_queue_def push_pending_def Let_def
          n_def [symmetric])
  qed
qed

lemma post_queue_history:
  assumes "history past s"
  shows "history (past @ events) (post_queue avail ok events num s)"
proof -
  define n where "n = num_to_write avail ok events s"
  have split: "mset events = mset (take n events) + mset (drop n events)"
    by (metis append_take_drop_id mset_append)
  have ord: "subseq (fmq s @ waiting s) past" using assms by (simp add: history_def)
  have here: "waiting s @ take n events = take n events @ waiting s"
    using num_to_write_bounds(2) [of s] by (cases "mPendingWriteEventsQueue s") (auto simp: n_def waiting_def)
  have all: "subseq ((fmq s @ take n events) @ waiting s @ drop n events) (past @ events)"
  proof -
    have "(fmq s @ take n events) @ waiting s @ drop n events = (fmq s @ waiting s) @ events"
      using here by (metis append.assoc append_take_drop_id)
    moreover have "subseq ((fmq s @ waiting s) @ events) (past @ events)"
      by (rule list_emb_append_mono [OF ord]) simp
    ultimately show ?thesis by simp
  qed
  have some: "subseq ((fmq s @ take n events) @ waiting s) (past @ events)"
  proof -
    have "subseq ((fmq s @ take n events) @ waiting s)
        (((fmq s @ take n events) @ waiting s) @ drop n events)"
      by (rule subseq_rev_drop_many) simp
    with all show ?thesis by (metis append.assoc subseq_order.trans)
  qed
  let ?s' = "post_queue avail ok events num s"
  have old: "mset past = mset (fmq s) + mset (waiting s) + mset (dropped s)"
    using assms by (simp add: history_def)
  have fmq': "fmq ?s' = fmq s @ take n events"
    by (simp add: post_queue_def push_pending_def Let_def n_def [symmetric])
  have "waiting ?s' = waiting s @ drop n events \<and> dropped ?s' = dropped s \<or>
      waiting ?s' = waiting s \<and> dropped ?s' = dropped s @ drop n events"
    by (cases "n < length events";
        cases "mSizePendingWriteEventsQueue s + (length events - n) \<le> 100000")
      (simp_all add: post_queue_def push_pending_def Let_def n_def [symmetric] waiting_def)
  then consider "waiting ?s' = waiting s @ drop n events" "dropped ?s' = dropped s"
    | "waiting ?s' = waiting s" "dropped ?s' = dropped s @ drop n events"
    by blast
  then show ?thesis
  proof cases
    case 1
    with all show ?thesis unfolding history_def fmq' 1 by (simp add: old split)
  next
    case 2
    with some show ?thesis unfolding history_def fmq' 2 by (simp add: old split)
  qed
qed

lemma post_inv:
  assumes "queue_inv s"
  shows "queue_inv (postEventsToMessageQueue avail ok now events num locked s)"
proof -
  have "queue_inv (snd (incrementRefCountAndMaybeAcquireWakelock num now s))"
    using assms queue_inv_cong [THEN iffD2, of _ s] by (auto simp: queue_frame)
  with assms show ?thesis
    unfolding post_as_queue by (auto intro: post_queue_inv)
qed

lemma post_history:
  assumes "history past s"
  shows "history (past @ events) (postEventsToMessageQueue avail ok now events num locked s)"
proof -
  have "history past (snd (incrementRefCountAndMaybeAcquireWakelock num now s))"
    using assms history_cong [THEN iffD2, of _ s] by (auto simp: queue_frame)
  with assms show ?thesis
    unfolding post_as_queue by (auto intro: post_queue_history)
qed

lemma write_begin_fields:
  "mPendingWriteEventsQueue (handlePendingWrites_begin s) = mPendingWriteEventsQueue s"
  "mSizePendingWriteEventsQueue (handlePendingWrites_begin s) = mSizePendingWriteEventsQueue s"
  "quantumCount (handlePendingWrites_begin s) = quantumCount s"
  "fmq (handlePendingWrites_begin s) = fmq s"
  "dropped (handlePendingWrites_begin s) = dropped s"
  "in_flight (handlePendingWrites_begin s) = in_flight s \<or>
     (\<exists>events num rest. mPendingWriteEventsQueue s = (events, num) # rest \<and>
       in_flight (handlePendingWrites_begin s) = Some (min (length events) (quantumCount s)))"
  by (auto simp: handlePendingWrites_begin_def split: list.splits)

lemma write_begin_inv: "queue_inv s \<Longrightarrow> queue_inv (handlePendingWrites_begin s)"
  using write_begin_fields(6) [of s]
  unfolding queue_inv_def waiting_def write_begin_fields(1-3) by auto

lemma write_begin_history: "history past s \<Longrightarrow> history past (handlePendingWrites_begin s)"
  by (rule history_cong [THEN iffD2]) (simp_all add: write_begin_fields)

lemma write_end_fields:
  assumes "in_flight s = Some n" "mPendingWriteEventsQueue s = (events, num) # rest"
  shows "mPendingWriteEventsQueue (handlePendingWrites_end wk ok s) =
      (if length events > quantumCount s then (drop (quantumCount s) events, num) # rest else rest)"
    "mSizePendingWriteEventsQueue (handlePendingWrites_end wk ok s) =
      size_sub (mSizePendingWriteEventsQueue s) n"
    "in_flight (handlePendingWrites_end wk ok s) = None"
    "fmq (handlePendingWrites_end wk ok s) = (if ok then fmq s @ take n events else fmq s)"
    "dropped (handlePendingWrites_end wk ok s) = (if ok then dropped s else dropped s @ take n events)"
    "quantumCount (handlePendingWrites_end wk ok s) = quantumCount s"
    "mThreadsRun (handlePendingWrites_end wk ok s) = mThreadsRun s"
  using assms by (simp_all add: handlePendingWrites_end_def Let_def queue_frame)

lemma write_end_idle:
  "in_flight s = None \<or> mPendingWriteEventsQueue s = [] \<Longrightarrow> handlePendingWrites_end wk ok s = s"
  by (auto simp: handlePendingWrites_end_def split: option.splits)

lemma write_end_both:
  assumes inv: "queue_inv s" and hist: "history past s"
  shows "queue_inv (handlePendingWrites_end wk ok s) \<and> history past (handlePendingWrites_end wk ok s)"
proof (cases "in_flight s")
  case None
  with assms show ?thesis by (simp add: write_end_idle)
next
  case (Some n)
  then obtain events num rest where q: "mPendingWriteEventsQueue s = (events, num) # rest"
      "n = min (length events) (quantumCount s)"
    using inv by (auto simp: queue_inv_def)
  note F = write_end_fields [OF Some q(1), of wk ok]
  have w: "waiting s = take n events @ drop n events @ concat (map fst rest)"
    by (simp add: waiting_def q(1))
  have w': "waiting (handlePendingWrites_end wk ok s) = drop n events @ concat (map fst rest)"
    using q(2) by (simp add: waiting_def F(1))
  have n: "length (take n events) = n" using q(2) by simp
  have size: "size_sub (mSizePendingWriteEventsQueue s) n = length (drop n events @ concat (map fst rest))"
    using inv n by (simp add: queue_inv_def w size_sub_def)
  have "queue_inv (handlePendingWrites_end wk ok s)"
    unfolding queue_inv_def F(2,3) w' size
    using inv n by (auto simp: queue_inv_def w F(1) q(1))
  moreover have "history past (handlePendingWrites_end wk ok s)"
  proof -
    have "subseq (fmq s @ drop n events @ concat (map fst rest)) (fmq s @ waiting s)"
      unfolding w by (intro subseq_append' [THEN iffD2] list_emb_append2) simp
    then show ?thesis
      using hist unfolding history_def w' F(4,5)
      by (auto simp: w intro: subseq_order.trans)
  qed
  ultimately show ?thesis ..
qed

lemma keeps_by_frame:
  assumes "queue_inv s \<and> history past s"
    and "mPendingWriteEventsQueue s' = mPendingWriteEventsQueue s"
    and "mSizePendingWriteEventsQueue s' = mSizePendingWriteEventsQueue s"
    and "quantumCount s' = quantumCount s" and "in_flight s' = in_flight s"
    and "fmq s' = fmq s" and "dropped s' = dropped s"
  shows "queue_inv s' \<and> history past s'"
  using assms by (simp add: queue_inv_def history_def waiting_def)

lemma stop_frame [queue_frame]:
  "mPendingWriteEventsQueue (stopThreads now s) = mPendingWriteEventsQueue s"
  "mSizePendingWriteEventsQueue (stopThreads now s) = mSizePendingWriteEventsQueue s"
  "quantumCount (stopThreads now s) = quantumCount s"
  "in_flight (stopThreads now s) = in_flight s"
  "fmq (stopThreads now s) = fmq s" "dropped (stopThreads now s) = dropped s"
  by (simp_all add: stopThreads_def queue_frame)

lemma wakelock_iteration_cases:
  "handleWakelocks_iteration limit now handled s = s \<or>
   handleWakelocks_iteration limit now handled s = resetSharedWakelock now s \<or>
   (\<exists>n. handleWakelocks_iteration limit now handled s =
      decrementRefCountAndMaybeReleaseWakelock n (-1) s)"
  by (auto simp: handleWakelocks_iteration_def split: option.splits)

lemma wakelock_ops_keep:
  assumes "queue_inv s \<and> history past s"
  shows "queue_inv (snd (new_ScopedWakelock l now s)) \<and> history past (snd (new_ScopedWakelock l now s))"
    "queue_inv (destroy_ScopedWakelock w s) \<and> history past (destroy_ScopedWakelock w s)"
    "queue_inv (handleWakelocks_iteration limit now handled s) \<and>
      history past (handleWakelocks_iteration limit now handled s)"
    "queue_inv (stopThreads now s) \<and> history past (stopThreads now s)"
proof -
  show "queue_inv (snd (new_ScopedWakelock l now s)) \<and> history past (snd (new_ScopedWakelock l now s))"
    by (rule keeps_by_frame [OF assms])
      (simp_all add: new_ScopedWakelock_def case_prod_beta queue_frame)
  show "queue_inv (destroy_ScopedWakelock w s) \<and> history past (destroy_ScopedWakelock w s)"
    by (rule keeps_by_frame [OF assms]) (simp_all add: destroy_ScopedWakelock_def queue_frame)
  show "queue_inv (handleWakelocks_iteration limit now handled s) \<and>
      history past (handleWakelocks_iteration limit now handled s)"
    using wakelock_iteration_cases [of limit now handled s]
    by (elim disjE exE; intro keeps_by_frame [OF assms]) (simp_all add: queue_frame)
  show "queue_inv (stopThreads now s) \<and> history past (stopThreads now s)"
    by (rule keeps_by_frame [OF assms]) (simp_all add: queue_frame)
qed

lemma restart_keeps:
  assumes "queue_inv s" "history past s"
  shows "queue_inv (restart_queue now s) \<and> history past (restart_queue now s)"
proof (cases "in_flight s")
  case None
  have "queue_inv (restart_queue now s)"
    by (simp add: restart_queue_def None queue_inv_def waiting_def Let_def queue_frame)
  moreover have "history past (restart_queue now s)"
    using assms(2) subseq_order.trans [OF subseq_rev_drop_many [of "fmq s" "fmq s" "waiting s"]]
    by (simp add: restart_queue_def None history_def waiting_def Let_def queue_frame)
  ultimately show ?thesis ..
qed (use assms in \<open>simp add: restart_queue_def\<close>)

lemma act_keeps:
  assumes "queue_inv s" "history past s"
  shows "queue_inv (act wk limit a s) \<and> history (past @ posted_by a) (act wk limit a s)"
proof (cases a)
  case (Post avail ok now events num locked)
  with assms show ?thesis by (simp add: post_inv post_history)
next
  case Write_begin
  with assms show ?thesis by (simp add: write_begin_inv write_begin_history)
qed (use assms wakelock_ops_keep [of s past] in \<open>simp_all add: restart_keeps write_end_both\<close>)

lemma run_keeps:
  "queue_inv s \<Longrightarrow> history past s \<Longrightarrow>
     queue_inv (run wk limit acts s) \<and> history (past @ posted acts) (run wk limit acts s)"
proof (induction acts arbitrary: s past)
  case (Cons a acts)
  from act_keeps [OF Cons.prems, of wk limit a]
    Cons.IH [of "act wk limit a s" "past @ posted_by a"]
  show ?case by (simp add: run_def posted_def)
qed (simp add: run_def posted_def)

lemma run_from_start:
  "queue_inv (run wk limit acts (new_event_queue quantum now)) \<and>
   history (posted acts) (run wk limit acts (new_event_queue quantum now))"
proof -
  have "queue_inv (new_event_queue quantum now)" "history [] (new_event_queue quantum now)"
    by (simp_all add: new_event_queue_def queue_inv_def history_def waiting_def)
  from run_keeps [OF this] show ?thesis by simp
qed

text \<open>C3: In every interleaving of posts, steps of the writer thread, wake-lock operations and
  restarts, every posted event is in exactly one place (message queue, pending or
  dropped), written and pending events are in the order of posting, and the size counter
  is exact and at most 100000.\<close>

theorem events_delivered_in_order:
  assumes "s = run wk limit acts (new_event_queue quantum now)"
  shows "mset (posted acts) = mset (fmq s) + mset (waiting s) + mset (dropped s) \<and>
    subseq (fmq s @ waiting s) (posted acts) \<and>
    (dropped s = [] \<longrightarrow> fmq s @ waiting s = posted acts) \<and>
    mSizePendingWriteEventsQueue s = length (waiting s) \<and> length (waiting s) \<le> 100000"
proof -
  have inv: "queue_inv s" and hist: "history (posted acts) s"
    using run_from_start [of wk limit acts quantum now] assms by auto
  have "fmq s @ waiting s = posted acts" if "dropped s = []"
  proof (rule subseq_same_length)
    show "subseq (fmq s @ waiting s) (posted acts)" using hist by (simp add: history_def)
    have "mset (posted acts) = mset (fmq s @ waiting s)"
      using hist that by (simp add: history_def)
    then show "length (fmq s @ waiting s) = length (posted acts)"
      by (metis mset_eq_length)
  qed
  with inv hist show ?thesis by (simp add: queue_inv_def history_def)
qed

lemmas queue_defs = run_def new_event_queue_def postEventsToMessageQueue_def num_to_write_def
  push_pending_def handlePendingWrites_begin_def handlePendingWrites_end_def size_sub_def
  incrementRefCountAndMaybeAcquireWakelock_def decrementRefCountAndMaybeReleaseWakelock_def
  resetSharedWakelock_def sharedWakelockDidTimeout_def handleWakelocks_iteration_def
  new_ScopedWakelock_def destroy_ScopedWakelock_def countNumWakeupEvents_def stopThreads_def
  restart_queue_def

text \<open>A sample run: a queue for two events, a burst of three, and later posts.\<close>

definition sample_acts :: "int action list" where
  "sample_acts = [Post 1 True 0 [1, 2, 3] 0 False, Post 9 True 1 [4] 0 False, Write_begin,
     Post 9 True 1 [5] 0 False, Write_end True]"

theorem events_delivered_in_order_witness:
  "fmq (run (\<lambda>_. True) 0 sample_acts (new_event_queue 2 0)) = [1, 2, 3] \<and>
   fmq (run (\<lambda>_. True) 0 sample_acts (new_event_queue 2 0)) @
     waiting (run (\<lambda>_. True) 0 sample_acts (new_event_queue 2 0)) = [1, 2, 3, 4, 5]"
proof -
  have "dropped (run (\<lambda>_. True) 0 sample_acts (new_event_queue 2 0)) = []"
    "fmq (run (\<lambda>_. True) 0 sample_acts (new_event_queue 2 0)) = [1, 2, 3]"
    by (simp_all add: queue_defs sample_acts_def)
  moreover have "posted sample_acts = [1, 2, 3, 4, 5]"
    by (simp add: posted_def sample_acts_def)
  ultimately show ?thesis
    using events_delivered_in_order [OF refl, where wk = "\<lambda>_. True" and limit = 0 and
      quantum = 2 and now = 0 and acts = sample_acts] by simp
qed

section \<open>The wake lock\<close>

text \<open>A post that comes with a locked \<open>ScopedWakelock\<close> has wake-up events (\<open>ALOG_ASSERT\<close> in
  \<open>HalProxyCallbackBase::postEvents\<close>).\<close>

fun well_formed :: "'e action \<Rightarrow> bool" where
  "well_formed (Post avail ok now events num locked) \<longleftrightarrow> (locked \<longrightarrow> 0 < num)"
| "well_formed _ \<longleftrightarrow> True"

definition lock_counts :: "'e event_queue \<Rightarrow> bool" where
  "lock_counts s \<longleftrightarrow> (wake_lock s \<longleftrightarrow> 0 < mWakelockRefCount s)"

lemma increment_lock_counts:
  "lock_counts s \<Longrightarrow> 0 < d \<Longrightarrow> lock_counts (snd (incrementRefCountAndMaybeAcquireWakelock d now s))"
  by (auto simp: lock_counts_def incrementRefCountAndMaybeAcquireWakelock_def)

lemma decrement_lock_counts:
  "lock_counts s \<Longrightarrow> lock_counts (decrementRefCountAndMaybeReleaseWakelock d t s)"
  by (auto simp: lock_counts_def decrementRefCountAndMaybeReleaseWakelock_def Let_def)

lemma lock_counts_cong:
  "wake_lock s' = wake_lock s \<Longrightarrow> mWakelockRefCount s' = mWakelockRefCount s \<Longrightarrow>
     lock_counts s \<Longrightarrow> lock_counts s'"
  by (simp add: lock_counts_def)

lemma reset_lock_counts: "lock_counts s \<Longrightarrow> lock_counts (resetSharedWakelock now s)"
  unfolding resetSharedWakelock_def
  by (rule lock_counts_cong [OF _ _ decrement_lock_counts]) simp_all

lemma post_queue_lock [simp]:
  "wake_lock (post_queue avail ok events num s) = wake_lock s"
  "mWakelockRefCount (post_queue avail ok events num s) = mWakelockRefCount s"
  by (simp_all add: post_queue_def push_pending_def Let_def)

lemma write_end_lock_counts:
  assumes "lock_counts s"
  shows "lock_counts (handlePendingWrites_end wk ok s)"
proof (cases "in_flight s = None \<or> mPendingWriteEventsQueue s = []")
  case True
  with assms show ?thesis by (simp add: write_end_idle)
next
  case False
  then obtain n events num rest where q: "in_flight s = Some n"
      "mPendingWriteEventsQueue s = (events, num) # rest"
    by (cases "mPendingWriteEventsQueue s") auto
  define t where "t = (if ok \<or> num = 0 then s else decrementRefCountAndMaybeReleaseWakelock
      (if length events > quantumCount s then countNumWakeupEvents wk events (quantumCount s) else num)
      (-1) (s\<lparr> dropped := dropped s @ take n events \<rparr>))"
  have "lock_counts (s\<lparr> dropped := dropped s @ take n events \<rparr>)"
    using assms by (simp add: lock_counts_def)
  then have "lock_counts t"
    using assms by (simp add: t_def decrement_lock_counts)
  moreover have "wake_lock (handlePendingWrites_end wk ok s) = wake_lock t"
    "mWakelockRefCount (handlePendingWrites_end wk ok s) = mWakelockRefCount t"
    by (simp_all add: handlePendingWrites_end_def q Let_def t_def)
  ultimately show ?thesis by (simp add: lock_counts_def)
qed

lemma act_lock_counts:
  assumes "lock_counts s" "well_formed a"
  shows "lock_counts (act wk limit a s)"
proof (cases a)
  case (Post avail ok now events num locked)
  have "lock_counts (if locked then snd (incrementRefCountAndMaybeAcquireWakelock num now s) else s)"
    using assms Post by (simp add: increment_lock_counts)
  then show ?thesis
    unfolding Post act.simps post_as_queue by (rule lock_counts_cong [rotated 2]) simp_all
next
  case (Wakelocks now handled)
  then show ?thesis
    using wakelock_iteration_cases [of limit now handled s] assms(1)
    by (auto simp: reset_lock_counts decrement_lock_counts)
next
  case Write_begin
  then show ?thesis using assms(1)
    by (auto simp: handlePendingWrites_begin_def lock_counts_def split: list.splits)
next
  case (Stop_threads now)
  have "lock_counts (s\<lparr>mThreadsRun := False\<rparr>)" using assms(1) by (simp add: lock_counts_def)
  then show ?thesis by (simp add: Stop_threads stopThreads_def reset_lock_counts)
next
  case (Restart now)
  then show ?thesis using reset_lock_counts [OF assms(1), of now]
    by (simp add: restart_queue_def Let_def lock_counts_def assms(1) [unfolded lock_counts_def])
qed (use assms in \<open>simp_all add: write_end_lock_counts new_ScopedWakelock_def case_prod_beta
  destroy_ScopedWakelock_def increment_lock_counts decrement_lock_counts\<close>)

lemma run_lock_counts:
  "lock_counts s \<Longrightarrow> \<forall>a\<in>set acts. well_formed a \<Longrightarrow> lock_counts (run wk limit acts s)"
  by (induction acts arbitrary: s) (auto simp: run_def act_lock_counts)

text \<open>C26: In every interleaving of well-formed operations the proxy holds the wake lock
  exactly while its reference count is positive.\<close>

theorem wake_lock_held_iff_counted:
  assumes "\<forall>a\<in>set acts. well_formed a"
  shows "wake_lock (run wk limit acts (new_event_queue quantum now)) \<longleftrightarrow>
    0 < mWakelockRefCount (run wk limit acts (new_event_queue quantum now))"
  using run_lock_counts [OF _ assms, of "new_event_queue quantum now" wk limit]
  by (simp add: lock_counts_def new_event_queue_def)

theorem wake_lock_held_iff_counted_witness:
  "wake_lock (run (\<lambda>_. True) 9 [Post 1 True 0 [1 :: int] 1 True] (new_event_queue 2 0)) \<and>
   (\<not> wake_lock (run (\<lambda>_. True) 9 [Post 1 True 0 [1 :: int] 1 True, Wakelocks 5 (Some 1)]
      (new_event_queue 2 0)))"
proof -
  have "mWakelockRefCount (run (\<lambda>_. True) 9 [Post 1 True 0 [1 :: int] 1 True] (new_event_queue 2 0)) = 1"
    "mWakelockRefCount (run (\<lambda>_. True) 9 [Post 1 True 0 [1 :: int] 1 True, Wakelocks 5 (Some 1)]
      (new_event_queue 2 0)) = 0"
    by (simp_all add: queue_defs)
  then show ?thesis
    using wake_lock_held_iff_counted [of "[Post 1 True 0 [1 :: int] 1 True]" "\<lambda>_. True" 9 2 0]
      wake_lock_held_iff_counted [of "[Post 1 True 0 [1 :: int] 1 True, Wakelocks 5 (Some 1)]"
        "\<lambda>_. True" 9 2 0] by simp
qed

section \<open>The writer thread drains the queue\<close>

definition write_round :: "'e action list" where
  "write_round = [Write_begin, Write_end True]"

lemma write_round_step:
  fixes wk limit
  assumes "queue_inv s" "mThreadsRun s" "in_flight s = None" "0 < quantumCount s"
    and "waiting s \<noteq> []"
  defines "s' \<equiv> run wk limit write_round s"
  shows "queue_inv s' \<and> mThreadsRun s' \<and> in_flight s' = None \<and> quantumCount s' = quantumCount s \<and>
    fmq s' @ waiting s' = fmq s @ waiting s \<and> dropped s' = dropped s \<and>
    length (waiting s') < length (waiting s)"
proof -
  obtain events num rest where q: "mPendingWriteEventsQueue s = (events, num) # rest"
    using assms(5) by (cases "mPendingWriteEventsQueue s") (auto simp: waiting_def)
  define n where "n = min (length events) (quantumCount s)"
  define b where "b = handlePendingWrites_begin s"
  have b: "b = s\<lparr>in_flight := Some n\<rparr>"
    using assms(2,3) by (simp add: b_def handlePendingWrites_begin_def q n_def)
  have s': "s' = handlePendingWrites_end wk True b"
    by (simp add: s'_def run_def write_round_def b_def)
  have "in_flight b = Some n" "mPendingWriteEventsQueue b = (events, num) # rest"
    by (simp_all add: b q)
  note F = write_end_fields [OF this, of wk True, folded s']
  have "events \<noteq> []" using assms(1) q by (auto simp: queue_inv_def)
  then have n: "0 < n" "n \<le> length events" using assms(4) by (auto simp: n_def)
  have w: "waiting s = take n events @ drop n events @ concat (map fst rest)"
    by (simp add: waiting_def q)
  have w': "waiting s' = drop n events @ concat (map fst rest)"
    by (simp add: waiting_def F(1) b n_def)
  have "queue_inv s'"
    using assms(1) F(1-3) w w' n
    by (auto simp: queue_inv_def b q size_sub_def)
  then show ?thesis
    using F assms(2) n by (simp add: w w' b)
qed

lemma run_append: "run wk limit (as @ bs) s = run wk limit bs (run wk limit as s)"
  by (simp add: run_def)

lemma write_rounds_drain:
  "queue_inv s \<Longrightarrow> mThreadsRun s \<Longrightarrow> in_flight s = None \<Longrightarrow> 0 < quantumCount s \<Longrightarrow>
   \<exists>k\<le>length (waiting s).
     waiting (run wk limit (concat (replicate k write_round)) s) = [] \<and>
     fmq (run wk limit (concat (replicate k write_round)) s) = fmq s @ waiting s \<and>
     dropped (run wk limit (concat (replicate k write_round)) s) = dropped s"
proof (induction "length (waiting s)" arbitrary: s rule: less_induct)
  case less
  show ?case
  proof (cases "waiting s = []")
    case True
    then show ?thesis by (intro exI [of _ 0]) (simp add: run_def)
  next
    case False
    define t where "t = run wk limit write_round s"
    note T = write_round_step [OF less.prems False, of wk limit, folded t_def]
    then obtain k where k: "k \<le> length (waiting t)"
        "waiting (run wk limit (concat (replicate k write_round)) t) = []"
        "fmq (run wk limit (concat (replicate k write_round)) t) = fmq t @ waiting t"
        "dropped (run wk limit (concat (replicate k write_round)) t) = dropped t"
      using less.hyps [of t] less.prems by auto
    have "run wk limit (concat (replicate (Suc k) write_round)) s =
        run wk limit (concat (replicate k write_round)) t"
      by (simp add: run_append t_def)
    with k T show ?thesis by (intro exI [of _ "Suc k"]) simp
  qed
qed

text \<open>C27: From every reachable state with running threads the writer thread, when its writes
  succeed, empties the pending queue within 100000 rounds and delivers everything pending
  in order.\<close>

theorem writer_thread_drains:
  assumes "s = run wk limit acts (new_event_queue quantum now)"
    and "mThreadsRun s" "in_flight s = None" "0 < quantumCount s"
  shows "\<exists>k\<le>100000.
     waiting (run wk limit (concat (replicate k write_round)) s) = [] \<and>
     fmq (run wk limit (concat (replicate k write_round)) s) = fmq s @ waiting s"
proof -
  have inv: "queue_inv s" using run_from_start [of wk limit acts quantum now] assms(1) by simp
  from write_rounds_drain [OF inv assms(2-4), of wk limit] inv show ?thesis
    unfolding queue_inv_def by (meson le_trans)
qed

definition stuck_acts :: "int action list" where
  "stuck_acts = [Post 1 True 0 [1, 2, 3, 4, 5] 0 False]"

theorem writer_thread_drains_witness:
  "\<exists>k\<le>100000. fmq (run (\<lambda>_. True) 0 (concat (replicate k write_round))
     (run (\<lambda>_. True) 0 stuck_acts (new_event_queue 2 0))) = [1, 2, 3, 4, 5]"
proof -
  define s where "s = run (\<lambda>_. True) 0 stuck_acts (new_event_queue 2 0)"
  have "mThreadsRun s" "in_flight s = None" "0 < quantumCount s" "fmq s @ waiting s = [1, 2, 3, 4, 5]"
    by (simp_all add: s_def queue_defs stuck_acts_def waiting_def)
  with writer_thread_drains [OF s_def] show ?thesis unfolding s_def [symmetric] by force
qed

section \<open>Time-out, and where the count goes wrong\<close>

text \<open>An iteration of the wake-lock thread past the time-out resets the count and releases the
  lock, whatever was read, and scoped wake locks created before have no effect afterwards.\<close>

theorem wake_lock_times_out:
  assumes "mThreadsRun s" "0 < mWakelockRefCount s" "limit < now - mWakelockTimeoutStartTime s"
  shows "mWakelockRefCount (act wk limit (Wakelocks now handled) s) = 0 \<and>
    \<not> wake_lock (act wk limit (Wakelocks now handled) s) \<and>
    (\<forall>created < now. act wk limit (Scoped_destroy created) (act wk limit (Wakelocks now handled) s) =
       act wk limit (Wakelocks now handled) s)"
  using assms
  by (simp add: queue_defs Let_def)

theorem wake_lock_times_out_witness:
  "\<not> wake_lock (run (\<lambda>_. True) 9 [Scoped_create 0, Wakelocks 10 None]
     (new_event_queue 2 0 :: int event_queue)) \<and>
   wake_lock (run (\<lambda>_. True) 9 [Scoped_create 0] (new_event_queue 2 0 :: int event_queue))"
proof -
  define s :: "int event_queue" where "s = run (\<lambda>_. True) 9 [Scoped_create 0] (new_event_queue 2 0)"
  have s: "mThreadsRun s" "0 < mWakelockRefCount s" "mWakelockTimeoutStartTime s = 0" "wake_lock s"
    by (simp_all add: s_def queue_defs)
  moreover have "run (\<lambda>_. True) 9 [Scoped_create 0, Wakelocks 10 None] (new_event_queue 2 0) =
      act (\<lambda>_. True) 9 (Wakelocks 10 None) s"
    by (simp add: s_def run_def)
  ultimately show ?thesis
    using wake_lock_times_out [of s 9 10 "\<lambda>_. True" None] by (simp add: s_def)
qed

text \<open>After a post of two wake-up events of which one is written at once, a failed write of
  the other subtracts both from the count: the wake lock is released although the first
  event is still with the framework.\<close>

theorem failed_write_releases_wake_lock_early:
  "let s = run (\<lambda>_. True) limit [Post 1 True 0 [e1, e2] 2 True, Write_begin, Write_end False]
       (new_event_queue 1 0)
   in fmq s = [e1] \<and> mWakelockRefCount s = 0 \<and> \<not> wake_lock s"
  by (simp add: queue_defs Let_def)

text \<open>Stopping the threads and initialising again drops the pending events but keeps reference
  count and wake lock, because both resets run while mThreadsRun is false.\<close>

theorem restart_keeps_wake_lock:
  assumes "in_flight s = None"
  shows "mWakelockRefCount (run wk limit [Stop_threads t1, Restart t2] s) = mWakelockRefCount s \<and>
    wake_lock (run wk limit [Stop_threads t1, Restart t2] s) = wake_lock s \<and>
    waiting (run wk limit [Stop_threads t1, Restart t2] s) = []"
  using assms by (simp add: queue_defs Let_def waiting_def)

theorem restart_keeps_wake_lock_witness:
  "wake_lock (run (\<lambda>_. True) 9 [Stop_threads 1, Restart 2]
     (run (\<lambda>_. True) 9 [Scoped_create 0] (new_event_queue 2 0 :: int event_queue)))"
proof -
  define s :: "int event_queue" where "s = run (\<lambda>_. True) 9 [Scoped_create 0] (new_event_queue 2 0)"
  have "in_flight s = None" "wake_lock s" by (simp_all add: s_def queue_defs)
  with restart_keeps_wake_lock [of s "\<lambda>_. True" 9 1 2] show ?thesis by (simp add: s_def)
qed

text \<open>Events beyond the limit of the pending queue are dropped, but stay counted.\<close>

lemma overflow_keeps_count:
  assumes "mThreadsRun s" "mPendingWriteEventsQueue s \<noteq> []"
    and "100000 < mSizePendingWriteEventsQueue s + length events" "events \<noteq> []"
  shows "dropped (postEventsToMessageQueue avail ok now events num True s) = dropped s @ events \<and>
    mWakelockRefCount (postEventsToMessageQueue avail ok now events num True s) =
      mWakelockRefCount s + num"
  using assms by (simp add: queue_defs Let_def)

end
