(* ===== verification/Convert_Utils.thy ===== *)
theory Convert_Utils
  imports Hal_Types
begin

text \<open>
  The conversions of \<open>multihal/aidl/ConvertUtils.cpp\<close> between the HIDL and the AIDL types of sensor
  descriptions and events.  No \<open>float\<close> is computed with: values are 32-bit patterns.  A HIDL
  payload is a union, of which the constructor names the member that was written last; the AIDL
  payload is a tagged union, and \<open>get\<close> with another tag ends the process.  \<open>None\<close> stands for that,
  for a failed \<open>CHECK_GE\<close>, for a copy past the end of an array, and for reading a union through
  another member.  The length \<open>n\<close> of the AIDL \<open>Data\<close> array belongs to the platform's interface and
  is an argument; the other fixed-size arrays have equal lengths on both sides.
\<close>

section \<open>Descriptions\<close>

record aidl_sensor_info =
  ai_sensorHandle :: handle
  ai_name :: string
  ai_vendor :: string
  ai_version :: int
  ai_type :: int
  ai_typeAsString :: string
  ai_maxRange :: rat
  ai_resolution :: rat
  ai_power :: rat
  ai_minDelayUs :: int
  ai_fifoReservedEventCount :: int
  ai_fifoMaxEventCount :: int
  ai_requiredPermission :: string
  ai_maxDelayUs :: int
  ai_flags :: u32

definition convertSensorInfo :: "sensor_info \<Rightarrow> aidl_sensor_info" where
  "convertSensorInfo sensorInfo = \<lparr> ai_sensorHandle = si_handle sensorInfo,
     ai_name = si_name sensorInfo, ai_vendor = si_vendor sensorInfo,
     ai_version = si_version sensorInfo, ai_type = si_type sensorInfo,
     ai_typeAsString = si_typeAsString sensorInfo, ai_maxRange = si_maxRange sensorInfo,
     ai_resolution = si_resolution sensorInfo, ai_power = si_power sensorInfo,
     ai_minDelayUs = si_minDelay sensorInfo,
     ai_fifoReservedEventCount = si_fifoReservedEventCount sensorInfo,
     ai_fifoMaxEventCount = si_fifoMaxEventCount sensorInfo,
     ai_requiredPermission = si_requiredPermission sensorInfo,
     ai_maxDelayUs = si_maxDelay sensorInfo, ai_flags = si_flags sensorInfo \<rparr>"

definition convertToAidlSensorInfos :: "sensor_info list \<Rightarrow> aidl_sensor_info list" where
  "convertToAidlSensorInfos sensorInfos = map convertSensorInfo sensorInfos"

lemma convertSensorInfo_inject: "convertSensorInfo a = convertSensorInfo b \<longleftrightarrow> a = b"
  by (cases a; cases b) (auto simp: convertSensorInfo_def)

section \<open>Events\<close>

datatype additional_payload = DataInt32 "u32 list" | DataFloat "u32 list"

datatype aidl_payload =
    AMeta int
  | AVec3 u32 u32 u32 int
  | AVec4 u32 u32 u32 u32
  | AUncal u32 u32 u32 u32 u32 u32
  | AScalar u32
  | AStepCount u64
  | AHeartRate u32 int
  | APose6DOF "u32 list"
  | ADynamic bool handle "u8 list"
  | AAdditional int int additional_payload
  | AData "u32 list"
  | AHeadTracker u32 u32 u32 u32 u32 u32 u32

record aidl_event =
  ae_timestamp :: int
  ae_sensorHandle :: handle
  ae_sensorType :: int
  ae_payload :: aidl_payload

type_synonym hidl_event = "u32 event"

text \<open>The case labels, which both functions share.\<close>

datatype member = M_meta | M_vec3 | M_vec4 | M_rotation | M_uncal | M_scalar | M_stepCount
  | M_heartRate | M_pose6DOF | M_dynamic | M_additional | M_headTracker | M_data

definition member_of :: "int \<Rightarrow> member" where
  "member_of sensorType =
     (if sensorType = SENSOR_TYPE_META_DATA then M_meta
      else if sensorType \<in> {SENSOR_TYPE_ACCELEROMETER, SENSOR_TYPE_MAGNETIC_FIELD,
        SENSOR_TYPE_ORIENTATION, SENSOR_TYPE_GYROSCOPE, SENSOR_TYPE_GRAVITY,
        SENSOR_TYPE_LINEAR_ACCELERATION} then M_vec3
      else if sensorType = SENSOR_TYPE_GAME_ROTATION_VECTOR then M_vec4
      else if sensorType \<in> {SENSOR_TYPE_ROTATION_VECTOR, SENSOR_TYPE_GEOMAGNETIC_ROTATION_VECTOR}
        then M_rotation
      else if sensorType \<in> {SENSOR_TYPE_ACCELEROMETER_UNCALIBRATED,
        SENSOR_TYPE_MAGNETIC_FIELD_UNCALIBRATED, SENSOR_TYPE_GYROSCOPE_UNCALIBRATED} then M_uncal
      else if sensorType \<in> {SENSOR_TYPE_DEVICE_ORIENTATION, SENSOR_TYPE_LIGHT, SENSOR_TYPE_PRESSURE,
        SENSOR_TYPE_PROXIMITY, SENSOR_TYPE_RELATIVE_HUMIDITY, SENSOR_TYPE_AMBIENT_TEMPERATURE,
        SENSOR_TYPE_SIGNIFICANT_MOTION, SENSOR_TYPE_STEP_DETECTOR, SENSOR_TYPE_TILT_DETECTOR,
        SENSOR_TYPE_WAKE_GESTURE, SENSOR_TYPE_GLANCE_GESTURE, SENSOR_TYPE_PICK_UP_GESTURE,
        SENSOR_TYPE_WRIST_TILT_GESTURE, SENSOR_TYPE_STATIONARY_DETECT, SENSOR_TYPE_MOTION_DETECT,
        SENSOR_TYPE_HEART_BEAT, SENSOR_TYPE_LOW_LATENCY_OFFBODY_DETECT, SENSOR_TYPE_HINGE_ANGLE}
        then M_scalar
      else if sensorType = SENSOR_TYPE_STEP_COUNTER then M_stepCount
      else if sensorType = SENSOR_TYPE_HEART_RATE then M_heartRate
      else if sensorType = SENSOR_TYPE_POSE_6DOF then M_pose6DOF
      else if sensorType = SENSOR_TYPE_DYNAMIC_SENSOR_META then M_dynamic
      else if sensorType = SENSOR_TYPE_ADDITIONAL_INFO then M_additional
      else if sensorType = SENSOR_TYPE_HEAD_TRACKER then M_headTracker
      else M_data)"

text \<open>\<open>std::copy\<close> into an array of \<open>room\<close> elements: what lies behind the copy stays.\<close>

definition copy_into :: "nat \<Rightarrow> 'a list \<Rightarrow> 'a list \<Rightarrow> 'a list option" where
  "copy_into room xs old = (if length xs \<le> room then Some (xs @ drop (length xs) old) else None)"

text \<open>\<open>mem\<close> is what the 16 words of the HIDL union hold before.  The head tracker's counter is an
  \<open>int32_t\<close> stored in the bits of the seventh word.\<close>

definition to_hidl_payload :: "u32 list \<Rightarrow> int \<Rightarrow> aidl_payload \<Rightarrow> u32 payload option" where
  "to_hidl_payload mem sensorType payload =
     (case (member_of sensorType, payload) of
        (M_meta, AMeta what) \<Rightarrow> Some (Meta what)
      | (M_vec3, AVec3 x y z status) \<Rightarrow> Some (Vec3 x y z status)
      | (M_vec4, AVec4 x y z w) \<Rightarrow> Some (Vec4 x y z w)
      | (M_rotation, AData values) \<Rightarrow>
          if length values < 5 then None else map_option Data (copy_into 16 (take 5 values) mem)
      | (M_uncal, AUncal x y z xb yb zb) \<Rightarrow> Some (Uncal x y z xb yb zb)
      | (M_scalar, AScalar v) \<Rightarrow> Some (Scalar v)
      | (M_stepCount, AStepCount c) \<Rightarrow> Some (StepCount c)
      | (M_heartRate, AHeartRate bpm status) \<Rightarrow> Some (HeartRate bpm status)
      | (M_pose6DOF, APose6DOF values) \<Rightarrow> Some (Pose6DOF values)
      | (M_dynamic, ADynamic conn h uuid) \<Rightarrow> Some (Dynamic conn h uuid)
      | (M_additional, AAdditional type serial (DataInt32 values)) \<Rightarrow>
          Some (Additional type serial values)
      | (M_additional, AAdditional type serial (DataFloat values)) \<Rightarrow>
          Some (Additional type serial values)
      | (M_headTracker, AHeadTracker rx ry rz vx vy vz discontinuityCount) \<Rightarrow>
          map_option Data (copy_into 16 [rx, ry, rz, vx, vy, vz, discontinuityCount] mem)
      | (M_data, AData values) \<Rightarrow>
          if sensorType \<ge> SENSOR_TYPE_DEVICE_PRIVATE_BASE
          then map_option Data (copy_into 16 values mem) else None
      | _ \<Rightarrow> None)"

definition convertToHidlEvent :: "u32 list \<Rightarrow> aidl_event \<Rightarrow> hidl_event option" where
  "convertToHidlEvent mem aidlEvent =
     (case to_hidl_payload mem (ae_sensorType aidlEvent) (ae_payload aidlEvent) of
        None \<Rightarrow> None
      | Some u \<Rightarrow> Some \<lparr> ev_timestamp = ae_timestamp aidlEvent,
          ev_handle = ae_sensorHandle aidlEvent, ev_type = ae_sensorType aidlEvent, ev_u = u \<rparr>)"

text \<open>A new \<open>Data\<close> object holds zeros.\<close>

definition to_aidl_payload :: "nat \<Rightarrow> int \<Rightarrow> u32 payload \<Rightarrow> aidl_payload option" where
  "to_aidl_payload n sensorType u =
     (case (member_of sensorType, u) of
        (M_meta, Meta what) \<Rightarrow> Some (AMeta what)
      | (M_vec3, Vec3 x y z status) \<Rightarrow> Some (AVec3 x y z status)
      | (M_vec4, Vec4 x y z w) \<Rightarrow> Some (AVec4 x y z w)
      | (M_rotation, Data values) \<Rightarrow>
          map_option AData (copy_into n (take 5 values) (replicate n 0))
      | (M_uncal, Uncal x y z xb yb zb) \<Rightarrow> Some (AUncal x y z xb yb zb)
      | (M_scalar, Scalar v) \<Rightarrow> Some (AScalar v)
      | (M_stepCount, StepCount c) \<Rightarrow> Some (AStepCount c)
      | (M_heartRate, HeartRate bpm status) \<Rightarrow> Some (AHeartRate bpm status)
      | (M_pose6DOF, Pose6DOF values) \<Rightarrow> Some (APose6DOF values)
      | (M_dynamic, Dynamic conn h uuid) \<Rightarrow> Some (ADynamic conn h uuid)
      | (M_additional, Additional type serial values) \<Rightarrow>
          Some (AAdditional type serial (DataInt32 values))
      | (M_headTracker, Data values) \<Rightarrow> Some (AHeadTracker (values ! 0) (values ! 1) (values ! 2)
          (values ! 3) (values ! 4) (values ! 5) (values ! 6))
      | (M_data, Data values) \<Rightarrow>
          if sensorType \<ge> SENSOR_TYPE_DEVICE_PRIVATE_BASE
          then map_option AData (copy_into n values (replicate n 0)) else None
      | _ \<Rightarrow> None)"

definition convertToAidlEvent :: "nat \<Rightarrow> hidl_event \<Rightarrow> aidl_event option" where
  "convertToAidlEvent n hidlEvent =
     (case to_aidl_payload n (ev_type hidlEvent) (ev_u hidlEvent) of
        None \<Rightarrow> None
      | Some payload \<Rightarrow> Some \<lparr> ae_timestamp = ev_timestamp hidlEvent,
          ae_sensorHandle = ev_handle hidlEvent, ae_sensorType = ev_type hidlEvent,
          ae_payload = payload \<rparr>)"

text \<open>\<open>EventMessageQueueWrapperAidl\<close> converts through an array of \<open>room\<close> events; the loop does not
  look at its end.\<close>

fun convert_all :: "nat \<Rightarrow> hidl_event list \<Rightarrow> aidl_event list option" where
  "convert_all n [] = Some []"
| "convert_all n (e # es) = (case convertToAidlEvent n e of
     None \<Rightarrow> None | Some a \<Rightarrow> map_option ((#) a) (convert_all n es))"

definition wrapper_write :: "nat \<Rightarrow> nat \<Rightarrow> hidl_event list \<Rightarrow> aidl_event list option" where
  "wrapper_write room n events = (if length events \<le> room then convert_all n events else None)"

section \<open>Which events convert, and what comes back\<close>

text \<open>Payloads that hold the member of their type; arrays are 16 words.\<close>

definition fits :: "int \<Rightarrow> u32 payload \<Rightarrow> bool" where
  "fits sensorType u \<longleftrightarrow> (case (member_of sensorType, u) of
     (M_meta, Meta _) \<Rightarrow> True | (M_vec3, Vec3 _ _ _ _) \<Rightarrow> True | (M_vec4, Vec4 _ _ _ _) \<Rightarrow> True
   | (M_rotation, Data d) \<Rightarrow> length d = 16 | (M_uncal, Uncal _ _ _ _ _ _) \<Rightarrow> True
   | (M_scalar, Scalar _) \<Rightarrow> True | (M_stepCount, StepCount _) \<Rightarrow> True
   | (M_heartRate, HeartRate _ _) \<Rightarrow> True | (M_pose6DOF, Pose6DOF _) \<Rightarrow> True
   | (M_dynamic, Dynamic _ _ _) \<Rightarrow> True | (M_additional, Additional _ _ _) \<Rightarrow> True
   | (M_headTracker, Data d) \<Rightarrow> length d = 16
   | (M_data, Data d) \<Rightarrow> length d = 16 \<and> sensorType \<ge> SENSOR_TYPE_DEVICE_PRIVATE_BASE
   | _ \<Rightarrow> False)"

text \<open>How many words of \<open>data\<close> a conversion to AIDL keeps.\<close>

definition kept_words :: "int \<Rightarrow> nat" where
  "kept_words sensorType =
     (case member_of sensorType of M_rotation \<Rightarrow> 5 | M_headTracker \<Rightarrow> 7 | _ \<Rightarrow> 16)"

definition restored :: "u32 list \<Rightarrow> hidl_event \<Rightarrow> hidl_event" where
  "restored mem e = e\<lparr>ev_u := (case ev_u e of
     Data d \<Rightarrow> Data (take (kept_words (ev_type e)) d @ drop (kept_words (ev_type e)) mem)
   | u \<Rightarrow> u)\<rparr>"

lemma take_7_of_16:
  assumes "length d = 16"
  shows "[d ! 0, d ! 1, d ! 2, d ! 3, d ! 4, d ! 5, d ! 6] = take 7 d"
  using assms by (intro nth_equalityI) (auto simp: less_Suc_eq nth_Cons' numeral_eq_Suc)

lemma head_tracker_words:
  assumes "length d = 16"
  shows "d ! 0 # d ! Suc 0 # d ! 2 # d ! 3 # d ! 4 # d ! 5 # d ! 6 #
    drop (Suc (Suc (Suc (Suc (Suc (Suc (Suc 0))))))) mem = take 7 d @ drop 7 mem"
proof -
  have "Suc (Suc (Suc (Suc (Suc (Suc (Suc 0)))))) = 7" by simp
  with take_7_of_16 [OF assms] show ?thesis by (metis One_nat_def append.simps)
qed

lemma payload_round_trip:
  assumes "fits t u" "16 \<le> n" "member_of t = M_data \<longrightarrow> n = 16" "length mem = 16"
  shows "\<exists>a. to_aidl_payload n t u = Some a \<and> to_hidl_payload mem t a =
    Some (case u of Data d \<Rightarrow> Data (take (kept_words t) d @ drop (kept_words t) mem) | _ \<Rightarrow> u)"
  using assms
  by (cases "member_of t"; cases u)
    (simp_all add: fits_def to_aidl_payload_def to_hidl_payload_def copy_into_def kept_words_def
      head_tracker_words)

text \<open>C28: A HIDL event of any known type converts to AIDL and back to itself, except that a
  rotation vector keeps 5 and a head-tracker event 7 of the 16 words; device-private
  events need equal array lengths.\<close>

theorem hidl_event_round_trip:
  assumes "fits (ev_type e) (ev_u e)" "16 \<le> n" "member_of (ev_type e) = M_data \<longrightarrow> n = 16"
    and "length mem = 16"
  shows "\<exists>a. convertToAidlEvent n e = Some a \<and> convertToHidlEvent mem a = Some (restored mem e)"
  using payload_round_trip [OF assms]
  by (auto simp: convertToAidlEvent_def convertToHidlEvent_def restored_def split: payload.splits)

definition tilted_event :: hidl_event where
  "tilted_event = \<lparr> ev_timestamp = 4, ev_handle = 1, ev_type = SENSOR_TYPE_ROTATION_VECTOR,
     ev_u = Data (replicate 16 7) \<rparr>"

theorem hidl_event_round_trip_witness:
  "\<exists>a. convertToAidlEvent 64 tilted_event = Some a \<and> convertToHidlEvent (replicate 16 9) a =
     Some (tilted_event\<lparr>ev_u := Data (replicate 5 7 @ replicate 11 9)\<rparr>)"
proof -
  have t: "member_of (ev_type tilted_event) = M_rotation" "ev_u tilted_event = Data (replicate 16 7)"
    by (simp_all add: tilted_event_def member_of_def)
  have "fits (ev_type tilted_event) (ev_u tilted_event)" by (simp add: fits_def t)
  moreover have "restored (replicate 16 9) tilted_event =
      tilted_event\<lparr>ev_u := Data (replicate 5 7 @ replicate 11 9)\<rparr>"
    by (simp add: restored_def kept_words_def t)
  ultimately show ?thesis
    using hidl_event_round_trip [of tilted_event 64 "replicate 16 9"] t by simp
qed

text \<open>The 16 words of the union are a limit that only the device-private branch can exceed.\<close>

text \<open>An AIDL event of a type that the switch does not name converts exactly when the type is
  device-private and its array has at most the 16 words of the HIDL union; otherwise the
  process aborts or writes past the union.\<close>

theorem private_event_fits_iff:
  assumes "member_of (ae_sensorType a) = M_data" "ae_payload a = AData values"
  shows "convertToHidlEvent mem a \<noteq> None \<longleftrightarrow>
    SENSOR_TYPE_DEVICE_PRIVATE_BASE \<le> ae_sensorType a \<and> length values \<le> 16"
  using assms by (simp add: convertToHidlEvent_def to_hidl_payload_def copy_into_def)

theorem private_event_fits_iff_witness:
  "convertToHidlEvent (replicate 16 0) \<lparr> ae_timestamp = 1, ae_sensorHandle = 2,
     ae_sensorType = SENSOR_TYPE_DEVICE_PRIVATE_BASE, ae_payload = AData (replicate 64 0) \<rparr> = None"
  using private_event_fits_iff [of "\<lparr> ae_timestamp = 1, ae_sensorHandle = 2,
     ae_sensorType = SENSOR_TYPE_DEVICE_PRIVATE_BASE, ae_payload = AData (replicate 64 0) \<rparr>"
     "replicate 64 0" "replicate 16 0"]
  by (simp add: member_of_def)

text \<open>A type that neither switch names and that is not private ends the process, whatever the event
  holds; floats of an additional-info frame come back under the tag of integers.\<close>

lemma unknown_type_aborts:
  assumes "member_of t = M_data" "t < SENSOR_TYPE_DEVICE_PRIVATE_BASE"
  shows "to_aidl_payload n t u = None" "to_hidl_payload mem t payload = None"
  using assms by (simp_all add: to_aidl_payload_def to_hidl_payload_def
      split: payload.split aidl_payload.split)

lemma temperature_type_unknown: "member_of SENSOR_TYPE_TEMPERATURE = M_data"
  by (simp add: member_of_def)

lemma additional_floats_become_integers:
  assumes "to_hidl_payload mem SENSOR_TYPE_ADDITIONAL_INFO (AAdditional ty serial (DataFloat v)) = Some u"
  shows "to_aidl_payload n SENSOR_TYPE_ADDITIONAL_INFO u = Some (AAdditional ty serial (DataInt32 v))"
  using assms by (auto simp: to_hidl_payload_def to_aidl_payload_def member_of_def)

text \<open>The wrapper of the message queue keeps number and order of the events.\<close>

lemma convert_all_map:
  "convert_all n events = Some out \<Longrightarrow>
     length out = length events \<and> (\<forall>i<length events. convertToAidlEvent n (events ! i) = Some (out ! i))"
proof (induction events arbitrary: out)
  case (Cons e es)
  then show ?case by (auto simp: nth_Cons split: option.splits nat.split)
qed simp

end
