(* ===== verification/Hal_Proxy.thy ===== *)
theory Hal_Proxy
  imports Hal_Types
begin

text \<open>
  The multi-HAL proxy of \<open>multihal/2.X/HalProxy.cpp\<close>, as the framework sees it: sensor handles
  that carry the index of the sub-HAL in their first byte, the merged sensor list, the dispatch of
  calls to the sub-HAL that a handle names, operation modes with their roll-back, dynamic sensors
  and the direct channel.  Sub-HALs come from shared libraries, so their virtual functions are a
  record of parameters, over a type of states; what the proxy expects of them is the locale
  \<open>mode_switch\<close>.  The event queue and the wake lock are in \<open>Event_Queue\<close>.
\<close>

section \<open>Handles\<close>

abbreviation (input) "kBitsAfterSubHalIndex \<equiv> (24 :: nat)"
abbreviation (input) "kSensorHandleSubHalIndexMask \<equiv> (0xFF000000 :: handle)"

definition setSubHalIndex :: "handle \<Rightarrow> u64 \<Rightarrow> handle" where
  "setSubHalIndex sensorHandle subHalIndex =
     sensorHandle OR push_bit kBitsAfterSubHalIndex (ucast subHalIndex)"

text \<open>The shift of the signed handle copies the sign bit, and the cast to \<open>size_t\<close> extends it.\<close>

definition extractSubHalIndex :: "handle \<Rightarrow> u64" where
  "extractSubHalIndex sensorHandle = scast (signed_drop_bit kBitsAfterSubHalIndex sensorHandle)"

definition clearSubHalIndex :: "handle \<Rightarrow> handle" where
  "clearSubHalIndex sensorHandle = sensorHandle AND NOT kSensorHandleSubHalIndexMask"

definition subHalIndexIsClear :: "handle \<Rightarrow> bool" where
  "subHalIndexIsClear sensorHandle \<longleftrightarrow> sensorHandle AND kSensorHandleSubHalIndexMask = 0"

lemma bit_index_mask: "bit (kSensorHandleSubHalIndexMask) n \<longleftrightarrow> 24 \<le> n \<and> n < 32"
proof -
  have mask: "(0xFF000000 :: handle) = push_bit 24 (mask 8)"
    by (simp add: mask_eq_exp_minus_1 push_bit_eq_mult)
  show ?thesis
    unfolding mask bit_push_bit_iff bit_mask_iff by (cases "24 \<le> n") auto
qed

lemma bit_setSubHalIndex [bits_simps]:
  "bit (setSubHalIndex h i) n \<longleftrightarrow> bit h n \<or> 24 \<le> n \<and> n < 32 \<and> bit i (n - 24)"
  unfolding setSubHalIndex_def bit_or_iff bit_push_bit_iff bit_unsigned_iff by auto

lemma bit_clearSubHalIndex [bits_simps]: "bit (clearSubHalIndex h) n \<longleftrightarrow> bit h n \<and> n < 24"
  unfolding clearSubHalIndex_def bit_and_iff bit_not_iff bit_index_mask
  using bit_imp_le_length [of h n] by auto

lemma bit_extractSubHalIndex [bits_simps]:
  "bit (extractSubHalIndex h) n \<longleftrightarrow> n < 64 \<and> bit h (if n < 8 then 24 + n else 31)"
proof -
  have "bit (extractSubHalIndex h) n \<longleftrightarrow>
      n < 64 \<and> bit (signed_drop_bit 24 h) (if n < 31 then n else 31)"
    unfolding extractSubHalIndex_def bit_signed_iff by (simp add: min_def)
  also have "\<dots> \<longleftrightarrow> n < 64 \<and> bit h (if n < 8 then 24 + n else 31)"
    by (simp add: bit_signed_drop_bit_iff add.commute [of 24])
  finally show ?thesis .
qed

lemma subHalIndexIsClear_bits [bits_simps]:
  "subHalIndexIsClear h \<longleftrightarrow> (\<forall>n. 24 \<le> n \<longrightarrow> \<not> bit h n)"
  unfolding subHalIndexIsClear_def bit_eq_iff [of "h AND kSensorHandleSubHalIndexMask"]
    bit_and_iff bit_index_mask
  using bit_imp_le_length [of h] by auto

lemma index_bits_small: "i < 128 \<Longrightarrow> bit (i :: u64) n \<Longrightarrow> n < 7"
proof -
  assume i: "i < 128" "bit i n"
  then have "take_bit 7 (unat i) = unat i"
    by (subst take_bit_nat_eq_self_iff) (use i(1) in unat_arith)
  with i(2) have "bit (take_bit 7 (unat i)) n"
    using bit_imp_le_length [OF i(2)] by (simp add: bit_unsigned_iff)
  then show "n < 7" by (simp add: bit_take_bit_iff)
qed

lemma clear_set_index [bits_simps]:
  "subHalIndexIsClear h \<Longrightarrow> clearSubHalIndex (setSubHalIndex h i) = h"
  by (rule bit_word_eqI) (auto simp: bits_simps intro: leI)

lemma extract_set_index [bits_simps]:
  assumes "subHalIndexIsClear h" "i < 128"
  shows "extractSubHalIndex (setSubHalIndex h i) = i"
  using assms(1) index_bits_small [OF assms(2)]
  by (intro bit_word_eqI) (force simp: bits_simps min_def not_less)

lemma setSubHalIndex_inject:
  assumes "subHalIndexIsClear h" "i < 128" "subHalIndexIsClear h'" "i' < 128"
    and "setSubHalIndex h i = setSubHalIndex h' i'"
  shows "h = h' \<and> i = i'"
  using assms clear_set_index [of h i] clear_set_index [of h' i'] extract_set_index [of h i]
    extract_set_index [of h' i'] by simp

section \<open>Sub-HALs\<close>

text \<open>The virtual functions of \<open>ISubHalWrapperBase\<close> that the proxy calls, over the states of the
  sub-HALs.  \<open>flush\<close> also yields the events that the sub-HAL posts during the call, each post with
  the flag given to \<open>createScopedWakelock\<close>.\<close>

type_synonym post = "rat event list \<times> bool"

record 's subhal_ops =
  sh_getSensorsList :: "'s \<Rightarrow> sensor_info list"
  sh_setOperationMode :: "operation_mode \<Rightarrow> 's \<Rightarrow> result \<times> 's"
  sh_activate :: "handle \<Rightarrow> bool \<Rightarrow> 's \<Rightarrow> result \<times> 's"
  sh_batch :: "handle \<Rightarrow> int \<Rightarrow> int \<Rightarrow> 's \<Rightarrow> result \<times> 's"
  sh_flush :: "handle \<Rightarrow> 's \<Rightarrow> (result \<times> post list) \<times> 's"
  sh_injectSensorData :: "rat event \<Rightarrow> 's \<Rightarrow> result \<times> 's"
  sh_registerDirectChannel :: "shared_mem_info \<Rightarrow> 's \<Rightarrow> (result \<times> int) \<times> 's"
  sh_unregisterDirectChannel :: "int \<Rightarrow> 's \<Rightarrow> result \<times> 's"
  sh_configDirectReport :: "handle \<Rightarrow> int \<Rightarrow> rate_level \<Rightarrow> 's \<Rightarrow> (result \<times> int) \<times> 's"

record 's hal_proxy =
  mSubHalList :: "'s list"
  mSensors :: "sensor_info handle_map"
  mDynamicSensors :: "sensor_info handle_map"
  mCurrentOperationMode :: operation_mode
  mDirectChannelSubHal :: "nat option"

definition isSubHalIndexValid :: "handle \<Rightarrow> 's hal_proxy \<Rightarrow> bool" where
  "isSubHalIndexValid sensorHandle p \<longleftrightarrow>
     unat (extractSubHalIndex sensorHandle) < length (mSubHalList p)"

definition getSubHalForSensorHandle :: "handle \<Rightarrow> 's hal_proxy \<Rightarrow> 's" where
  "getSubHalForSensorHandle sensorHandle p =
     mSubHalList p ! unat (extractSubHalIndex sensorHandle)"

text \<open>A call of the sub-HAL that a handle names: its answer, and its new state in the list.\<close>

definition call_subhal :: "nat \<Rightarrow> ('s \<Rightarrow> 'r \<times> 's) \<Rightarrow> 's hal_proxy \<Rightarrow> 'r \<times> 's hal_proxy" where
  "call_subhal i f p = (case f (mSubHalList p ! i) of (r, s) \<Rightarrow>
     (r, p\<lparr>mSubHalList := (mSubHalList p)[i := s]\<rparr>))"

definition proxy_activate ::
    "'s subhal_ops \<Rightarrow> handle \<Rightarrow> bool \<Rightarrow> 's hal_proxy \<Rightarrow> result \<times> 's hal_proxy" where
  "proxy_activate ops sensorHandle enabled p =
     (if \<not> isSubHalIndexValid sensorHandle p then (BAD_VALUE, p)
      else call_subhal (unat (extractSubHalIndex sensorHandle))
        (sh_activate ops (clearSubHalIndex sensorHandle) enabled) p)"

definition proxy_batch ::
    "'s subhal_ops \<Rightarrow> handle \<Rightarrow> int \<Rightarrow> int \<Rightarrow> 's hal_proxy \<Rightarrow> result \<times> 's hal_proxy" where
  "proxy_batch ops sensorHandle samplingPeriodNs maxReportLatencyNs p =
     (if \<not> isSubHalIndexValid sensorHandle p then (BAD_VALUE, p)
      else call_subhal (unat (extractSubHalIndex sensorHandle))
        (sh_batch ops (clearSubHalIndex sensorHandle) samplingPeriodNs maxReportLatencyNs) p)"

definition proxy_flush ::
    "'s subhal_ops \<Rightarrow> handle \<Rightarrow> 's hal_proxy \<Rightarrow> (result \<times> post list) \<times> 's hal_proxy" where
  "proxy_flush ops sensorHandle p =
     (if \<not> isSubHalIndexValid sensorHandle p then ((BAD_VALUE, []), p)
      else call_subhal (unat (extractSubHalIndex sensorHandle))
        (sh_flush ops (clearSubHalIndex sensorHandle)) p)"

text \<open>The conversions between the event types of the two interface versions are the platform's;
  they are arguments.\<close>

definition proxy_injectSensorData ::
    "'s subhal_ops \<Rightarrow> (rat event \<Rightarrow> rat event) \<Rightarrow> rat event \<Rightarrow> 's hal_proxy \<Rightarrow>
      result \<times> 's hal_proxy" where
  "proxy_injectSensorData ops convertToNewEvent event p =
     (if mCurrentOperationMode p = NORMAL \<and> ev_type event \<noteq> SENSOR_TYPE_ADDITIONAL_INFO
      then (BAD_VALUE, p)
      else if \<not> isSubHalIndexValid (ev_handle event) p then (BAD_VALUE, p)
      else call_subhal (unat (extractSubHalIndex (ev_handle event)))
        (sh_injectSensorData ops
          (convertToNewEvent (event\<lparr>ev_handle := clearSubHalIndex (ev_handle event)\<rparr>))) p)"

definition proxy_injectSensorData_2_1 ::
    "'s subhal_ops \<Rightarrow> (rat event \<Rightarrow> rat event) \<Rightarrow> (rat event \<Rightarrow> rat event) \<Rightarrow> rat event \<Rightarrow>
      's hal_proxy \<Rightarrow> result \<times> 's hal_proxy" where
  "proxy_injectSensorData_2_1 ops convertToNewEvent convertToOldEvent event p =
     proxy_injectSensorData ops convertToNewEvent (convertToOldEvent event) p"

section \<open>The sensor list\<close>

text \<open>Only the first sub-HAL with a direct-channel sensor keeps that capability.\<close>

abbreviation (input) "direct_flags \<equiv>
  SENSOR_FLAG_MASK_DIRECT_REPORT OR SENSOR_FLAG_MASK_DIRECT_CHANNEL"

definition setDirectChannelFlags ::
    "sensor_info \<Rightarrow> nat \<Rightarrow> nat option \<Rightarrow> sensor_info \<times> nat option" where
  "setDirectChannelFlags sensorInfo subHal direct =
     (let sensorSupportsDirectChannel = (si_flags sensorInfo AND direct_flags \<noteq> 0) in
      if direct = None \<and> sensorSupportsDirectChannel then (sensorInfo, Some subHal)
      else if direct \<noteq> None \<and> Some subHal \<noteq> direct
      then (sensorInfo\<lparr>si_flags := si_flags sensorInfo AND NOT direct_flags\<rparr>, direct)
      else (sensorInfo, direct))"

fun add_sensors ::
    "nat \<Rightarrow> sensor_info list \<Rightarrow> sensor_info handle_map \<times> nat option \<Rightarrow>
      sensor_info handle_map \<times> nat option" where
  "add_sensors subHalIndex [] acc = acc"
| "add_sensors subHalIndex (sensor # list) (sensors, direct) =
     (if \<not> subHalIndexIsClear (si_handle sensor) then add_sensors subHalIndex list (sensors, direct)
      else case setDirectChannelFlags
          (sensor\<lparr>si_handle := setSubHalIndex (si_handle sensor) (of_nat subHalIndex)\<rparr>)
          subHalIndex direct of (sensor', direct') \<Rightarrow>
        add_sensors subHalIndex list (map_put (si_handle sensor') sensor' sensors, direct'))"

fun add_subhals ::
    "'s subhal_ops \<Rightarrow> nat \<Rightarrow> 's list \<Rightarrow> sensor_info handle_map \<times> nat option \<Rightarrow>
      sensor_info handle_map \<times> nat option" where
  "add_subhals ops i [] acc = acc"
| "add_subhals ops i (s # ss) acc =
     add_subhals ops (Suc i) ss (add_sensors i (sh_getSensorsList ops s) acc)"

definition initializeSensorList :: "'s subhal_ops \<Rightarrow> 's hal_proxy \<Rightarrow> 's hal_proxy" where
  "initializeSensorList ops p =
     (case add_subhals ops 0 (mSubHalList p) (mSensors p, mDirectChannelSubHal p) of
        (sensors, direct) \<Rightarrow> p\<lparr>mSensors := sensors, mDirectChannelSubHal := direct\<rparr>)"

text \<open>The constructors: the 2.0 sub-HALs come first, then the 2.1 ones.\<close>

definition new_HalProxy :: "'s subhal_ops \<Rightarrow> 's list \<Rightarrow> 's list \<Rightarrow> 's hal_proxy" where
  "new_HalProxy ops subHalList subHalListV2_1 =
     initializeSensorList ops \<lparr> mSubHalList = subHalList @ subHalListV2_1, mSensors = [],
       mDynamicSensors = [], mCurrentOperationMode = NORMAL, mDirectChannelSubHal = None \<rparr>"

definition getSensorsList_2_1 :: "'s hal_proxy \<Rightarrow> sensor_info list" where
  "getSensorsList_2_1 p = map snd (mSensors p)"

definition getSensorsList :: "(sensor_info \<Rightarrow> 'i) \<Rightarrow> 's hal_proxy \<Rightarrow> 'i list" where
  "getSensorsList convertToOldSensorInfo p =
     map convertToOldSensorInfo
       (filter (\<lambda>i. si_type i \<noteq> SENSOR_TYPE_HINGE_ANGLE) (map snd (mSensors p)))"

text \<open>\<open>mSensors[sensorHandle]\<close> inserts a value-initialised entry when there is none.\<close>

definition getSensorInfo :: "handle \<Rightarrow> 's hal_proxy \<Rightarrow> sensor_info \<times> 's hal_proxy" where
  "getSensorInfo sensorHandle p =
     (case map_of (mSensors p) sensorHandle of
        Some i \<Rightarrow> (i, p)
      | None \<Rightarrow> (default_info, p\<lparr>mSensors := map_put sensorHandle default_info (mSensors p)\<rparr>))"

section \<open>What the sensor list holds\<close>

lemma call_subhal_size [simp]:
  "length (mSubHalList (snd (call_subhal i f p))) = length (mSubHalList p)"
  by (simp add: call_subhal_def split: prod.split)

lemma direct_flags_cleared [bits_simps]: "(f AND NOT m) AND m = (0 :: u32)"
  by (rule bit_word_eqI) (simp add: bit_and_iff bit_not_iff)

text \<open>An entry of the merged list: the sensor of one sub-HAL under its new handle, with
  direct-channel flags only when that sub-HAL has been chosen.\<close>

definition reports :: "'s subhal_ops \<Rightarrow> 's list \<Rightarrow> nat \<Rightarrow> sensor_info \<Rightarrow> bool" where
  "reports ops ss i s0 \<longleftrightarrow> i < length ss \<and> s0 \<in> set (sh_getSensorsList ops (ss ! i)) \<and>
     subHalIndexIsClear (si_handle s0)"

definition entry_of ::
    "'s subhal_ops \<Rightarrow> 's list \<Rightarrow> nat option \<Rightarrow> handle \<Rightarrow> sensor_info \<Rightarrow> bool" where
  "entry_of ops ss direct h info \<longleftrightarrow> (\<exists>i s0. reports ops ss i s0 \<and>
     h = setSubHalIndex (si_handle s0) (of_nat i) \<and>
     (\<exists>fl. info = s0\<lparr>si_handle := h, si_flags := fl\<rparr> \<and>
       (fl = si_flags s0 \<or> fl = si_flags s0 AND NOT direct_flags) \<and>
       (fl AND direct_flags \<noteq> 0 \<longrightarrow> direct = Some i)))"

lemma entry_of_same_handle: "entry_of ops ss direct h info \<Longrightarrow> si_handle info = h"
  by (auto simp: entry_of_def)

lemma setDirectChannelFlags_entry:
  assumes "setDirectChannelFlags (s0\<lparr>si_handle := h\<rparr>) i direct = (info, direct')"
    and "reports ops ss i s0" and "h = setSubHalIndex (si_handle s0) (of_nat i)"
  shows "entry_of ops ss direct' h info"
  unfolding entry_of_def
proof (intro exI conjI)
  show "reports ops ss i s0" "h = setSubHalIndex (si_handle s0) (of_nat i)"
    by (fact assms)+
  show "info = s0\<lparr>si_handle := h, si_flags := si_flags info\<rparr>"
    "si_flags info = si_flags s0 \<or> si_flags info = si_flags s0 AND NOT direct_flags"
    "si_flags info AND direct_flags \<noteq> 0 \<longrightarrow> direct' = Some i"
    using assms(1) direct_flags_cleared [of "si_flags s0" direct_flags]
    by (auto simp: setDirectChannelFlags_def Let_def split: if_splits)
qed

lemma setDirectChannelFlags_direct:
  "setDirectChannelFlags s i direct = (info, direct') \<Longrightarrow>
     si_handle info = si_handle s \<and> (direct \<noteq> None \<longrightarrow> direct' = direct) \<and>
     (direct = None \<longrightarrow>
       direct' = (if si_flags s AND direct_flags \<noteq> 0 then Some i else None))"
  by (auto simp: setDirectChannelFlags_def Let_def split: if_splits)

lemma entry_of_direct_grows:
  "entry_of ops ss direct h info \<Longrightarrow> (direct \<noteq> None \<Longrightarrow> direct' = direct) \<Longrightarrow>
     entry_of ops ss direct' h info"
  unfolding entry_of_def by (metis option.distinct(1))

text \<open>The first sub-HAL with a direct-channel sensor is chosen.\<close>

definition wants_direct :: "sensor_info list \<Rightarrow> bool" where
  "wants_direct l \<longleftrightarrow>
     (\<exists>s\<in>set l. subHalIndexIsClear (si_handle s) \<and> si_flags s AND direct_flags \<noteq> 0)"

lemma wants_direct_simps [simp]:
  "\<not> wants_direct []"
  "wants_direct (s # l) \<longleftrightarrow>
     subHalIndexIsClear (si_handle s) \<and> si_flags s AND direct_flags \<noteq> 0 \<or> wants_direct l"
  by (auto simp: wants_direct_def)

lemma add_sensors_spec:
  assumes "add_sensors i l (sensors, direct) = (sensors', direct')"
    and "\<forall>e\<in>set sensors. entry_of ops ss direct (fst e) (snd e)"
    and "i < length ss" and "set l \<subseteq> set (sh_getSensorsList ops (ss ! i))"
    and "map_keys_sorted sensors"
  shows "(\<forall>e\<in>set sensors'. entry_of ops ss direct' (fst e) (snd e)) \<and> map_keys_sorted sensors' \<and>
    fst ` set sensors' = fst ` set sensors \<union>
      {setSubHalIndex (si_handle s) (of_nat i) | s. s \<in> set l \<and> subHalIndexIsClear (si_handle s)} \<and>
    direct' = (if direct \<noteq> None then direct else if wants_direct l then Some i else None)"
  using assms
proof (induction l arbitrary: sensors direct)
  case Nil
  then show ?case by simp
next
  case (Cons s l)
  show ?case
  proof (cases "subHalIndexIsClear (si_handle s)")
    case False
    then have "add_sensors i l (sensors, direct) = (sensors', direct')"
      and "set l \<subseteq> set (sh_getSensorsList ops (ss ! i))"
      using Cons.prems by auto
    note IH = Cons.IH [OF this(1) Cons.prems(2,3) this(2) Cons.prems(5)]
    have K: "{setSubHalIndex (si_handle x) (of_nat i) | x. x \<in> set (s # l) \<and> subHalIndexIsClear (si_handle x)} =
        {setSubHalIndex (si_handle x) (of_nat i) | x. x \<in> set l \<and> subHalIndexIsClear (si_handle x)}"
      using False by auto
    have W: "wants_direct (s # l) \<longleftrightarrow> wants_direct l" using False by simp
    show ?thesis unfolding K W by (rule IH)
  next
    case True
    define h where "h = setSubHalIndex (si_handle s) (of_nat i)"
    obtain info d where d: "setDirectChannelFlags (s\<lparr>si_handle := h\<rparr>) i direct = (info, d)"
      by fastforce
    from setDirectChannelFlags_direct [OF d] have hd: "si_handle info = h"
      and d': "d = (if direct \<noteq> None then direct
                else if si_flags s AND direct_flags \<noteq> 0 then Some i else None)"
      by auto
    have rep: "reports ops ss i s" using Cons.prems True by (auto simp: reports_def)
    have rest: "add_sensors i l (map_put h info sensors, d) = (sensors', direct')"
      using Cons.prems(1) True d hd by (simp add: h_def)
    have entries: "\<forall>e\<in>set (map_put h info sensors). entry_of ops ss d (fst e) (snd e)"
    proof
      fix e assume "e \<in> set (map_put h info sensors)"
      then consider "e = (h, info)" | "e \<in> set sensors" using set_map_put by fast
      then show "entry_of ops ss d (fst e) (snd e)"
      proof cases
        case 1
        then show ?thesis using setDirectChannelFlags_entry [OF d rep h_def] by simp
      next
        case 2
        then show ?thesis using Cons.prems(2) entry_of_direct_grows [of ops ss direct _ _ d] d' by auto
      qed
    qed
    have "set l \<subseteq> set (sh_getSensorsList ops (ss ! i))" using Cons.prems(4) by simp
    note IH = Cons.IH [OF rest entries Cons.prems(3) this map_keys_sorted_put [OF Cons.prems(5)]]
    have K: "{setSubHalIndex (si_handle x) (of_nat i) | x. x \<in> set (s # l) \<and> subHalIndexIsClear (si_handle x)} =
        insert h {setSubHalIndex (si_handle x) (of_nat i) | x. x \<in> set l \<and> subHalIndexIsClear (si_handle x)}"
      using True by (auto simp: h_def)
    have W: "(if d \<noteq> None then d else if wants_direct l then Some i else None) =
        (if direct \<noteq> None then direct else if wants_direct (s # l) then Some i else None)"
      using d' True by auto
    show ?thesis
      using IH unfolding K W keys_map_put by blast
  qed
qed

definition first_direct :: "'s subhal_ops \<Rightarrow> 's list \<Rightarrow> nat \<Rightarrow> nat option \<Rightarrow> bool" where
  "first_direct ops ss i direct \<longleftrightarrow> (case direct of
     None \<Rightarrow> \<forall>j. i \<le> j \<longrightarrow> j < length ss \<longrightarrow> \<not> wants_direct (sh_getSensorsList ops (ss ! j))
   | Some k \<Rightarrow> i \<le> k \<and> k < length ss \<and> wants_direct (sh_getSensorsList ops (ss ! k)) \<and>
       (\<forall>j. i \<le> j \<longrightarrow> j < k \<longrightarrow> \<not> wants_direct (sh_getSensorsList ops (ss ! j))))"

lemma first_direct_step:
  assumes "first_direct ops ss (Suc i) direct" "\<not> wants_direct (sh_getSensorsList ops (ss ! i))"
  shows "first_direct ops ss i direct"
proof -
  have from_i: "\<not> wants_direct (sh_getSensorsList ops (ss ! j))"
    if "i \<le> j" "\<forall>j. Suc i \<le> j \<longrightarrow> j < n \<longrightarrow> \<not> wants_direct (sh_getSensorsList ops (ss ! j))"
      "j < n" for j n
    using that assms(2) by (cases "j = i") auto
  show ?thesis
  proof (cases direct)
    case None
    with assms(1) from_i [of _ "length ss"] show ?thesis by (simp add: first_direct_def)
  next
    case (Some k)
    with assms(1) from_i [of _ k] show ?thesis by (simp add: first_direct_def)
  qed
qed

definition handles_from :: "'s subhal_ops \<Rightarrow> 's list \<Rightarrow> nat \<Rightarrow> handle set" where
  "handles_from ops ss i =
     {setSubHalIndex (si_handle s) (of_nat j) | j s. i \<le> j \<and> reports ops ss j s}"

lemma handles_from_step:
  assumes "i < length ss"
  shows "handles_from ops ss i =
    {setSubHalIndex (si_handle s) (of_nat i) | s. s \<in> set (sh_getSensorsList ops (ss ! i)) \<and>
       subHalIndexIsClear (si_handle s)} \<union> handles_from ops ss (Suc i)"
proof -
  have now: "reports ops ss i s \<longleftrightarrow>
      s \<in> set (sh_getSensorsList ops (ss ! i)) \<and> subHalIndexIsClear (si_handle s)" for s
    using assms by (simp add: reports_def)
  have from_Suc: "i \<le> j \<and> reports ops ss j s \<longleftrightarrow>
      j = i \<and> reports ops ss i s \<or> Suc i \<le> j \<and> reports ops ss j s" for j s
    by (cases "j = i") auto
  show ?thesis
    unfolding handles_from_def from_Suc now by blast
qed

lemma handles_from_end: "length ss \<le> i \<Longrightarrow> handles_from ops ss i = {}"
  by (auto simp: handles_from_def reports_def)

lemma add_subhals_spec:
  assumes "add_subhals ops i rest (sensors, direct) = (sensors', direct')"
    and "rest = drop i ss" "i \<le> length ss"
    and "\<forall>e\<in>set sensors. entry_of ops ss direct (fst e) (snd e)"
    and "map_keys_sorted sensors"
  shows "(\<forall>e\<in>set sensors'. entry_of ops ss direct' (fst e) (snd e)) \<and> map_keys_sorted sensors' \<and>
    fst ` set sensors' = fst ` set sensors \<union> handles_from ops ss i \<and>
    (if direct = None then first_direct ops ss i direct' else direct' = direct)"
  using assms
proof (induction rest arbitrary: i sensors direct)
  case Nil
  then have "i = length ss" by simp
  with Nil show ?case by (auto simp: handles_from_end first_direct_def)
next
  case (Cons s rest)
  from Cons.prems(2) have i: "i < length ss" by (metis drop_eq_Nil2 leI list.distinct(1))
  then have s: "s = ss ! i" and rest: "rest = drop (Suc i) ss"
    using Cons.prems(2) by (simp_all add: Cons_nth_drop_Suc [symmetric])
  obtain sensors1 d1 where one: "add_sensors i (sh_getSensorsList ops s) (sensors, direct) = (sensors1, d1)"
    by fastforce
  note S1 = add_sensors_spec [OF one Cons.prems(4) i _ Cons.prems(5), folded s, simplified]
  have "add_subhals ops (Suc i) rest (sensors1, d1) = (sensors', direct')"
    using Cons.prems(1) one by simp
  note S2 = Cons.IH [OF this rest]
  have S2: "(\<forall>e\<in>set sensors'. entry_of ops ss direct' (fst e) (snd e)) \<and> map_keys_sorted sensors' \<and>
      fst ` set sensors' = fst ` set sensors1 \<union> handles_from ops ss (Suc i) \<and>
      (if d1 = None then first_direct ops ss (Suc i) direct' else direct' = d1)"
    using S1 i by (intro S2) auto
  have "if direct = None then first_direct ops ss i direct' else direct' = direct"
  proof (cases "direct = None \<and> \<not> wants_direct (sh_getSensorsList ops s)")
    case True
    then show ?thesis using S1 S2 first_direct_step [of ops ss i] s by simp
  next
    case False
    then show ?thesis
      using S1 S2 i s by (cases direct) (auto simp: first_direct_def)
  qed
  moreover have "fst ` set sensors' = fst ` set sensors \<union> handles_from ops ss i"
    using S1 S2 unfolding handles_from_step [OF i] s by (simp add: Un_assoc)
  ultimately show ?case using S2 by simp
qed

lemma new_HalProxy_list:
  fixes ops :: "'s subhal_ops"
  defines "p \<equiv> \<lambda>l1 l2. new_HalProxy ops l1 l2"
  shows "(\<forall>e\<in>set (mSensors (p l1 l2)).
      entry_of ops (l1 @ l2) (mDirectChannelSubHal (p l1 l2)) (fst e) (snd e)) \<and>
    map_keys_sorted (mSensors (p l1 l2)) \<and>
    fst ` set (mSensors (p l1 l2)) = handles_from ops (l1 @ l2) 0 \<and>
    first_direct ops (l1 @ l2) 0 (mDirectChannelSubHal (p l1 l2)) \<and>
    mSubHalList (p l1 l2) = l1 @ l2"
proof -
  obtain sensors direct where *: "add_subhals ops 0 (l1 @ l2) ([], None) = (sensors, direct)"
    by fastforce
  have "p l1 l2 = \<lparr> mSubHalList = l1 @ l2, mSensors = sensors, mDynamicSensors = [],
      mCurrentOperationMode = NORMAL, mDirectChannelSubHal = direct \<rparr>"
    by (simp add: p_def new_HalProxy_def initializeSensorList_def *)
  with add_subhals_spec [OF *, of "l1 @ l2"] show ?thesis by simp
qed

text \<open>What a call with a handle of the list reaches.\<close>

lemma unat_of_index: "i < 128 \<Longrightarrow> unat (of_nat i :: u64) = i"
  by (simp add: unat_of_nat take_bit_eq_mod)

lemma handle_names_subhal:
  assumes "subHalIndexIsClear h0" "i < 128" "i < length (mSubHalList q)"
    and h: "h = setSubHalIndex h0 (of_nat i)"
  shows "isSubHalIndexValid h q" "unat (extractSubHalIndex h) = i" "clearSubHalIndex h = h0"
proof -
  have "(of_nat i :: u64) < 128" using assms(2)
    by (simp add: word_less_nat_alt unat_of_index)
  then show *: "unat (extractSubHalIndex h) = i" "clearSubHalIndex h = h0"
    using assms(1,2) h by (simp_all add: extract_set_index clear_set_index unat_of_index)
  show "isSubHalIndexValid h q" using assms(3) * by (simp add: isSubHalIndexValid_def)
qed

definition reaches :: "'s subhal_ops \<Rightarrow> handle \<Rightarrow> nat \<Rightarrow> handle \<Rightarrow> 's hal_proxy \<Rightarrow> bool" where
  "reaches ops h i h0 q \<longleftrightarrow>
     (\<forall>en. proxy_activate ops h en q = call_subhal i (sh_activate ops h0 en) q) \<and>
     (\<forall>t l. proxy_batch ops h t l q = call_subhal i (sh_batch ops h0 t l) q) \<and>
     proxy_flush ops h q = call_subhal i (sh_flush ops h0) q"

lemma reaches_named:
  assumes "subHalIndexIsClear h0" "i < 128" "i < length (mSubHalList q)"
  shows "reaches ops (setSubHalIndex h0 (of_nat i)) i h0 q"
  using handle_names_subhal [OF assms refl]
  by (simp add: reaches_def proxy_activate_def proxy_batch_def proxy_flush_def)

lemma listed_entries:
  assumes "length l1 + length l2 \<le> 128" "length (mSubHalList q) = length l1 + length l2"
    and "(h, info) \<in> set (mSensors (new_HalProxy ops l1 l2))"
  shows "\<exists>i s0. reports ops (l1 @ l2) i s0 \<and> h = setSubHalIndex (si_handle s0) (of_nat i) \<and>
    si_handle info = h \<and> si_name info = si_name s0 \<and> reaches ops h i (si_handle s0) q"
proof -
  have "entry_of ops (l1 @ l2) (mDirectChannelSubHal (new_HalProxy ops l1 l2)) h info"
    using new_HalProxy_list [of ops l1 l2] assms(3) by (force simp: Ball_def)
  then obtain i s0 fl where *: "reports ops (l1 @ l2) i s0"
      "h = setSubHalIndex (si_handle s0) (of_nat i)"
      "info = s0\<lparr>si_handle := h, si_flags := fl\<rparr>"
    unfolding entry_of_def by blast
  then have "reaches ops h i (si_handle s0) q"
    using assms(1,2) unfolding *(2) by (intro reaches_named) (auto simp: reports_def)
  with * show ?thesis by (intro exI [of _ i] exI [of _ s0]) simp
qed

text \<open>C13: Every entry of the merged sensor list carries a handle through which activate,
  batch and flush reach exactly the sub-HAL and the sensor that it was made from, and
  every sensor with a clear first byte that a sub-HAL reports is in the list.\<close>

theorem sensor_list_dispatches:
  assumes "length l1 + length l2 \<le> 128" and "length (mSubHalList q) = length l1 + length l2"
  shows "(\<forall>(h, info) \<in> set (mSensors (new_HalProxy ops l1 l2)).
      \<exists>i s0. reports ops (l1 @ l2) i s0 \<and> h = setSubHalIndex (si_handle s0) (of_nat i) \<and>
        si_handle info = h \<and> si_name info = si_name s0 \<and> reaches ops h i (si_handle s0) q) \<and>
    (\<forall>i s0. reports ops (l1 @ l2) i s0 \<longrightarrow>
      setSubHalIndex (si_handle s0) (of_nat i) \<in> fst ` set (mSensors (new_HalProxy ops l1 l2)))"
proof (intro conjI)
  show "\<forall>i s0. reports ops (l1 @ l2) i s0 \<longrightarrow>
      setSubHalIndex (si_handle s0) (of_nat i) \<in> fst ` set (mSensors (new_HalProxy ops l1 l2))"
    using new_HalProxy_list [of ops l1 l2] by (auto simp: handles_from_def)
qed (use listed_entries [OF assms] in blast)

text \<open>A listed sensor that offers direct reports belongs to the first sub-HAL that has such a
  sensor, and the proxy forwards direct-channel calls to that one.\<close>

theorem direct_channel_first_subhal:
  assumes "(h, info) \<in> set (mSensors (new_HalProxy ops l1 l2))"
    and "si_flags info AND direct_flags \<noteq> 0" and "length l1 + length l2 \<le> 128"
  shows "\<exists>i. mDirectChannelSubHal (new_HalProxy ops l1 l2) = Some i \<and>
    unat (extractSubHalIndex h) = i \<and> wants_direct (sh_getSensorsList ops ((l1 @ l2) ! i)) \<and>
    (\<forall>j<i. \<not> wants_direct (sh_getSensorsList ops ((l1 @ l2) ! j)))"
proof -
  note list = new_HalProxy_list [of ops l1 l2]
  then have "entry_of ops (l1 @ l2) (mDirectChannelSubHal (new_HalProxy ops l1 l2)) h info"
    using assms(1) by (force simp: Ball_def)
  then obtain i s0 where *: "reports ops (l1 @ l2) i s0"
      "h = setSubHalIndex (si_handle s0) (of_nat i)"
      "mDirectChannelSubHal (new_HalProxy ops l1 l2) = Some i"
    using assms(2) unfolding entry_of_def by force
  have "unat (extractSubHalIndex h) = i"
    using handle_names_subhal(2) [OF _ _ _ *(2), of "new_HalProxy ops l1 l2"] * list assms(3)
    by (simp add: reports_def)
  with * list show ?thesis by (simp add: first_direct_def)
qed

section \<open>Operation modes\<close>

text \<open>The loop of \<open>setOperationMode\<close>: it stops at the first sub-HAL that refuses.  The answer is
  that refusal or \<open>OK\<close>, the states and the number of sub-HALs flipped before.\<close>

fun flip_modes ::
    "(operation_mode \<Rightarrow> 's \<Rightarrow> result \<times> 's) \<Rightarrow> operation_mode \<Rightarrow> 's list \<Rightarrow>
      result \<times> 's list \<times> nat" where
  "flip_modes set_mode mode [] = (OK, [], 0)"
| "flip_modes set_mode mode (s # ss) = (case set_mode mode s of (r, s') \<Rightarrow>
     if r \<noteq> OK then (r, s' # ss, 0)
     else case flip_modes set_mode mode ss of (r', ss', n) \<Rightarrow> (r', s' # ss', Suc n))"

definition setOperationMode ::
    "'s subhal_ops \<Rightarrow> operation_mode \<Rightarrow> 's hal_proxy \<Rightarrow> result \<times> 's hal_proxy" where
  "setOperationMode ops mode p =
     (case flip_modes (sh_setOperationMode ops) mode (mSubHalList p) of (result, ss, subHalIndex) \<Rightarrow>
        if result \<noteq> OK
        then (result, p\<lparr>mSubHalList :=
          map (\<lambda>s. snd (sh_setOperationMode ops (mCurrentOperationMode p) s)) (take subHalIndex ss) @
          drop subHalIndex ss\<rparr>)
        else (result, p\<lparr>mSubHalList := ss, mCurrentOperationMode := mode\<rparr>))"

text \<open>What the proxy relies on: a sub-HAL that accepts a mode is in it, one that refuses keeps the
  mode it had, and one that has left a mode can go back to it.\<close>

locale mode_switch =
  fixes set_mode :: "operation_mode \<Rightarrow> 's \<Rightarrow> result \<times> 's"
    and mode_of :: "'s \<Rightarrow> operation_mode"
  assumes accepted: "set_mode m s = (OK, s') \<Longrightarrow> mode_of s' = m"
    and refused: "set_mode m s = (r, s') \<Longrightarrow> r \<noteq> OK \<Longrightarrow> mode_of s' = mode_of s"
    and way_back: "set_mode m s = (OK, s') \<Longrightarrow> fst (set_mode (mode_of s) s') = OK"
begin

lemma flip_back:
  assumes "set_mode m s = (OK, s')"
  shows "mode_of (snd (set_mode (mode_of s) s')) = mode_of s"
proof -
  obtain r s'' where *: "set_mode (mode_of s) s' = (r, s'')" by fastforce
  with way_back [OF assms] have "r = OK" by simp
  with * accepted show ?thesis by simp
qed

lemma flip_modes_all:
  "flip_modes set_mode m ss = (r, ss', n) \<Longrightarrow> r = OK \<Longrightarrow>
     length ss' = length ss \<and> n = length ss \<and> (\<forall>s\<in>set ss'. mode_of s = m)"
proof (induction ss arbitrary: ss' n)
  case (Cons s ss)
  obtain r1 s1 where 1: "set_mode m s = (r1, s1)" by fastforce
  obtain r2 ss2 n2 where 2: "flip_modes set_mode m ss = (r2, ss2, n2)" by (metis prod_cases3)
  from Cons.prems 1 2 have "r1 = OK" "r2 = OK" "ss' = s1 # ss2" "n = Suc n2" "r = r2"
    by (auto split: if_splits)
  with Cons.IH [of ss2 n2] accepted [of m s s1] 1 2 show ?case by simp
qed simp

lemma flip_modes_back:
  "flip_modes set_mode m ss = (r, ss', n) \<Longrightarrow> r \<noteq> OK \<Longrightarrow> \<forall>s\<in>set ss. mode_of s = c \<Longrightarrow>
     length ss' = length ss \<and>
     (\<forall>s\<in>set (map (\<lambda>s. snd (set_mode c s)) (take n ss') @ drop n ss'). mode_of s = c)"
proof (induction ss arbitrary: ss' n)
  case (Cons s ss)
  obtain r1 s1 where 1: "set_mode m s = (r1, s1)" by fastforce
  show ?case
  proof (cases "r1 = OK")
    case False
    with Cons.prems 1 have "ss' = s1 # ss" "n = 0" by auto
    with Cons.prems refused [OF 1 False] show ?thesis by simp
  next
    case True
    obtain r2 ss2 n2 where 2: "flip_modes set_mode m ss = (r2, ss2, n2)" by (metis prod_cases3)
    with Cons.prems(1) 1 True have *: "ss' = s1 # ss2" "n = Suc n2" "r = r2" by auto
    from Cons.IH [of ss2 n2] Cons.prems 2 *
    have IH: "length ss2 = length ss"
      "\<forall>s\<in>set (map (\<lambda>s. snd (set_mode c s)) (take n2 ss2) @ drop n2 ss2). mode_of s = c"
      by auto
    from flip_back [OF 1 [unfolded True]] Cons.prems(3)
    have "mode_of (snd (set_mode c s1)) = c" by simp
    with IH * show ?thesis by simp
  qed
qed simp

lemma setOperationMode_uniform:
  assumes "sh_setOperationMode ops = set_mode"
    and "\<forall>s\<in>set (mSubHalList p). mode_of s = mCurrentOperationMode p"
    and "setOperationMode ops m p = (r, p')"
  shows "(\<forall>s\<in>set (mSubHalList p'). mode_of s = mCurrentOperationMode p') \<and>
    mCurrentOperationMode p' = (if r = OK then m else mCurrentOperationMode p) \<and>
    length (mSubHalList p') = length (mSubHalList p)"
proof -
  obtain r1 ss n where 1: "flip_modes set_mode m (mSubHalList p) = (r1, ss, n)" by (metis prod_cases3)
  show ?thesis
  proof (cases "r1 = OK")
    case True
    with assms 1 flip_modes_all [OF 1 True] show ?thesis
      by (auto simp: setOperationMode_def)
  next
    case False
    from flip_modes_back [OF 1 False assms(2)]
    have "length ss = length (mSubHalList p)"
      "\<forall>s\<in>set (map (\<lambda>s. snd (set_mode (mCurrentOperationMode p) s)) (take n ss) @ drop n ss).
         mode_of s = mCurrentOperationMode p" by blast+
    moreover have "r = r1"
      "p' = p\<lparr>mSubHalList := map (\<lambda>s. snd (set_mode (mCurrentOperationMode p) s)) (take n ss) @ drop n ss\<rparr>"
      using assms(1,3) 1 False by (auto simp: setOperationMode_def)
    ultimately show ?thesis using False by simp
  qed
qed

end

section \<open>Disabling all sensors, dynamic sensors, the direct channel\<close>

definition disableAllSensors :: "'s subhal_ops \<Rightarrow> 's hal_proxy \<Rightarrow> 's hal_proxy" where
  "disableAllSensors ops p =
     fold (\<lambda>h p. snd (proxy_activate ops h False p))
       (map fst (mSensors p) @ map fst (mDynamicSensors p)) p"

fun connect_sensors ::
    "u64 \<Rightarrow> sensor_info list \<Rightarrow> sensor_info handle_map \<Rightarrow>
      sensor_info list \<times> sensor_info handle_map" where
  "connect_sensors subHalIndex [] dyn = ([], dyn)"
| "connect_sensors subHalIndex (sensor # added) dyn =
     (if \<not> subHalIndexIsClear (si_handle sensor) then connect_sensors subHalIndex added dyn
      else let sensor' = sensor\<lparr>si_handle := setSubHalIndex (si_handle sensor) subHalIndex\<rparr> in
        case connect_sensors subHalIndex added (map_put (si_handle sensor') sensor' dyn) of
          (sensors, dyn') \<Rightarrow> (sensor' # sensors, dyn'))"

text \<open>Both callbacks yield what is reported to the framework, and the new state.\<close>

definition onDynamicSensorsConnected ::
    "sensor_info list \<Rightarrow> u64 \<Rightarrow> 's hal_proxy \<Rightarrow> sensor_info list \<times> 's hal_proxy" where
  "onDynamicSensorsConnected added subHalIndex p =
     (case connect_sensors subHalIndex added (mDynamicSensors p) of
        (sensors, dyn) \<Rightarrow> (sensors, p\<lparr>mDynamicSensors := dyn\<rparr>))"

fun disconnect_sensors ::
    "u64 \<Rightarrow> handle list \<Rightarrow> sensor_info handle_map \<Rightarrow> handle list \<times> sensor_info handle_map" where
  "disconnect_sensors subHalIndex [] dyn = ([], dyn)"
| "disconnect_sensors subHalIndex (h # removed) dyn =
     (if \<not> subHalIndexIsClear h then disconnect_sensors subHalIndex removed dyn
      else let h' = setSubHalIndex h subHalIndex in
        if map_of dyn h' \<noteq> None
        then case disconnect_sensors subHalIndex removed (map_erase h' dyn) of
          (handles, dyn') \<Rightarrow> (h' # handles, dyn')
        else disconnect_sensors subHalIndex removed dyn)"

definition onDynamicSensorsDisconnected ::
    "handle list \<Rightarrow> u64 \<Rightarrow> 's hal_proxy \<Rightarrow> handle list \<times> 's hal_proxy" where
  "onDynamicSensorsDisconnected removed subHalIndex p =
     (case disconnect_sensors subHalIndex removed (mDynamicSensors p) of
        (handles, dyn) \<Rightarrow> (handles, p\<lparr>mDynamicSensors := dyn\<rparr>))"

definition proxy_registerDirectChannel ::
    "'s subhal_ops \<Rightarrow> shared_mem_info \<Rightarrow> 's hal_proxy \<Rightarrow> (result \<times> int) \<times> 's hal_proxy" where
  "proxy_registerDirectChannel ops mem p = (case mDirectChannelSubHal p of
     None \<Rightarrow> ((INVALID_OPERATION, -1), p)
   | Some i \<Rightarrow> call_subhal i (sh_registerDirectChannel ops mem) p)"

definition proxy_unregisterDirectChannel ::
    "'s subhal_ops \<Rightarrow> int \<Rightarrow> 's hal_proxy \<Rightarrow> result \<times> 's hal_proxy" where
  "proxy_unregisterDirectChannel ops channelHandle p = (case mDirectChannelSubHal p of
     None \<Rightarrow> (INVALID_OPERATION, p)
   | Some i \<Rightarrow> call_subhal i (sh_unregisterDirectChannel ops channelHandle) p)"

definition proxy_configDirectReport ::
    "'s subhal_ops \<Rightarrow> handle \<Rightarrow> int \<Rightarrow> rate_level \<Rightarrow> 's hal_proxy \<Rightarrow> (result \<times> int) \<times> 's hal_proxy" where
  "proxy_configDirectReport ops sensorHandle channelHandle rate p = (case mDirectChannelSubHal p of
     None \<Rightarrow> ((INVALID_OPERATION, -1), p)
   | Some i \<Rightarrow>
       if sensorHandle = -1 \<and> rate \<noteq> STOP then ((BAD_VALUE, -1), p)
       else call_subhal i (sh_configDirectReport ops
         (if sensorHandle \<noteq> -1 then clearSubHalIndex sensorHandle else sensorHandle)
         channelHandle rate) p)"

text \<open>A sub-HAL that may support data injection, as an instance of what the proxy relies on.\<close>

definition sample_set_mode ::
    "operation_mode \<Rightarrow> bool \<times> operation_mode \<Rightarrow> result \<times> bool \<times> operation_mode" where
  "sample_set_mode m s = (if m = NORMAL \<or> fst s then (OK, fst s, m) else (INVALID_OPERATION, s))"

definition sample_mode :: "bool \<times> operation_mode \<Rightarrow> operation_mode" where
  "sample_mode s = (if fst s then snd s else NORMAL)"

interpretation sample: mode_switch sample_set_mode sample_mode
  by unfold_locales (auto simp: sample_set_mode_def sample_mode_def split: if_splits)

text \<open>C20: Against sub-HALs that keep the mode-switch contract, setOperationMode leaves all
  sub-HALs in the mode that the proxy records: the new one when it answers OK, the old one
  when a sub-HAL refuses and the others are rolled back.\<close>

theorem setOperationMode_all_or_nothing:
  assumes "mode_switch (sh_setOperationMode ops) mode_of"
    and "\<forall>s\<in>set (mSubHalList p). mode_of s = mCurrentOperationMode p"
    and "setOperationMode ops m p = (r, p')"
  shows "(\<forall>s\<in>set (mSubHalList p'). mode_of s = mCurrentOperationMode p') \<and>
    mCurrentOperationMode p' = (if r = OK then m else mCurrentOperationMode p) \<and>
    length (mSubHalList p') = length (mSubHalList p)"
  using mode_switch.setOperationMode_uniform [OF assms(1) refl assms(2,3)] .

section \<open>The list stays accurate\<close>

text \<open>The merged list is built once.  It keeps describing the sub-HALs as long as no call changes
  what a sub-HAL lists, which is the contract \<open>sub_hal\<close>.\<close>

definition list_accurate :: "'s subhal_ops \<Rightarrow> 's hal_proxy \<Rightarrow> bool" where
  "list_accurate ops p \<longleftrightarrow>
     mSensors p = mSensors (new_HalProxy ops (mSubHalList p) []) \<and>
     mDirectChannelSubHal p = mDirectChannelSubHal (new_HalProxy ops (mSubHalList p) [])"

lemma list_accurate_initial: "list_accurate ops (new_HalProxy ops l1 l2)"
  by (simp add: list_accurate_def new_HalProxy_def initializeSensorList_def split: prod.split)

lemma add_subhals_cong:
  "map (sh_getSensorsList ops) ss = map (sh_getSensorsList ops) ss' \<Longrightarrow>
     add_subhals ops i ss acc = add_subhals ops i ss' acc"
proof (induction ss arbitrary: ss' i acc)
  case (Cons s ss)
  then obtain s1 ss1 where ss': "ss' = s1 # ss1"
    "sh_getSensorsList ops s = sh_getSensorsList ops s1"
    "map (sh_getSensorsList ops) ss = map (sh_getSensorsList ops) ss1"
    by (cases ss') auto
  show ?case unfolding ss'(1) add_subhals.simps ss'(2) by (rule Cons.IH [OF ss'(3)])
qed simp

lemma list_accurate_cong:
  assumes "list_accurate ops p" "mSensors p' = mSensors p"
    and "mDirectChannelSubHal p' = mDirectChannelSubHal p"
    and "map (sh_getSensorsList ops) (mSubHalList p') = map (sh_getSensorsList ops) (mSubHalList p)"
  shows "list_accurate ops p'"
proof -
  have "mSensors (new_HalProxy ops (mSubHalList p') []) = mSensors (new_HalProxy ops (mSubHalList p) [])"
    "mDirectChannelSubHal (new_HalProxy ops (mSubHalList p') []) =
     mDirectChannelSubHal (new_HalProxy ops (mSubHalList p) [])"
    by (simp_all add: new_HalProxy_def initializeSensorList_def add_subhals_cong [OF assms(4)]
        split: prod.split)
  then show ?thesis using assms(1-3) unfolding list_accurate_def by (simp only:)
qed

datatype framework_call =
    F_activate handle bool
  | F_batch handle int int
  | F_flush handle
  | F_inject "rat event"
  | F_mode operation_mode

fun framework_step ::
    "'s subhal_ops \<Rightarrow> (rat event \<Rightarrow> rat event) \<Rightarrow> framework_call \<Rightarrow> 's hal_proxy \<Rightarrow> 's hal_proxy" where
  "framework_step ops conv (F_activate h e) p = snd (proxy_activate ops h e p)"
| "framework_step ops conv (F_batch h t l) p = snd (proxy_batch ops h t l p)"
| "framework_step ops conv (F_flush h) p = snd (proxy_flush ops h p)"
| "framework_step ops conv (F_inject e) p = snd (proxy_injectSensorData ops conv e p)"
| "framework_step ops conv (F_mode m) p = snd (setOperationMode ops m p)"

definition healthy :: "'s subhal_ops \<Rightarrow> ('s \<Rightarrow> bool) \<Rightarrow> 's hal_proxy \<Rightarrow> bool" where
  "healthy ops good p \<longleftrightarrow> list_accurate ops p \<and> (\<forall>s\<in>set (mSubHalList p). good s)"

definition keeps_list :: "'s subhal_ops \<Rightarrow> ('s \<Rightarrow> bool) \<Rightarrow> ('s \<Rightarrow> 'r \<times> 's) \<Rightarrow> bool" where
  "keeps_list ops good f \<longleftrightarrow> (\<forall>s. good s \<longrightarrow>
     good (snd (f s)) \<and> sh_getSensorsList ops (snd (f s)) = sh_getSensorsList ops s)"

lemma healthy_call:
  assumes "healthy ops good p" "keeps_list ops good f"
  shows "healthy ops good (snd (call_subhal i f p))"
proof (cases "i < length (mSubHalList p)")
  case False
  then have "snd (call_subhal i f p) = p"
    by (simp add: call_subhal_def list_update_beyond split: prod.split)
  with assms(1) show ?thesis by simp
next
  case True
  obtain r s where f: "f (mSubHalList p ! i) = (r, s)" by fastforce
  have "good (mSubHalList p ! i)" using assms(1) True by (simp add: healthy_def)
  with assms(2) f have s: "good s" "sh_getSensorsList ops s = sh_getSensorsList ops (mSubHalList p ! i)"
    by (auto simp: keeps_list_def dest!: spec [of _ "mSubHalList p ! i"])
  have l: "mSubHalList (snd (call_subhal i f p)) = (mSubHalList p)[i := s]"
    by (simp add: call_subhal_def f)
  have "list_accurate ops (snd (call_subhal i f p))"
  proof (rule list_accurate_cong [of ops p])
    show "list_accurate ops p" using assms(1) by (simp add: healthy_def)
    show "map (sh_getSensorsList ops) (mSubHalList (snd (call_subhal i f p))) =
        map (sh_getSensorsList ops) (mSubHalList p)"
      unfolding l map_update s(2) using True by (metis list_update_id nth_map)
  qed (simp_all add: call_subhal_def split: prod.split)
  moreover have "\<forall>x\<in>set ((mSubHalList p)[i := s]). good x"
    using assms(1) s(1) set_update_subset_insert [of "mSubHalList p" i s] by (auto simp: healthy_def)
  ultimately show ?thesis by (simp add: healthy_def l)
qed

lemma flip_modes_keep:
  assumes "keeps_list ops good (set_mode m)"
  shows "flip_modes set_mode m ss = (r, ss', n) \<Longrightarrow> \<forall>s\<in>set ss. good s \<Longrightarrow>
     map (sh_getSensorsList ops) ss' = map (sh_getSensorsList ops) ss \<and> (\<forall>s\<in>set ss'. good s)"
proof (induction ss arbitrary: r ss' n)
  case (Cons s ss)
  obtain r1 s1 where 1: "set_mode m s = (r1, s1)" by fastforce
  obtain r2 ss2 n2 where 2: "flip_modes set_mode m ss = (r2, ss2, n2)" by (metis prod_cases3)
  have "good s1 \<and> sh_getSensorsList ops s1 = sh_getSensorsList ops s"
    using assms Cons.prems(2) 1 by (auto simp: keeps_list_def dest!: spec [of _ s])
  with Cons.IH [OF 2] Cons.prems 1 2 show ?case by (auto split: if_splits)
qed simp

lemma healthy_mode:
  assumes "healthy ops good p" "\<And>m. keeps_list ops good (sh_setOperationMode ops m)"
  shows "healthy ops good (snd (setOperationMode ops m p))"
proof -
  let ?l = "sh_getSensorsList ops" and ?set = "sh_setOperationMode ops"
  obtain r ss n where f: "flip_modes ?set m (mSubHalList p) = (r, ss, n)" by (metis prod_cases3)
  have ss: "map ?l ss = map ?l (mSubHalList p)" "\<forall>s\<in>set ss. good s"
    using flip_modes_keep [OF assms(2) f] assms(1) by (auto simp: healthy_def)
  have bk: "?l (snd (?set c s)) = ?l s \<and> good (snd (?set c s))" if "s \<in> set ss" for c s
    using assms(2) [of c] ss(2) that by (simp add: keeps_list_def)
  define back_ss where "back_ss = map (\<lambda>s. snd (?set (mCurrentOperationMode p) s)) (take n ss) @ drop n ss"
  have "map ?l back_ss = map ?l (take n ss @ drop n ss)"
    using bk by (auto simp: back_ss_def dest: in_set_takeD simp del: append_take_drop_id)
  then have b: "map ?l back_ss = map ?l (mSubHalList p)" "\<forall>s\<in>set back_ss. good s"
    using ss bk by (auto simp: back_ss_def dest: in_set_takeD in_set_dropD)
  let ?p = "snd (setOperationMode ops m p)"
  have same: "mSensors ?p = mSensors p" "mDirectChannelSubHal ?p = mDirectChannelSubHal p"
    by (simp_all add: setOperationMode_def f)
  have "mSubHalList ?p = back_ss \<or> mSubHalList ?p = ss"
    by (simp add: setOperationMode_def f back_ss_def)
  then have l: "map ?l (mSubHalList ?p) = map ?l (mSubHalList p)" "\<forall>s\<in>set (mSubHalList ?p). good s"
    using b ss by metis+
  have "list_accurate ops p" using assms(1) by (simp add: healthy_def)
  from list_accurate_cong [OF this same l(1)] l(2) show ?thesis by (simp add: healthy_def)
qed

locale sub_hal =
  fixes ops :: "'s subhal_ops" and good :: "'s \<Rightarrow> bool"
  assumes activate_keeps: "keeps_list ops good (sh_activate ops h e)"
    and batch_keeps: "keeps_list ops good (sh_batch ops h t l)"
    and flush_keeps: "keeps_list ops good (sh_flush ops h)"
    and inject_keeps: "keeps_list ops good (sh_injectSensorData ops ev)"
    and mode_keeps: "keeps_list ops good (sh_setOperationMode ops m)"
begin

lemma framework_step_healthy:
  "healthy ops good p \<Longrightarrow> healthy ops good (framework_step ops conv c p)"
  by (cases c) (auto simp: proxy_activate_def proxy_batch_def proxy_flush_def
      proxy_injectSensorData_def healthy_call healthy_mode activate_keeps batch_keeps flush_keeps
      inject_keeps mode_keeps)

lemma framework_run_healthy:
  "healthy ops good p \<Longrightarrow> healthy ops good (fold (framework_step ops conv) cs p)"
  by (induction cs arbitrary: p) (simp_all add: framework_step_healthy)

lemma framework_run_list_accurate:
  assumes "\<forall>s\<in>set (l1 @ l2). good s"
  shows "list_accurate ops (fold (framework_step ops conv) cs (new_HalProxy ops l1 l2))"
proof -
  have "mSubHalList (new_HalProxy ops l1 l2) = l1 @ l2"
    by (simp add: new_HalProxy_def initializeSensorList_def split: prod.split)
  then have "healthy ops good (new_HalProxy ops l1 l2)"
    using assms by (simp add: healthy_def list_accurate_initial)
  from framework_run_healthy [OF this] show ?thesis by (simp add: healthy_def)
qed

end

section \<open>Dynamic sensors\<close>

lemma connect_sensors_reported:
  "fst (connect_sensors i added dyn) =
     map (\<lambda>s. s\<lparr>si_handle := setSubHalIndex (si_handle s) i\<rparr>)
       (filter (\<lambda>s. subHalIndexIsClear (si_handle s)) added)"
  by (induction i added dyn rule: connect_sensors.induct) (auto simp: Let_def split: prod.splits)

lemma connect_sensors_stored:
  "map_of (snd (connect_sensors i added dyn)) =
     map_of dyn ++ map_of (rev (map (\<lambda>s. (si_handle s, s)) (fst (connect_sensors i added dyn))))"
proof (induction i added dyn rule: connect_sensors.induct)
  case (2 i s added dyn)
  define s' where "s' = s\<lparr>si_handle := setSubHalIndex (si_handle s) i\<rparr>"
  show ?case
  proof (cases "subHalIndexIsClear (si_handle s)")
    case True
    obtain r d where rd: "connect_sensors i added (map_put (si_handle s') s' dyn) = (r, d)"
      by fastforce
    then have "connect_sensors i (s # added) dyn = (s' # r, d)"
      using True by (simp add: s'_def Let_def)
    moreover have "map_of d = (map_of dyn)(si_handle s' \<mapsto> s') ++
        map_of (rev (map (\<lambda>s. (si_handle s, s)) r))"
      using 2(2) [OF _ s'_def] True unfolding rd map_of_put fst_conv snd_conv by blast
    ultimately show ?thesis
      by (auto simp: map_add_def fun_eq_iff split: option.splits)
  qed (use 2(1) in simp)
qed simp

lemma disconnect_sensors_spec:
  "disconnect_sensors i removed dyn = (hs, dyn') \<Longrightarrow>
     set hs = {setSubHalIndex h i | h. h \<in> set removed \<and> subHalIndexIsClear h} \<inter> dom (map_of dyn) \<and>
     distinct hs \<and> map_of dyn' = map_of dyn |` (- set hs)"
proof (induction removed arbitrary: dyn hs)
  case (Cons h removed)
  define h' where "h' = setSubHalIndex h i"
  show ?case
  proof (cases "subHalIndexIsClear h \<and> map_of dyn h' \<noteq> None")
    case True
    then obtain hs2 where 2: "disconnect_sensors i removed (map_erase h' dyn) = (hs2, dyn')"
        "hs = h' # hs2"
      using Cons.prems by (auto simp: h'_def Let_def split: prod.splits)
    note IH = Cons.IH [OF 2(1)]
    have K: "{setSubHalIndex x i | x. x \<in> set (h # removed) \<and> subHalIndexIsClear x} =
        insert h' {setSubHalIndex x i | x. x \<in> set removed \<and> subHalIndexIsClear x}"
      using True by (auto simp: h'_def)
    have D: "dom (map_of (map_erase h' dyn)) = dom (map_of dyn) - {h'}"
      unfolding map_of_erase by simp
    have "h' \<in> dom (map_of dyn)" using True by blast
    then have set_hs: "set hs = insert h' {setSubHalIndex x i | x. x \<in> set removed \<and>
        subHalIndexIsClear x} \<inter> dom (map_of dyn)" and h': "h' \<notin> set hs2"
      using IH unfolding D 2(2) by auto
    have "map_of dyn' = (map_of dyn)(h' := None) |` (- set hs2)"
      using IH unfolding map_of_erase by blast
    also have "\<dots> = map_of dyn |` (- set hs)"
      unfolding 2(2) by (auto simp: restrict_map_def fun_eq_iff)
    finally have dyn': "map_of dyn' = map_of dyn |` (- set hs)" .
    have "distinct hs" using h' IH 2(2) by simp
    with set_hs dyn' show ?thesis unfolding K by blast
  next
    case False
    then have "disconnect_sensors i removed dyn = (hs, dyn')"
      using Cons.prems by (auto simp: h'_def Let_def split: if_splits)
    note IH = Cons.IH [OF this]
    have "{setSubHalIndex x i | x. x \<in> set (h # removed) \<and> subHalIndexIsClear x} \<inter> dom (map_of dyn) =
        {setSubHalIndex x i | x. x \<in> set removed \<and> subHalIndexIsClear x} \<inter> dom (map_of dyn)"
      using False by (auto simp: h'_def)
    with IH show ?thesis by simp
  qed
qed auto

lemma disconnect_sensors_order:
  "\<forall>h\<in>set removed. subHalIndexIsClear h \<and> map_of dyn (setSubHalIndex h i) \<noteq> None \<Longrightarrow>
     distinct removed \<Longrightarrow>
     fst (disconnect_sensors i removed dyn) = map (\<lambda>h. setSubHalIndex h i) removed"
proof (induction removed arbitrary: dyn)
  case (Cons h removed)
  have ne: "setSubHalIndex x i \<noteq> setSubHalIndex h i" if "x \<in> set removed" for x
  proof
    assume eq: "setSubHalIndex x i = setSubHalIndex h i"
    have "x = clearSubHalIndex (setSubHalIndex x i)" "h = clearSubHalIndex (setSubHalIndex h i)"
      using that Cons.prems(1) by (simp_all add: clear_set_index)
    then have "x = h" unfolding eq by simp
    with that Cons.prems(2) show False by simp
  qed
  have "\<forall>x\<in>set removed. subHalIndexIsClear x \<and>
      map_of (map_erase (setSubHalIndex h i) dyn) (setSubHalIndex x i) \<noteq> None"
    unfolding map_of_erase using Cons.prems(1) ne by simp
  note IH = Cons.IH [OF this]
  obtain hs d where "disconnect_sensors i removed (map_erase (setSubHalIndex h i) dyn) = (hs, d)"
    by fastforce
  moreover from this have "disconnect_sensors i (h # removed) dyn = (setSubHalIndex h i # hs, d)"
    using Cons.prems(1) by (simp add: Let_def)
  ultimately show ?case using IH Cons.prems(2) by simp
qed simp

lemma connect_then_disconnect:
  assumes "distinct (map si_handle added)" "\<forall>s\<in>set added. subHalIndexIsClear (si_handle s)"
    and "\<forall>s\<in>set added. map_of dyn (setSubHalIndex (si_handle s) i) = None"
    and "connect_sensors i added dyn = (sensors, dyn1)"
    and "disconnect_sensors i (map si_handle added) dyn1 = (hs, dyn2)"
  shows "hs = map si_handle sensors \<and> map_of dyn2 = map_of dyn \<and> length sensors = length added"
proof -
  have sensors: "sensors = map (\<lambda>s. s\<lparr>si_handle := setSubHalIndex (si_handle s) i\<rparr>) added"
    using connect_sensors_reported [of i added dyn] assms(2,4) by (simp add: filter_id_conv)
  have dyn1: "map_of dyn1 = map_of dyn ++ map_of (rev (map (\<lambda>s. (si_handle s, s)) sensors))"
    using connect_sensors_stored [of i added dyn] assms(4) by simp
  define new where "new = (\<lambda>s. setSubHalIndex (si_handle s) i) ` set added"
  have dom1: "dom (map_of (rev (map (\<lambda>s. (si_handle s, s)) sensors))) = new"
    by (force simp: dom_map_of_conv_image_fst sensors new_def image_iff)
  have "fst (disconnect_sensors i (map si_handle added) dyn1) =
      map (\<lambda>h. setSubHalIndex h i) (map si_handle added)"
  proof (rule disconnect_sensors_order)
    show "\<forall>h\<in>set (map si_handle added).
        subHalIndexIsClear h \<and> map_of dyn1 (setSubHalIndex h i) \<noteq> None"
    proof
      fix h assume "h \<in> set (map si_handle added)"
      then have "setSubHalIndex h i \<in> new" "subHalIndexIsClear h"
        using assms(2) by (auto simp: new_def)
      moreover have "new \<subseteq> dom (map_of dyn1)" using dom1 unfolding dyn1 by auto
      ultimately show "subHalIndexIsClear h \<and> map_of dyn1 (setSubHalIndex h i) \<noteq> None"
        by blast
    qed
  qed (fact assms(1))
  then have hs: "hs = map si_handle sensors" using assms(5) by (simp add: sensors)
  have "map_of dyn2 = map_of dyn1 |` (- new)"
    using disconnect_sensors_spec [OF assms(5)] hs by (force simp: sensors new_def image_image)
  also have "\<dots> = map_of dyn"
    using dom1 assms(3) by (auto simp: dyn1 restrict_map_def fun_eq_iff new_def map_add_def
        split: option.splits)
  finally show ?thesis using hs sensors by simp
qed


section \<open>Instances\<close>

text \<open>A sub-HAL with one sensor, with a direct channel when the flag of its state is set.\<close>

definition sample_sensor :: "bool \<Rightarrow> sensor_info" where
  "sample_sensor d = default_info\<lparr>si_handle := 5, si_flags := if d then 0x80 else 0\<rparr>"

definition sample_ops :: "(bool \<times> operation_mode) subhal_ops" where
  "sample_ops = \<lparr> sh_getSensorsList = (\<lambda>s. [sample_sensor (fst s)]),
     sh_setOperationMode = sample_set_mode, sh_activate = (\<lambda>h en s. (OK, s)),
     sh_batch = (\<lambda>h t l s. (OK, s)), sh_flush = (\<lambda>h s. ((OK, []), s)),
     sh_injectSensorData = (\<lambda>e s. (INVALID_OPERATION, s)),
     sh_registerDirectChannel = (\<lambda>m s. ((OK, uint (sm_size m)), s)),
     sh_unregisterDirectChannel = (\<lambda>c s. (OK, s)),
     sh_configDirectReport = (\<lambda>h c r s. ((OK, sint h), s)) \<rparr>"

definition sample_proxy :: "(bool \<times> operation_mode) hal_proxy" where
  "sample_proxy = new_HalProxy sample_ops [(False, NORMAL)] [(True, NORMAL), (True, NORMAL)]"

lemma sample_proxy_state:
  "sample_proxy = \<lparr> mSubHalList = [(False, NORMAL), (True, NORMAL), (True, NORMAL)],
     mSensors = [(5, sample_sensor False), (0x1000005, (sample_sensor True)\<lparr>si_handle := 0x1000005\<rparr>),
       (0x2000005, (sample_sensor False)\<lparr>si_handle := 0x2000005\<rparr>)],
     mDynamicSensors = [], mCurrentOperationMode = NORMAL, mDirectChannelSubHal = Some 1 \<rparr>"
  unfolding sample_proxy_def by code_simp

theorem sensor_list_dispatches_witness:
  "\<exists>i s0. reports sample_ops [(False, NORMAL), (True, NORMAL), (True, NORMAL)] i s0 \<and>
     0x1000005 = setSubHalIndex (si_handle s0) (of_nat i) \<and>
     reaches sample_ops 0x1000005 i (si_handle s0) sample_proxy"
  using sensor_list_dispatches [of "[(False, NORMAL)]" "[(True, NORMAL), (True, NORMAL)]"
      sample_proxy sample_ops]
  by (auto simp: sample_proxy_def [symmetric]) (auto simp: sample_proxy_state)

theorem direct_channel_first_subhal_witness:
  "mDirectChannelSubHal sample_proxy = Some 1 \<and> unat (extractSubHalIndex 0x1000005) = 1"
  using direct_channel_first_subhal [of "0x1000005" "(sample_sensor True)\<lparr>si_handle := 0x1000005\<rparr>"
      sample_ops "[(False, NORMAL)]" "[(True, NORMAL), (True, NORMAL)]"]
  by (simp add: sample_proxy_def [symmetric] sample_proxy_state sample_sensor_def)

theorem setOperationMode_all_or_nothing_witness:
  "fst (setOperationMode sample_ops DATA_INJECTION sample_proxy) = INVALID_OPERATION \<and>
   list_all (\<lambda>s. sample_mode s = NORMAL)
     (mSubHalList (snd (setOperationMode sample_ops DATA_INJECTION sample_proxy)))"
proof -
  define p where "p = snd (setOperationMode sample_ops DATA_INJECTION sample_proxy)"
  have r: "setOperationMode sample_ops DATA_INJECTION sample_proxy = (INVALID_OPERATION, p)"
    unfolding p_def sample_proxy_state by code_simp
  have "mode_switch (sh_setOperationMode sample_ops) sample_mode"
    by (simp add: sample_ops_def sample.mode_switch_axioms)
  from setOperationMode_all_or_nothing [OF this _ r]
  have "\<forall>s\<in>set (mSubHalList p). sample_mode s = NORMAL"
    by (simp add: sample_proxy_state sample_mode_def)
  then show ?thesis unfolding r by (simp add: list_all_iff)
qed


end
