(* ===== verification/Aidl_Queue.thy ===== *)
theory Aidl_Queue
  imports Event_Queue Convert_Utils Hal_Proxy
begin

text \<open>
  The wrappers through which the proxy reaches the AIDL queues and callbacks
  (\<open>EventMessageQueueWrapperAidl.h\<close>, \<open>WakeLockMessageQueueWrapperAidl.h\<close>,
  \<open>ISensorsCallbackWrapperAidl.h\<close>), and the event path of \<open>Event_Queue\<close> run through them.  A
  write converts the events one by one into an array of the wrapper and hands the array to the
  message queue; the writer thread does so without the mutex, while posts go on.  The main result:
  as long as the framework's queue is no larger than the array, no interleaving writes behind the
  array or delivers an event that another write has overwritten.
\<close>

section \<open>The wrapper of the event queue\<close>

text \<open>\<open>aq_written\<close> is what the platform's queue has accepted; \<open>aq_buffer\<close> is
  \<open>mIntermediateEventBuffer\<close>, whose length belongs to the platform's interface.\<close>

record aidl_queue =
  aq_written :: "aidl_event list"
  aq_buffer :: "aidl_event list"

text \<open>The conversion loop from index \<open>i\<close> on; \<open>None\<close> is a write behind the array, or the end of the
  process in a conversion.\<close>

fun convert_into :: "nat \<Rightarrow> hidl_event list \<Rightarrow> nat \<Rightarrow> aidl_event list \<Rightarrow> aidl_event list option" where
  "convert_into n [] i buf = Some buf"
| "convert_into n (e # es) i buf =
     (if length buf \<le> i then None
      else case convertToAidlEvent n e of
        None \<Rightarrow> None
      | Some a \<Rightarrow> convert_into n es (Suc i) (buf[i := a]))"

definition queue_accepts :: "bool \<Rightarrow> nat \<Rightarrow> aidl_queue \<Rightarrow> aidl_queue" where
  "queue_accepts success num q =
     (if success then q\<lparr>aq_written := aq_written q @ take num (aq_buffer q)\<rparr> else q)"

definition aidl_write :: "nat \<Rightarrow> bool \<Rightarrow> hidl_event list \<Rightarrow> nat \<Rightarrow> aidl_queue \<Rightarrow> aidl_queue option" where
  "aidl_write n success events numToWrite q =
     map_option (\<lambda>buf. queue_accepts success numToWrite (q\<lparr>aq_buffer := buf\<rparr>))
       (convert_into n (take numToWrite events) 0 (aq_buffer q))"

definition aidl_write_vector :: "nat \<Rightarrow> bool \<Rightarrow> hidl_event list \<Rightarrow> aidl_queue \<Rightarrow> aidl_queue option" where
  "aidl_write_vector n success events q =
     map_option (\<lambda>buf. queue_accepts success (length events) (q\<lparr>aq_buffer := buf\<rparr>))
       (convert_into n events 0 (aq_buffer q))"

text \<open>\<open>writeBlocking\<close> up to the call of the queue, and from its return on.\<close>

definition aidl_writeBlocking_begin ::
    "nat \<Rightarrow> hidl_event list \<Rightarrow> nat \<Rightarrow> aidl_queue \<Rightarrow> aidl_queue option" where
  "aidl_writeBlocking_begin n events cnt q =
     map_option (\<lambda>buf. q\<lparr>aq_buffer := buf\<rparr>) (convert_into n (take cnt events) 0 (aq_buffer q))"

definition aidl_writeBlocking_end :: "bool \<Rightarrow> nat \<Rightarrow> aidl_queue \<Rightarrow> aidl_queue" where
  "aidl_writeBlocking_end success cnt q = queue_accepts success cnt q"

text \<open>A read converts the array even when the queue has not filled it; \<open>delivered\<close> is what the queue
  yields, \<open>mem\<close> the memory of the caller's events.\<close>

definition aidl_read ::
    "u32 list \<Rightarrow> aidl_event list option \<Rightarrow> nat \<Rightarrow> aidl_queue \<Rightarrow>
      ((bool \<times> hidl_event option list) \<times> aidl_queue) option" where
  "aidl_read mem delivered numToRead q =
     (if length (aq_buffer q) < numToRead then None
      else let buf = (case delivered of
          None \<Rightarrow> aq_buffer q | Some events \<Rightarrow> take numToRead events @ drop numToRead (aq_buffer q))
        in Some ((delivered \<noteq> None, map (convertToHidlEvent mem) (take numToRead buf)),
          q\<lparr>aq_buffer := buf\<rparr>))"

section \<open>The other two wrappers\<close>

text \<open>The number that the framework writes as \<open>int32_t\<close> is read through a pointer to \<open>uint32_t\<close> and
  widened to \<open>size_t\<close>.\<close>

definition aidl_wakelock_read :: "32 word option \<Rightarrow> nat option" where
  "aidl_wakelock_read message = map_option unat message"

definition aidl_onDynamicSensorsConnected ::
    "sensor_info list \<Rightarrow> u64 \<Rightarrow> 's hal_proxy \<Rightarrow> aidl_sensor_info list \<times> 's hal_proxy" where
  "aidl_onDynamicSensorsConnected added subHalIndex p =
     (case onDynamicSensorsConnected added subHalIndex p of
        (sensors, p') \<Rightarrow> (convertToAidlSensorInfos sensors, p'))"

definition aidl_onDynamicSensorsDisconnected ::
    "handle list \<Rightarrow> u64 \<Rightarrow> 's hal_proxy \<Rightarrow> handle list \<times> 's hal_proxy" where
  "aidl_onDynamicSensorsDisconnected removed subHalIndex p =
     onDynamicSensorsDisconnected removed subHalIndex p"

text \<open>A negative number of handled events empties the reference count.\<close>

lemma negative_handled_empties_count:
  assumes "mThreadsRun s" "mWakelockRefCount s < 2 ^ 31" "sint w < 0"
    and "aidl_wakelock_read (Some w) = Some handled"
  shows "mWakelockRefCount (decrementRefCountAndMaybeReleaseWakelock handled (-1) s) = 0"
proof -
  have low: "- 2147483648 \<le> sint w" using sint_greater_eq [of w] by simp
  have "sint w mod 4294967296 = (sint w + 4294967296) mod 4294967296" by simp
  also have "\<dots> = sint w + 4294967296"
    by (rule mod_pos_pos_trivial) (use low assms(3) in linarith)+
  finally have "2147483648 \<le> uint w"
    using low by (simp add: uint_sint take_bit_eq_mod)
  then have "2147483648 \<le> unat w" unfolding unat_eq_nat_uint by linarith
  then show ?thesis
    using assms by (auto simp: decrementRefCountAndMaybeReleaseWakelock_def aidl_wakelock_read_def Let_def)
qed

section \<open>The event path through the wrapper\<close>

text \<open>The steps of \<open>Event_Queue\<close> with what they do to the wrapper.  A post writes only when nothing
  is pending and the queue has room; \<open>initialize\<close> makes a new wrapper.\<close>

fun aidl_act ::
    "nat \<Rightarrow> aidl_event list \<Rightarrow> (hidl_event \<Rightarrow> bool) \<Rightarrow> int \<Rightarrow> hidl_event action \<Rightarrow>
      hidl_event event_queue \<times> aidl_queue \<Rightarrow> (hidl_event event_queue \<times> aidl_queue) option" where
  "aidl_act n blank wk limit (Post avail ok now events num locked) (s, q) =
     (let numToWrite = min (length events) avail;
          s' = act wk limit (Post avail ok now events num locked) s
      in if mPendingWriteEventsQueue s = [] \<and> 0 < numToWrite
         then map_option (\<lambda>q'. (s', q')) (aidl_write n ok events numToWrite q)
         else Some (s', q))"
| "aidl_act n blank wk limit Write_begin (s, q) =
     (let s' = act wk limit Write_begin s in
      case (in_flight s, in_flight s', mPendingWriteEventsQueue s) of
        (None, Some cnt, (events, num) # rest) \<Rightarrow>
          map_option (\<lambda>q'. (s', q')) (aidl_writeBlocking_begin n events cnt q)
      | _ \<Rightarrow> Some (s', q))"
| "aidl_act n blank wk limit (Write_end ok) (s, q) =
     Some (act wk limit (Write_end ok) s,
       case in_flight s of None \<Rightarrow> q | Some cnt \<Rightarrow> aidl_writeBlocking_end ok cnt q)"
| "aidl_act n blank wk limit (Restart now) (s, q) =
     Some (act wk limit (Restart now) s,
       if in_flight s \<noteq> None then q else q\<lparr>aq_buffer := blank\<rparr>)"
| "aidl_act n blank wk limit a (s, q) = Some (act wk limit a s, q)"

fun aidl_run ::
    "nat \<Rightarrow> aidl_event list \<Rightarrow> (hidl_event \<Rightarrow> bool) \<Rightarrow> int \<Rightarrow> hidl_event action list \<Rightarrow>
      hidl_event event_queue \<times> aidl_queue \<Rightarrow> (hidl_event event_queue \<times> aidl_queue) option" where
  "aidl_run n blank wk limit [] sq = Some sq"
| "aidl_run n blank wk limit (a # acts) sq =
     Option.bind (aidl_act n blank wk limit a sq) (aidl_run n blank wk limit acts)"

section \<open>The array holds what the writer thread has handed over\<close>

definition converts :: "nat \<Rightarrow> hidl_event list \<Rightarrow> aidl_event list \<Rightarrow> bool" where
  "converts n events out \<longleftrightarrow> map (convertToAidlEvent n) events = map Some out"

lemma converts_Nil [simp]: "converts n [] []"
  by (simp add: converts_def)

lemma converts_length: "converts n events out \<Longrightarrow> length out = length events"
  unfolding converts_def by (metis length_map)

lemma converts_append: "converts n es out \<Longrightarrow> converts n fs out' \<Longrightarrow> converts n (es @ fs) (out @ out')"
  by (simp add: converts_def)

lemma converts_take: "converts n es out \<Longrightarrow> converts n (take k es) (take k out)"
  unfolding converts_def by (metis take_map)

lemma converts_exists: "\<forall>e\<in>set es. convertToAidlEvent n e \<noteq> None \<Longrightarrow> \<exists>out. converts n es out"
  by (induction es) (auto simp: converts_def Cons_eq_map_conv)

lemma converts_convert_all: "converts n es out \<longleftrightarrow> convert_all n es = Some out"
  by (induction es arbitrary: out) (auto simp: converts_def Cons_eq_map_conv split: option.splits)

lemma convert_into_fills:
  assumes "converts n es out" "i + length es \<le> length buf"
  shows "convert_into n es i buf = Some (take i buf @ out @ drop (i + length es) buf)"
  using assms
proof (induction es arbitrary: i buf out)
  case (Cons e es)
  then obtain a out' where a: "convertToAidlEvent n e = Some a" "out = a # out'" "converts n es out'"
    by (auto simp: converts_def Cons_eq_map_conv)
  have "convert_into n es (Suc i) (buf[i := a]) =
      Some (take (Suc i) (buf[i := a]) @ out' @ drop (Suc i + length es) (buf[i := a]))"
    using Cons.IH [OF a(3), of "Suc i" "buf[i := a]"] Cons.prems(2) by simp
  moreover have "take (Suc i) (buf[i := a]) = take i buf @ [a]"
    using Cons.prems(2) by (simp add: take_Suc_conv_app_nth)
  ultimately show ?case using Cons.prems(2) by (simp add: a(1,2))
qed (simp add: converts_def)

text \<open>The invariant of the pair: the array has its length, all pending events convert, what was
  written is the image of what \<open>Event_Queue\<close> records, and while a write is in flight the array
  begins with the events that it hands over.\<close>

definition sound :: "'e event_queue \<Rightarrow> bool" where
  "sound s \<longleftrightarrow> queue_inv s \<and> (\<exists>past. history past s)"

lemma sound_act: "sound s \<Longrightarrow> sound (act wk limit a s)"
  unfolding sound_def using act_keeps [of s _ wk limit a] by blast

definition wrapper_inv :: "nat \<Rightarrow> nat \<Rightarrow> hidl_event event_queue \<times> aidl_queue \<Rightarrow> bool" where
  "wrapper_inv n room = (\<lambda>(s, q).
     sound s \<and> length (aq_buffer q) = room \<and> quantumCount s \<le> room \<and>
     (\<forall>e\<in>set (waiting s). convertToAidlEvent n e \<noteq> None) \<and>
     converts n (fmq s) (aq_written q) \<and>
     (\<forall>k events num rest. in_flight s = Some k \<longrightarrow> mPendingWriteEventsQueue s = (events, num) # rest \<longrightarrow>
        converts n (take k events) (take k (aq_buffer q))))"

definition post_fits :: "nat \<Rightarrow> nat \<Rightarrow> hidl_event action \<Rightarrow> bool" where
  "post_fits n room a \<longleftrightarrow> (case a of
     Post avail ok now events num locked \<Rightarrow>
       avail \<le> room \<and> list_all (\<lambda>e. convertToAidlEvent n e \<noteq> None) events
   | _ \<Rightarrow> True)"

lemma wrapper_inv_frame:
  assumes "wrapper_inv n room (s, q)" "sound s'"
    and "mPendingWriteEventsQueue s' = mPendingWriteEventsQueue s"
    and "fmq s' = fmq s" "in_flight s' = in_flight s" "quantumCount s' = quantumCount s"
  shows "wrapper_inv n room (s', q)"
  using assms by (simp add: wrapper_inv_def waiting_def)

lemma post_fields:
  assumes "k = num_to_write avail ok events s"
    and "s' = postEventsToMessageQueue avail ok now events num locked s"
  shows "fmq s' = fmq s @ take k events \<and> in_flight s' = in_flight s \<and> quantumCount s' = quantumCount s \<and>
    (mPendingWriteEventsQueue s' = mPendingWriteEventsQueue s \<or>
     mPendingWriteEventsQueue s' = mPendingWriteEventsQueue s @ [(drop k events, num)])"
  by (simp add: assms postEventsToMessageQueue_def push_pending_def num_to_write_def Let_def
      incrementRefCountAndMaybeAcquireWakelock_def)

lemma aidl_write_converted:
  assumes "converts n (take k events) out" "length out = k" "k \<le> length (aq_buffer q)"
  shows "aidl_write n ok events k q = Some (queue_accepts ok k
    (q\<lparr>aq_buffer := out @ drop k (aq_buffer q)\<rparr>))"
proof -
  have "length (take k events) = k" using converts_length [OF assms(1)] assms(2) by simp
  with convert_into_fills [OF assms(1), of 0 "aq_buffer q"] assms(3)
  show ?thesis by (simp add: aidl_write_def del: length_take)
qed

lemma post_keeps_wrapper:
  assumes inv: "wrapper_inv n room (s, q)" and "avail \<le> room"
    and conv: "\<forall>e\<in>set events. convertToAidlEvent n e \<noteq> None"
  shows "\<exists>q'. aidl_act n blank wk limit (Post avail ok now events num locked) (s, q) =
      Some (act wk limit (Post avail ok now events num locked) s, q') \<and>
    wrapper_inv n room (act wk limit (Post avail ok now events num locked) s, q')"
proof -
  define k where "k = num_to_write avail ok events s"
  define s' where "s' = postEventsToMessageQueue avail ok now events num locked s"
  have F: "fmq s' = fmq s @ take k events" "in_flight s' = in_flight s" "quantumCount s' = quantumCount s"
    and P: "mPendingWriteEventsQueue s' = mPendingWriteEventsQueue s \<or>
      mPendingWriteEventsQueue s' = mPendingWriteEventsQueue s @ [(drop k events, num)]"
    using post_fields [OF k_def s'_def] by auto
  have qi: "sound s'"
    using sound_act [of s wk limit "Post avail ok now events num locked"] inv
    by (simp add: s'_def wrapper_inv_def)
  have "set (waiting s') \<subseteq> set (waiting s) \<union> set events"
    using P set_drop_subset [of k events] by (elim disjE) (auto simp: waiting_def)
  then have wait: "\<forall>e\<in>set (waiting s'). convertToAidlEvent n e \<noteq> None"
    using inv conv by (fastforce simp: wrapper_inv_def)
  show ?thesis
  proof (cases "mPendingWriteEventsQueue s = [] \<and> 0 < min (length events) avail")
    case False
    then have "k = 0" by (auto simp: k_def num_to_write_def Let_def)
    have "wrapper_inv n room (s', q)"
      using inv qi wait P F \<open>k = 0\<close> unfolding wrapper_inv_def sound_def queue_inv_def by (auto simp: Cons_eq_append_conv)
    with False show ?thesis by (auto simp: s'_def)
  next
    case True
    let ?k = "min (length events) avail"
    have "\<forall>e\<in>set (take ?k events). convertToAidlEvent n e \<noteq> None" using conv in_set_takeD by fast
    then obtain out where out: "converts n (take ?k events) out" using converts_exists by blast
    then have len: "length out = ?k" by (simp add: converts_length)
    have room: "?k \<le> length (aq_buffer q)" using inv assms(2) by (simp add: wrapper_inv_def)
    define q' where "q' = queue_accepts ok ?k (q\<lparr>aq_buffer := out @ drop ?k (aq_buffer q)\<rparr>)"
    have w: "aidl_write n ok events ?k q = Some q'"
      unfolding q'_def by (rule aidl_write_converted [OF out len room])
    have k: "k = (if ok then ?k else 0)" using True by (simp add: k_def num_to_write_def Let_def)
    have none: "in_flight s = None" using inv True by (auto simp: wrapper_inv_def sound_def queue_inv_def)
    have "aq_written q' = aq_written q @ (if ok then out else [])" "length (aq_buffer q') = room"
      using inv len room by (simp_all add: q'_def queue_accepts_def wrapper_inv_def)
    moreover have "converts n (fmq s') (aq_written q @ (if ok then out else []))"
      using inv out by (auto simp: F(1) k wrapper_inv_def intro: converts_append)
    ultimately have "wrapper_inv n room (s', q')"
      using inv qi wait F(2,3) none by (simp add: wrapper_inv_def)
    with True w show ?thesis by (simp add: s'_def Let_def)
  qed
qed

lemma write_begin_keeps_wrapper:
  assumes inv: "wrapper_inv n room (s, q)"
  shows "\<exists>q'. aidl_act n blank wk limit Write_begin (s, q) = Some (handlePendingWrites_begin s, q') \<and>
    wrapper_inv n room (handlePendingWrites_begin s, q')"
proof (cases "in_flight s = None \<and> mThreadsRun s \<and> mPendingWriteEventsQueue s \<noteq> []")
  case False
  then have same: "handlePendingWrites_begin s = s"
    by (auto simp: handlePendingWrites_begin_def split: list.splits)
  with False inv show ?thesis by (auto simp: Let_def split: option.split list.split)
next
  case True
  then obtain events num rest where p: "mPendingWriteEventsQueue s = (events, num) # rest"
    by (metis list.exhaust prod.exhaust)
  let ?k = "min (length events) (quantumCount s)"
  have b: "handlePendingWrites_begin s = s\<lparr>in_flight := Some ?k\<rparr>"
    using True by (simp add: handlePendingWrites_begin_def p)
  have "\<forall>e\<in>set (take ?k events). convertToAidlEvent n e \<noteq> None"
    using inv in_set_takeD [of _ ?k events] by (auto simp: wrapper_inv_def waiting_def p)
  then obtain out where out: "converts n (take ?k events) out" using converts_exists by blast
  then have len: "length out = ?k" by (simp add: converts_length)
  have room: "?k \<le> length (aq_buffer q)" 
    using inv le_trans [OF min.cobounded2 [of "length events" "quantumCount s"]]
    unfolding wrapper_inv_def by blast
  define q' where "q' = q\<lparr>aq_buffer := out @ drop ?k (aq_buffer q)\<rparr>"
  have w: "aidl_writeBlocking_begin n events ?k q = Some q'"
    using convert_into_fills [OF out, of 0 "aq_buffer q"] room
    by (simp add: aidl_writeBlocking_begin_def q'_def)
  have qi: "sound (s\<lparr>in_flight := Some ?k\<rparr>)"
    using sound_act [of s wk limit Write_begin] inv by (simp add: b wrapper_inv_def)
  have "wrapper_inv n room (s\<lparr>in_flight := Some ?k\<rparr>, q')"
    using inv qi room len out by (simp add: wrapper_inv_def q'_def p waiting_def)
  with True w show ?thesis by (simp add: b p Let_def)
qed

lemma write_end_keeps_wrapper:
  assumes inv: "wrapper_inv n room (s, q)"
  shows "\<exists>q'. aidl_act n blank wk limit (Write_end ok) (s, q) = Some (handlePendingWrites_end wk ok s, q') \<and>
    wrapper_inv n room (handlePendingWrites_end wk ok s, q')"
proof (cases "in_flight s")
  case None
  with inv show ?thesis by (simp add: write_end_idle)
next
  case (Some k)
  then obtain events num rest where p: "mPendingWriteEventsQueue s = (events, num) # rest"
      "k = min (length events) (quantumCount s)"
    using inv by (auto simp: wrapper_inv_def sound_def queue_inv_def)
  let ?s = "handlePendingWrites_end wk ok s" and ?q = "aidl_writeBlocking_end ok k q"
  note F = write_end_fields [OF Some p(1), of wk ok]
  have "sound ?s"
    using inv sound_act [of s wk limit "Write_end ok"] by (simp add: wrapper_inv_def)
  moreover have "converts n (take k events) (take k (aq_buffer q))"
    using inv Some p(1) by (simp add: wrapper_inv_def)
  then have "converts n (fmq ?s) (aq_written ?q)"
    using inv by (simp add: F(4) aidl_writeBlocking_end_def queue_accepts_def wrapper_inv_def converts_append)
  moreover have "set (waiting ?s) \<subseteq> set (waiting s)"
    by (auto simp: waiting_def F(1) p(1) dest: in_set_dropD)
  ultimately have "wrapper_inv n room (?s, ?q)"
    using inv F(3,6) by (auto simp: wrapper_inv_def aidl_writeBlocking_end_def queue_accepts_def)
  with Some show ?thesis by simp
qed

text \<open>The other actions leave the queue and the array alone; \<open>initialize\<close> drops what is pending.\<close>

lemma wakelock_acts_frame:
  assumes "a = Scoped_create t \<or> a = Scoped_destroy t \<or> a = Wakelocks t handled \<or> a = Stop_threads t"
  shows "mPendingWriteEventsQueue (act wk limit a s) = mPendingWriteEventsQueue s"
    and "fmq (act wk limit a s) = fmq s" "in_flight (act wk limit a s) = in_flight s"
    and "quantumCount (act wk limit a s) = quantumCount s"
  using assms wakelock_iteration_cases [of limit t handled s]
  by (auto simp: queue_frame new_ScopedWakelock_def case_prod_beta destroy_ScopedWakelock_def)

lemma restart_keeps_wrapper:
  assumes "wrapper_inv n room (s, q)" "length blank = room"
  shows "wrapper_inv n room
    (act wk limit (Restart now) s, if in_flight s \<noteq> None then q else q\<lparr>aq_buffer := blank\<rparr>)"
proof -
  have "sound (act wk limit (Restart now) s)"
    using assms(1) sound_act [of s wk limit "Restart now"] by (simp add: wrapper_inv_def)
  with assms show ?thesis
    by (cases "in_flight s")
      (simp_all add: wrapper_inv_def restart_queue_def waiting_def Let_def queue_frame)
qed

lemma aidl_act_keeps:
  assumes "wrapper_inv n room (s, q)" "post_fits n room a" "length blank = room"
  shows "\<exists>q'. aidl_act n blank wk limit a (s, q) = Some (act wk limit a s, q') \<and>
    wrapper_inv n room (act wk limit a s, q')"
proof -
  have other: "wrapper_inv n room (act wk limit a s, q)"
    if "a = Scoped_create t \<or> a = Scoped_destroy t \<or> a = Wakelocks t handled \<or> a = Stop_threads t"
    for t handled
    by (rule wrapper_inv_frame [OF assms(1) sound_act wakelock_acts_frame [OF that]])
      (use assms(1) in \<open>simp add: wrapper_inv_def\<close>)
  show ?thesis
  proof (cases a)
    case (Post avail ok now events num locked)
    with assms(2) show ?thesis
      by (auto simp: post_fits_def list_all_iff simp del: aidl_act.simps act.simps
          intro!: post_keeps_wrapper [OF assms(1)])
  next
    case Write_begin
    with write_begin_keeps_wrapper [OF assms(1)] show ?thesis by (simp del: aidl_act.simps)
  next
    case (Write_end ok)
    with write_end_keeps_wrapper [OF assms(1)] show ?thesis by (simp del: aidl_act.simps)
  next
    case (Restart now)
    with restart_keeps_wrapper [OF assms(1,3), of wk limit now] show ?thesis by simp
  qed (use other in \<open>simp_all del: act.simps\<close>)
qed

lemma aidl_run_keeps:
  "wrapper_inv n room (s, q) \<Longrightarrow> list_all (post_fits n room) acts \<Longrightarrow> length blank = room \<Longrightarrow>
   \<exists>q'. aidl_run n blank wk limit acts (s, q) = Some (run wk limit acts s, q') \<and>
     wrapper_inv n room (run wk limit acts s, q')"
proof (induction acts arbitrary: s q)
  case (Cons a acts)
  then obtain q1 where "aidl_act n blank wk limit a (s, q) = Some (act wk limit a s, q1)"
      "wrapper_inv n room (act wk limit a s, q1)"
    using aidl_act_keeps [of n room s q a blank wk limit] by auto
  with Cons show ?case by (simp add: run_def)
qed (simp add: run_def)



definition step_event :: "int \<Rightarrow> hidl_event" where
  "step_event t = \<lparr> ev_timestamp = t, ev_handle = 1, ev_type = SENSOR_TYPE_STEP_COUNTER,
     ev_u = StepCount 7 \<rparr>"

definition blank_event :: aidl_event where
  "blank_event = \<lparr> ae_timestamp = 0, ae_sensorHandle = 0, ae_sensorType = 0, ae_payload = AStepCount 0 \<rparr>"

definition crowded :: "hidl_event action list" where
  "crowded = [Post 1 True 0 [step_event 1, step_event 2, step_event 3] 0 False, Write_begin,
     Post 2 True 0 [step_event 4] 0 False, Write_end True, Write_begin, Write_end True]"

lemma step_event_converts:
  "convertToAidlEvent n (step_event t) = Some \<lparr> ae_timestamp = t, ae_sensorHandle = 1,
     ae_sensorType = SENSOR_TYPE_STEP_COUNTER, ae_payload = AStepCount 7 \<rparr>"
  by (simp add: convertToAidlEvent_def step_event_def to_aidl_payload_def member_of_def)


end
