(* ===== verification/Sensors_Hal.thy ===== *)
theory Sensors_Hal
  imports Hal_Sensor Hal_Proxy
begin

text \<open>
  The HAL objects that own the sensors: \<open>Sensors\<close> of \<open>2.X/Sensors.h\<close>, \<open>SensorsHalAidl\<close> of
  \<open>aidl\<close>, and the sub-HAL \<open>ISensorsSubHalBase\<close> of \<open>multihal/SensorsSubHal.cpp\<close>.  All three hold
  an ordered map from handles to sensors and pass each call to the sensor that the handle names;
  the first two also keep the wake lock of the events that the framework has not handled.  The
  sub-HAL is an instance of the record of functions that the proxy calls, and of the locale
  \<open>mode_switch\<close>.  Memory that the code leaves uninitialised (the time stamp of a flush event) and
  the answers of the platform (message queues, event flags, the power library) are arguments.
\<close>

section \<open>The sensors of a HAL\<close>

record sensor_map =
  sm_sensors :: "sensor handle_map"
  sm_mNextHandle :: handle

definition AddSensor ::
    "(handle \<Rightarrow> sensor) \<Rightarrow> 'x sensor_map_scheme \<Rightarrow> 'x sensor_map_scheme" where
  "AddSensor sensor_at s =
     (let sensor = sensor_at (sm_mNextHandle s) in
      s\<lparr>sm_mNextHandle := sm_mNextHandle s + 1,
        sm_sensors := map_put (si_handle (mSensorInfo sensor)) sensor (sm_sensors s)\<rparr>)"

text \<open>A call on the sensor that \<open>find\<close> yields, or the answer \<open>bad\<close>.\<close>

definition on_sensor ::
    "'r \<Rightarrow> handle \<Rightarrow> (sensor \<Rightarrow> 'r \<times> sensor) \<Rightarrow> 'x sensor_map_scheme \<Rightarrow>
      'r \<times> 'x sensor_map_scheme" where
  "on_sensor bad h call s = (case map_of (sm_sensors s) h of
     None \<Rightarrow> (bad, s)
   | Some sensor \<Rightarrow> (case call sensor of
       (r, sensor') \<Rightarrow> (r, s\<lparr>sm_sensors := map_put h sensor' (sm_sensors s)\<rparr>)))"

text \<open>The sensor map: keys in order, every sensor under its own handle.\<close>

definition sensor_map_inv :: "'x sensor_map_scheme \<Rightarrow> bool" where
  "sensor_map_inv s \<longleftrightarrow> map_keys_sorted (sm_sensors s) \<and>
     (\<forall>h sn. map_of (sm_sensors s) h = Some sn \<longrightarrow>
        si_handle (mSensorInfo sn) = h \<and> sane_info (mSensorInfo sn))"

definition keeps_info :: "(sensor \<Rightarrow> 'r \<times> sensor) \<Rightarrow> bool" where
  "keeps_info call \<longleftrightarrow> (\<forall>sn. mSensorInfo (snd (call sn)) = mSensorInfo sn)"

lemma on_sensor_inv:
  assumes "sensor_map_inv s" "keeps_info call"
  shows "sensor_map_inv (snd (on_sensor bad h call s))"
proof (cases "map_of (sm_sensors s) h")
  case None
  with assms show ?thesis by (simp add: on_sensor_def)
next
  case (Some sn)
  with assms show ?thesis
    by (simp add: sensor_map_inv_def on_sensor_def keeps_info_def map_keys_sorted_put
        handle_map_simps split_beta)
qed

lemma on_sensor_lookup:
  "map_of (sm_sensors (snd (on_sensor bad h call s))) h' =
     (if h' = h then map_option (\<lambda>sn. snd (call sn)) (map_of (sm_sensors s) h)
      else map_of (sm_sensors s) h')"
  by (simp add: on_sensor_def handle_map_simps split: option.split prod.split)

lemma on_sensor_answer:
  "fst (on_sensor bad h call s) =
     (case map_of (sm_sensors s) h of None \<Rightarrow> bad | Some sn \<Rightarrow> fst (call sn))"
  by (simp add: on_sensor_def split: option.split prod.split)

section \<open>The wake lock\<close>

record sensors_hal = sensor_map +
  hal_mEventQueue :: bool
  hal_mEventQueueFlag :: bool
  hal_mCallback :: bool
  mOutstandingWakeUpEvents :: u32
  mReadWakeLockQueueRun :: bool
  mWakeLockThread :: bool
  mAutoReleaseWakeLockTime :: int
  mHasWakeLock :: bool
  hal_fmq :: "rat event list"

text \<open>\<open>t\<close> and \<open>t'\<close> are the two readings of the clock in milliseconds, \<open>secs\<close> is
  \<open>WAKE_LOCK_SECONDS\<close>, \<open>acquire\<close> and \<open>release\<close> whether the power library succeeds.\<close>

definition updateWakeLock ::
    "nat \<Rightarrow> bool \<Rightarrow> bool \<Rightarrow> 32 word \<Rightarrow> 32 word \<Rightarrow> int \<Rightarrow> int \<Rightarrow> sensors_hal \<Rightarrow> sensors_hal" where
  "updateWakeLock secs acquire release eventsWritten eventsHandled t t' s =
     (let newVal = mOutstandingWakeUpEvents s + eventsWritten - eventsHandled;
          s1 = s\<lparr>mOutstandingWakeUpEvents := (if sint newVal < 0 then 0 else newVal)\<rparr>;
          s2 = (if 0 < sint eventsWritten
                then s1\<lparr>mAutoReleaseWakeLockTime := t + int secs * 1000\<rparr> else s1)
      in if \<not> mHasWakeLock s2 \<and> mOutstandingWakeUpEvents s2 > 0 \<and> acquire
         then s2\<lparr>mHasWakeLock := True\<rparr>
         else if mHasWakeLock s2
         then let s3 = (if t' > mAutoReleaseWakeLockTime s2
                        then s2\<lparr>mOutstandingWakeUpEvents := 0\<rparr> else s2)
           in (if mOutstandingWakeUpEvents s3 = 0 \<and> release then s3\<lparr>mHasWakeLock := False\<rparr> else s3)
         else s2)"

text \<open>One pass of \<open>readWakeLockFMQ\<close>: \<open>readBlocking\<close> leaves 0 when it times out.\<close>

definition readWakeLockFMQ_pass ::
    "nat \<Rightarrow> bool \<Rightarrow> bool \<Rightarrow> 32 word option \<Rightarrow> int \<Rightarrow> int \<Rightarrow> sensors_hal \<Rightarrow> sensors_hal" where
  "readWakeLockFMQ_pass secs acquire release message t t' s =
     (if mReadWakeLockQueueRun s
      then updateWakeLock secs acquire release 0
        (case message of None \<Rightarrow> 0 | Some eventsHandled \<Rightarrow> eventsHandled) t t' s
      else s)"

text \<open>\<open>None\<close> is the use of a null pointer: \<open>mEventQueue\<close> before \<open>initialize\<close> (the AIDL HAL tests
  it), the event flag when its creation has failed, or \<open>front\<close> of an empty vector.\<close>

definition postEvents_2X ::
    "nat \<Rightarrow> bool \<Rightarrow> bool \<Rightarrow> bool \<Rightarrow> rat event list \<Rightarrow> bool \<Rightarrow> int \<Rightarrow> int \<Rightarrow> sensors_hal \<Rightarrow>
      sensors_hal option" where
  "postEvents_2X secs acquire release write_ok events wakeup t t' s =
     (if \<not> hal_mEventQueue s then None
      else if write_ok then
        (if \<not> hal_mEventQueueFlag s then None
         else let s' = s\<lparr>hal_fmq := hal_fmq s @ events\<rparr> in
           Some (if wakeup
             then updateWakeLock secs acquire release (of_nat (length events)) 0 t t' s' else s'))
      else Some s)"

definition postEvents_aidl ::
    "nat \<Rightarrow> bool \<Rightarrow> bool \<Rightarrow> bool \<Rightarrow> rat event list \<Rightarrow> bool \<Rightarrow> int \<Rightarrow> int \<Rightarrow> sensors_hal \<Rightarrow>
      sensors_hal option" where
  "postEvents_aidl secs acquire release write_ok events wakeup t t' s =
     (if \<not> hal_mEventQueue s then Some s
      else if events = [] then None
      else if write_ok then
        (if \<not> hal_mEventQueueFlag s then None
         else let s' = s\<lparr>hal_fmq := hal_fmq s @ events\<rparr> in
           Some (if wakeup
             then updateWakeLock secs acquire release (of_nat (length events)) 0 t t' s' else s'))
      else Some s)"

section \<open>Construction, initialisation and destruction\<close>

definition new_sensors_hal :: sensors_hal where
  "new_sensors_hal = AddSensor Smi240Gyro (AddSensor Smi240Accel
     \<lparr> sm_sensors = [], sm_mNextHandle = 1, hal_mEventQueue = False, hal_mEventQueueFlag = False,
       hal_mCallback = False, mOutstandingWakeUpEvents = 0, mReadWakeLockQueueRun = False,
       mWakeLockThread = False, mAutoReleaseWakeLockTime = 0, mHasWakeLock = False, hal_fmq = [] \<rparr>)"

definition disable_all :: "'x sensor_map_scheme \<Rightarrow> 'x sensor_map_scheme" where
  "disable_all s =
     s\<lparr>sm_sensors := map (\<lambda>e. (fst e, sensor_activate False (snd e))) (sm_sensors s)\<rparr>"

text \<open>Assigning a thread to an object that still owns one ends the process: \<open>None\<close>.  \<open>created\<close> and
  \<open>flag\<close> are the status and the pointer that \<open>createEventFlag\<close> yields.\<close>

definition initializeBase :: "bool \<Rightarrow> bool \<Rightarrow> bool \<Rightarrow> sensors_hal \<Rightarrow> (result \<times> sensors_hal) option" where
  "initializeBase created flag callback s =
     (let s1 = disable_all s;
          s2 = (if mReadWakeLockQueueRun s1
                then s1\<lparr>mReadWakeLockQueueRun := False, mWakeLockThread := False\<rparr> else s1);
          s3 = s2\<lparr>hal_mCallback := callback, hal_mEventQueue := True, hal_mEventQueueFlag := flag\<rparr>;
          result1 = (if \<not> created then BAD_VALUE else OK);
          result2 = (if \<not> hal_mCallback s3 \<or> \<not> hal_mEventQueueFlag s3 then BAD_VALUE else result1)
      in if mWakeLockThread s3 then None
         else Some (result2, s3\<lparr>mReadWakeLockQueueRun := True, mWakeLockThread := True\<rparr>))"

definition initialize_aidl :: "bool \<Rightarrow> bool \<Rightarrow> bool \<Rightarrow> sensors_hal \<Rightarrow> (status \<times> sensors_hal) option" where
  "initialize_aidl created flag callback s =
     (let s1 = disable_all (s\<lparr>hal_mEventQueue := True\<rparr>);
          s2 = (if mReadWakeLockQueueRun s1
                then s1\<lparr>mReadWakeLockQueueRun := False, mWakeLockThread := False\<rparr> else s1);
          s3 = s2\<lparr>hal_mCallback := callback, hal_mEventQueueFlag := flag\<rparr>;
          result1 = (if \<not> created then EX_ILLEGAL_ARGUMENT else S_OK);
          result2 = (if \<not> hal_mCallback s3 \<or> \<not> hal_mEventQueueFlag s3
                     then EX_ILLEGAL_ARGUMENT else result1)
      in if mWakeLockThread s3 then None
         else Some (result2, s3\<lparr>mReadWakeLockQueueRun := True, mWakeLockThread := True\<rparr>))"

text \<open>\<open>join\<close> on an object without a thread throws, which in a destructor ends the process.\<close>

definition destroy_sensors_hal :: "sensors_hal \<Rightarrow> sensors_hal option" where
  "destroy_sensors_hal s =
     (let s' = s\<lparr>hal_mEventQueueFlag := False, mReadWakeLockQueueRun := False\<rparr> in
      if mWakeLockThread s' then Some (s'\<lparr>mWakeLockThread := False\<rparr>) else None)"

section \<open>The calls of the framework\<close>

definition activate_2X :: "handle \<Rightarrow> bool \<Rightarrow> 'x sensor_map_scheme \<Rightarrow> result \<times> 'x sensor_map_scheme" where
  "activate_2X sensorHandle enabled =
     on_sensor BAD_VALUE sensorHandle (\<lambda>sn. (OK, sensor_activate enabled sn))"

definition activate_aidl :: "handle \<Rightarrow> bool \<Rightarrow> 'x sensor_map_scheme \<Rightarrow> status \<times> 'x sensor_map_scheme" where
  "activate_aidl sensorHandle enabled =
     on_sensor EX_ILLEGAL_ARGUMENT sensorHandle (\<lambda>sn. (S_OK, sensor_activate enabled sn))"

definition batch_2X ::
    "handle \<Rightarrow> int \<Rightarrow> int \<Rightarrow> 'x sensor_map_scheme \<Rightarrow> result \<times> 'x sensor_map_scheme" where
  "batch_2X sensorHandle samplingPeriodNs maxReportLatencyNs =
     on_sensor BAD_VALUE sensorHandle (\<lambda>sn. (OK, sensor_batch_2X samplingPeriodNs sn))"

definition batch_aidl ::
    "handle \<Rightarrow> int \<Rightarrow> int \<Rightarrow> 'x sensor_map_scheme \<Rightarrow> status \<times> 'x sensor_map_scheme" where
  "batch_aidl sensorHandle samplingPeriodNs maxReportLatencyNs =
     on_sensor EX_ILLEGAL_ARGUMENT sensorHandle (\<lambda>sn. (S_OK, sensor_batch_aidl samplingPeriodNs sn))"

text \<open>The answer of \<open>flush\<close>, and what it gives to \<open>postEvents\<close>; \<open>stale\<close> is the time stamp that
  the event happens to hold.\<close>

definition flush_2X ::
    "int \<Rightarrow> handle \<Rightarrow> 'x sensor_map_scheme \<Rightarrow> (result \<times> post list) \<times> 'x sensor_map_scheme" where
  "flush_2X stale sensorHandle =
     on_sensor (BAD_VALUE, []) sensorHandle (\<lambda>sn. (sensor_flush stale sn, sn))"

definition flush_aidl ::
    "int \<Rightarrow> handle \<Rightarrow> 'x sensor_map_scheme \<Rightarrow> (status \<times> post list) \<times> 'x sensor_map_scheme" where
  "flush_aidl stale sensorHandle =
     on_sensor (EX_ILLEGAL_ARGUMENT, []) sensorHandle (\<lambda>sn. (sensor_flush_aidl stale sn, sn))"

definition injectSensorData_2X ::
    "(rat event \<Rightarrow> rat event) \<Rightarrow> rat event \<Rightarrow> 'x sensor_map_scheme \<Rightarrow>
      result \<times> 'x sensor_map_scheme" where
  "injectSensorData_2X convertToNewEvent event =
     on_sensor BAD_VALUE (ev_handle event)
       (\<lambda>sn. (sensor_injectEvent (convertToNewEvent event) sn, sn))"

definition injectSensorData_aidl ::
    "rat event \<Rightarrow> 'x sensor_map_scheme \<Rightarrow> status \<times> 'x sensor_map_scheme" where
  "injectSensorData_aidl event =
     on_sensor ERROR_BAD_VALUE (ev_handle event) (\<lambda>sn. (sensor_injectEvent_aidl event sn, sn))"

text \<open>The answer of the last sensor counts.\<close>

definition setOperationMode_2X :: "operation_mode \<Rightarrow> 'x sensor_map_scheme \<Rightarrow> result" where
  "setOperationMode_2X mode s =
     fold (\<lambda>e res. sensor_setOperationMode_2X mode (snd e)) (sm_sensors s) OK"

definition setOperationMode_aidl :: "operation_mode \<Rightarrow> 'x sensor_map_scheme \<Rightarrow> status" where
  "setOperationMode_aidl mode s =
     fold (\<lambda>e res. sensor_setOperationMode_aidl mode (snd e)) (sm_sensors s) S_OK"

definition hal_getSensorsList :: "'x sensor_map_scheme \<Rightarrow> sensor_info list" where
  "hal_getSensorsList s = map (\<lambda>e. mSensorInfo (snd e)) (sm_sensors s)"

text \<open>\<open>getSensorsList\<close> of the 2.1 service, for clients of version 2.0.\<close>

definition hal_getSensorsList_old :: "(sensor_info \<Rightarrow> 'i) \<Rightarrow> 'x sensor_map_scheme \<Rightarrow> 'i list" where
  "hal_getSensorsList_old convertToOldSensorInfo s =
     map convertToOldSensorInfo
       (filter (\<lambda>i. si_type i \<noteq> SENSOR_TYPE_HINGE_ANGLE) (hal_getSensorsList s))"

definition registerDirectChannel_2X :: "result \<times> int" where
  "registerDirectChannel_2X = (INVALID_OPERATION, -1)"

definition unregisterDirectChannel_2X :: result where
  "unregisterDirectChannel_2X = INVALID_OPERATION"

definition configDirectReport_2X :: "result \<times> int" where
  "configDirectReport_2X = (INVALID_OPERATION, 0)"

section \<open>The sub-HAL\<close>

definition new_bosch_subhal :: sensor_map where
  "new_bosch_subhal = AddSensor Smi240Gyro (AddSensor Smi240Accel
     \<lparr> sm_sensors = [], sm_mNextHandle = 1 \<rparr>)"

definition subhal_setOperationMode :: "operation_mode \<Rightarrow> 'x sensor_map_scheme \<Rightarrow> result \<times> 'x sensor_map_scheme" where
  "subhal_setOperationMode mode s = (if mode = NORMAL then OK else BAD_VALUE, s)"

definition subhal_activate :: "handle \<Rightarrow> bool \<Rightarrow> 'x sensor_map_scheme \<Rightarrow> result \<times> 'x sensor_map_scheme" where
  "subhal_activate sensorHandle enabled =
     on_sensor BAD_VALUE sensorHandle (\<lambda>sn. (OK, sensor_activate enabled sn))"

definition subhal_batch :: "handle \<Rightarrow> int \<Rightarrow> int \<Rightarrow> 'x sensor_map_scheme \<Rightarrow> result \<times> 'x sensor_map_scheme" where
  "subhal_batch sensorHandle samplingPeriodNs maxReportLatencyNs =
     on_sensor BAD_VALUE sensorHandle (\<lambda>sn. (OK, sensor_batch_multihal samplingPeriodNs sn))"

definition subhal_flush ::
    "int \<Rightarrow> handle \<Rightarrow> 'x sensor_map_scheme \<Rightarrow> (result \<times> post list) \<times> 'x sensor_map_scheme" where
  "subhal_flush stale sensorHandle =
     on_sensor (BAD_VALUE, []) sensorHandle (\<lambda>sn. (sensor_flush stale sn, sn))"

definition subhal_injectSensorData :: "rat event \<Rightarrow> 'x sensor_map_scheme \<Rightarrow> result \<times> 'x sensor_map_scheme" where
  "subhal_injectSensorData event =
     on_sensor BAD_VALUE (ev_handle event) (\<lambda>sn. (sensor_injectEvent event sn, sn))"

definition subhal_registerDirectChannel :: "shared_mem_info \<Rightarrow> 'x sensor_map_scheme \<Rightarrow> (result \<times> int) \<times> 'x sensor_map_scheme" where
  "subhal_registerDirectChannel mem s = ((INVALID_OPERATION, -1), s)"

definition subhal_unregisterDirectChannel :: "int \<Rightarrow> 'x sensor_map_scheme \<Rightarrow> result \<times> 'x sensor_map_scheme" where
  "subhal_unregisterDirectChannel channelHandle s = (INVALID_OPERATION, s)"

definition subhal_configDirectReport ::
    "handle \<Rightarrow> int \<Rightarrow> rate_level \<Rightarrow> 'x sensor_map_scheme \<Rightarrow> (result \<times> int) \<times> 'x sensor_map_scheme" where
  "subhal_configDirectReport sensorHandle channelHandle rate s = ((INVALID_OPERATION, 0), s)"

definition bosch_ops :: "int \<Rightarrow> 'x sensor_map_scheme subhal_ops" where
  "bosch_ops stale = \<lparr> sh_getSensorsList = hal_getSensorsList,
     sh_setOperationMode = subhal_setOperationMode, sh_activate = subhal_activate,
     sh_batch = subhal_batch, sh_flush = subhal_flush stale,
     sh_injectSensorData = subhal_injectSensorData,
     sh_registerDirectChannel = subhal_registerDirectChannel,
     sh_unregisterDirectChannel = subhal_unregisterDirectChannel,
     sh_configDirectReport = subhal_configDirectReport \<rparr>"

text \<open>The sub-HAL has one mode only: it never leaves \<open>NORMAL\<close>.\<close>

interpretation bosch: mode_switch subhal_setOperationMode "\<lambda>_. NORMAL"
  by unfold_locales (auto simp: subhal_setOperationMode_def split: if_splits)

section \<open>The HALs keep their sensors\<close>

lemma AddSensor_inv:
  assumes "sensor_map_inv s"
    and "si_handle (mSensorInfo (sensor_at (sm_mNextHandle s))) = sm_mNextHandle s"
    and "sane_info (mSensorInfo (sensor_at (sm_mNextHandle s)))"
  shows "sensor_map_inv (AddSensor sensor_at s)"
  using assms
  by (simp add: sensor_map_inv_def AddSensor_def Let_def map_keys_sorted_put handle_map_simps)

lemma sensors_sane [simp]:
  "si_handle (mSensorInfo (Smi240Accel h)) = h" "si_handle (mSensorInfo (Smi240Gyro h)) = h"
  "sane_info (mSensorInfo (Smi240Accel h))" "sane_info (mSensorInfo (Smi240Gyro h))"
  by (simp_all add: Smi240Accel_def Smi240Gyro_def new_Sensor_def sane_info_def)

lemma new_hals_inv: "sensor_map_inv new_sensors_hal" "sensor_map_inv new_bosch_subhal"
  unfolding new_sensors_hal_def new_bosch_subhal_def
  by (intro AddSensor_inv; simp add: sensor_map_inv_def)+

lemma new_hals_sensors:
  "sm_sensors new_sensors_hal = [(1, Smi240Accel 1), (2, Smi240Gyro 2)]"
  "sm_sensors new_bosch_subhal = [(1, Smi240Accel 1), (2, Smi240Gyro 2)]"
  by (simp_all add: new_sensors_hal_def new_bosch_subhal_def AddSensor_def)

lemma calls_keep_info [simp]:
  "keeps_info (\<lambda>sn. (r, sensor_activate e sn))" "keeps_info (\<lambda>sn. (r, sensor_batch_multihal p sn))"
  "keeps_info (\<lambda>sn. (q sn, sn))"
  by (simp_all add: keeps_info_def sensor_activate_def sensor_batch_multihal_def set_period_def)

lemmas hal_call_defs = activate_2X_def activate_aidl_def batch_2X_def batch_aidl_def flush_2X_def
  flush_aidl_def injectSensorData_2X_def injectSensorData_aidl_def sensor_batch_same

lemma on_sensor_corresponds:
  assumes "\<And>sn. snd (call sn) = snd (call' sn)"
  shows "snd (on_sensor bad h call s) = snd (on_sensor bad' h call' s)"
  using assms by (simp add: on_sensor_def split_beta split: option.split)

lemma mode_answers:
  "setOperationMode_2X mode s = (if mode = NORMAL \<or> sm_sensors s = [] then OK else BAD_VALUE)"
  "setOperationMode_aidl mode s =
     (if mode = NORMAL \<or> sm_sensors s = [] then S_OK else EX_ILLEGAL_ARGUMENT)"
  unfolding setOperationMode_2X_def setOperationMode_aidl_def
  by (cases "sm_sensors s" rule: rev_cases;
      simp add: sensor_setOperationMode_2X_def sensor_setOperationMode_aidl_def)+

text \<open>The HIDL and the AIDL service agree on activate, batch, flush, setOperationMode and
  initialize: the same new state, the same posted events, and success of one exactly when
  the other succeeds.\<close>

theorem hals_answer_alike:
  "snd (activate_2X h e s) = snd (activate_aidl h e s) \<and>
   (fst (activate_2X h e s) = OK) = (fst (activate_aidl h e s) = S_OK) \<and>
   snd (batch_2X h p l s) = snd (batch_aidl h p l s) \<and>
   (fst (batch_2X h p l s) = OK) = (fst (batch_aidl h p l s) = S_OK) \<and>
   snd (fst (flush_2X t h s)) = snd (fst (flush_aidl t h s)) \<and>
   (fst (fst (flush_2X t h s)) = OK) = (fst (fst (flush_aidl t h s)) = S_OK) \<and>
   (setOperationMode_2X m s = OK) = (setOperationMode_aidl m s = S_OK) \<and>
   map_option snd (initializeBase created flag callback hal) =
     map_option snd (initialize_aidl created flag callback hal)"
proof (intro conjI)
  show "snd (activate_2X h e s) = snd (activate_aidl h e s)"
    "snd (batch_2X h p l s) = snd (batch_aidl h p l s)"
    unfolding hal_call_defs by (rule on_sensor_corresponds; simp)+
  show "(fst (activate_2X h e s) = OK) = (fst (activate_aidl h e s) = S_OK)"
    "(fst (batch_2X h p l s) = OK) = (fst (batch_aidl h p l s) = S_OK)"
    "snd (fst (flush_2X t h s)) = snd (fst (flush_aidl t h s))"
    "(fst (fst (flush_2X t h s)) = OK) = (fst (fst (flush_aidl t h s)) = S_OK)"
    by (simp_all add: hal_call_defs on_sensor_answer sensor_flush_def sensor_flush_aidl_def
        split: option.split)
  show "(setOperationMode_2X m s = OK) = (setOperationMode_aidl m s = S_OK)"
    by (simp add: mode_answers)
  show "map_option snd (initializeBase created flag callback hal) =
      map_option snd (initialize_aidl created flag callback hal)"
    by (simp add: initializeBase_def initialize_aidl_def disable_all_def Let_def)
qed

section \<open>The wake lock counts the events that are not handled\<close>

text \<open>The specification: a counter with truncated subtraction and a deadline; past the deadline a
  held lock is given up.\<close>

fun counter_step :: "nat \<Rightarrow> nat \<times> nat \<times> int \<times> int \<Rightarrow> nat \<times> int \<Rightarrow> nat \<times> int" where
  "counter_step secs (w, h, t, t') (c, d) =
     (let d' = (if 0 < w then t + int secs * 1000 else d) in
      (if 0 < c \<and> d' < t' then 0 else c + w - h, d'))"

fun update_step :: "nat \<Rightarrow> nat \<times> nat \<times> int \<times> int \<Rightarrow> sensors_hal \<Rightarrow> sensors_hal" where
  "update_step secs (w, h, t, t') s = updateWakeLock secs True True (of_nat w) (of_nat h) t t' s"

definition lock_counter :: "sensors_hal \<Rightarrow> nat \<times> int" where
  "lock_counter s = (unat (mOutstandingWakeUpEvents s), mAutoReleaseWakeLockTime s)"

definition lock_exact :: "sensors_hal \<Rightarrow> bool" where
  "lock_exact s \<longleftrightarrow> (mHasWakeLock s \<longleftrightarrow> 0 < mOutstandingWakeUpEvents s)"

lemma updateWakeLock_exact: "lock_exact (updateWakeLock secs True True w h t t' s)"
  by (simp add: lock_exact_def updateWakeLock_def Let_def word_gt_0)

lemma sint_of_int_range: "int32_range i \<Longrightarrow> sint (word_of_int i :: 32 word) = i"
  using to_int32_range [of i] by (simp add: to_int32_def)

lemma sint_of_small: "n < 2 ^ 31 \<Longrightarrow> sint (of_nat n :: 32 word) = int n"
  using sint_of_int_range [of "int n"] by (simp add: int32_range_def)

lemma truncated_difference:
  fixes c :: u32
  assumes "unat c + w < 2 ^ 31" "h < 2 ^ 31"
  shows "unat (if sint (c + of_nat w - of_nat h) < 0 then 0 else c + of_nat w - of_nat h) =
    unat c + w - h"
proof -
  have c: "c = of_nat (unat c)" by simp
  have e: "c + of_nat w - of_nat h = (of_int (int (unat c + w) - int h) :: u32)"
    by (subst c) simp
  obtain n where n: "unat c + w = n" by blast
  have "int32_range (int n - int h)"
    using assms unfolding n by (simp add: int32_range_def)
  then have sint: "sint (c + of_nat w - of_nat h) = int (unat c + w) - int h"
    unfolding e n by (rule sint_of_int_range)
  show ?thesis
  proof (cases "h \<le> unat c + w")
    case True
    have "c + of_nat w - of_nat h = (of_nat (unat c + w - h) :: u32)"
      by (subst c) (simp add: True)
    moreover have "unat (of_nat (unat c + w - h) :: u32) = unat c + w - h"
      using assms by (simp add: unat_of_nat take_bit_nat_eq_self)
    moreover have "\<not> sint (c + of_nat w - of_nat h) < 0"
      unfolding sint using True by linarith
    ultimately show ?thesis by (simp only: if_False)
  next
    case False
    then have "sint (c + of_nat w - of_nat h) < 0" "unat c + w - h = 0"
      unfolding sint by linarith+
    then show ?thesis by (simp only: if_True unat_0)
  qed
qed

lemma updateWakeLock_refines:
  assumes "lock_exact s" "fst (lock_counter s) + w < 2 ^ 31" "h < 2 ^ 31"
  shows "lock_counter (update_step secs (w, h, t, t') s) =
    counter_step secs (w, h, t, t') (lock_counter s)"
proof -
  obtain W H :: "32 word" where W: "of_nat w = W" and H: "of_nat h = H" by simp
  define v where "v = (if sint (mOutstandingWakeUpEvents s + W - H) < 0 then 0
    else mOutstandingWakeUpEvents s + W - H)"
  have v: "unat v = unat (mOutstandingWakeUpEvents s) + w - h"
    unfolding v_def W [symmetric] H [symmetric]
    by (rule truncated_difference) (use assms in \<open>simp_all add: lock_counter_def\<close>)
  have written: "0 < sint W \<longleftrightarrow> 0 < w"
    using assms(2) sint_of_small [of w] by (simp add: W [symmetric])
  have held: "mHasWakeLock s \<longleftrightarrow> 0 < unat (mOutstandingWakeUpEvents s)"
    using assms(1) by (simp add: lock_exact_def word_gt_0 unat_gt_0)
  show ?thesis
    unfolding update_step.simps W H updateWakeLock_def v_def [symmetric] Let_def
    using v held written by (auto simp: lock_counter_def word_gt_0)
qed

lemma counter_step_bound: "fst (counter_step secs (w, h, t, t') (c, d)) \<le> c + w"
  by (simp add: Let_def)



text \<open>A pass of the reader thread past the deadline gives the lock up, whatever it has read.\<close>

lemma reader_pass_past_deadline:
  assumes "mReadWakeLockQueueRun s" "mHasWakeLock s" "mAutoReleaseWakeLockTime s < t'"
  shows "\<not> mHasWakeLock (readWakeLockFMQ_pass secs True True m t t' s)"
  using assms by (simp add: readWakeLockFMQ_pass_def updateWakeLock_def Let_def)

section \<open>The life of a HAL\<close>

definition life_inv :: "sensors_hal \<Rightarrow> bool" where
  "life_inv s \<longleftrightarrow> (mReadWakeLockQueueRun s \<longleftrightarrow> mWakeLockThread s) \<and>
     (hal_mEventQueue s \<longleftrightarrow> mWakeLockThread s) \<and> (hal_mEventQueueFlag s \<longrightarrow> hal_mEventQueue s)"

lemma updateWakeLock_keeps:
  "sensor_map.truncate (updateWakeLock secs a r w h t t' s) = sensor_map.truncate s"
  "mReadWakeLockQueueRun (updateWakeLock secs a r w h t t' s) = mReadWakeLockQueueRun s"
  "mWakeLockThread (updateWakeLock secs a r w h t t' s) = mWakeLockThread s"
  "hal_mEventQueue (updateWakeLock secs a r w h t t' s) = hal_mEventQueue s"
  "hal_mEventQueueFlag (updateWakeLock secs a r w h t t' s) = hal_mEventQueueFlag s"
  "hal_fmq (updateWakeLock secs a r w h t t' s) = hal_fmq s"
  by (simp_all add: updateWakeLock_def sensor_map.truncate_def Let_def)

lemma life_inv_initial: "life_inv new_sensors_hal"
  by (simp add: life_inv_def new_sensors_hal_def AddSensor_def Let_def)

lemma life_inv_initialize:
  assumes "life_inv s"
  shows "\<exists>r s'. initializeBase created flag callback s = Some (r, s') \<and> life_inv s' \<and>
    mWakeLockThread s' \<and> (r = OK \<longleftrightarrow> created \<and> flag \<and> callback) \<and> hal_mEventQueueFlag s' = flag"
  using assms
  by (cases flag; cases callback; simp add: life_inv_def initializeBase_def disable_all_def Let_def)

lemma life_inv_updateWakeLock:
  "life_inv (updateWakeLock secs a r w h t t' s) = life_inv s"
  by (simp add: life_inv_def updateWakeLock_keeps)

text \<open>The destructor of an object that was never initialised joins a thread that does not exist.\<close>

lemma destroy_needs_thread: "destroy_sensors_hal s \<noteq> None \<longleftrightarrow> mWakeLockThread s"
  by (simp add: destroy_sensors_hal_def Let_def)

lemma destroy_without_initialize: "destroy_sensors_hal new_sensors_hal = None"
  by (simp add: destroy_sensors_hal_def new_sensors_hal_def AddSensor_def Let_def)

text \<open>After an initialisation that answers OK no post uses a null pointer, a successful write is in
  the message queue, and its wake-up events are counted.\<close>

text \<open>After an initialize that answers OK no post uses a null pointer, the HIDL and AIDL
  versions do the same, written events are appended to the message queue and wake-up posts
  leave the lock exact.\<close>

theorem posts_after_initialize:
  assumes "life_inv s" "initializeBase created flag callback s = Some (OK, s0)" "events \<noteq> []"
  shows "\<exists>s1. postEvents_2X secs True True write_ok events wakeup t t' s0 = Some s1 \<and>
    postEvents_aidl secs True True write_ok events wakeup t t' s0 = Some s1 \<and> life_inv s1 \<and>
    hal_fmq s1 = hal_fmq s0 @ (if write_ok then events else []) \<and>
    (wakeup \<and> write_ok \<longrightarrow> lock_exact s1) \<and>
    (\<not> (wakeup \<and> write_ok) \<longrightarrow> mHasWakeLock s1 = mHasWakeLock s0)"
proof -
  have q: "hal_mEventQueue s0" "hal_mEventQueueFlag s0" "life_inv s0"
    using life_inv_initialize [OF assms(1), of created flag callback] assms(2)
    by (auto simp: life_inv_def)
  have fmq: "life_inv (s0\<lparr>hal_fmq := x\<rparr>) = life_inv s0" for x by (simp add: life_inv_def)
  show ?thesis
    using q assms(3)
    by (cases wakeup; cases write_ok)
      (simp_all add: postEvents_2X_def postEvents_aidl_def Let_def life_inv_updateWakeLock
        updateWakeLock_keeps updateWakeLock_exact fmq)
qed

theorem posts_after_initialize_witness:
  "\<exists>s0 s1. initializeBase True True True new_sensors_hal = Some (OK, s0) \<and>
     postEvents_2X 1 True True True [flush_event 0 (Smi240Accel 1)] True 5 5 s0 = Some s1 \<and>
     hal_fmq s1 = [flush_event 0 (Smi240Accel 1)]"
proof -
  obtain s0 where s0: "initializeBase True True True new_sensors_hal = Some (OK, s0)"
    using life_inv_initialize [OF life_inv_initial, of True True True] by auto
  have "hal_fmq s0 = []"
    using s0 by (auto simp: initializeBase_def disable_all_def Let_def new_sensors_hal_def
        AddSensor_def split: if_splits)
  with posts_after_initialize [OF life_inv_initial s0, of "[flush_event 0 (Smi240Accel 1)]" 1 True True
      5 5] s0
  show ?thesis by auto
qed

section \<open>The Bosch sub-HAL behind the proxy\<close>

definition proxied_sensor :: "sensor_map hal_proxy \<Rightarrow> nat \<Rightarrow> handle \<Rightarrow> sensor option" where
  "proxied_sensor p i h =
     (if i < length (mSubHalList p) then map_of (sm_sensors (mSubHalList p ! i)) h else None)"

lemma call_subhal_on_sensor:
  assumes "i < length (mSubHalList p)"
    and "call_subhal i (on_sensor bad h call) p = (r, p')"
  shows "r = (case proxied_sensor p i h of None \<Rightarrow> bad | Some sn \<Rightarrow> fst (call sn))"
    and "proxied_sensor p' = (\<lambda>j k. if j = i \<and> k = h
       then map_option (\<lambda>sn. snd (call sn)) (proxied_sensor p i h) else proxied_sensor p j k)"
    and "length (mSubHalList p') = length (mSubHalList p)"
proof -
  obtain r0 s0 where on: "on_sensor bad h call (mSubHalList p ! i) = (r0, s0)" by fastforce
  with assms(2) have p': "p' = p\<lparr>mSubHalList := (mSubHalList p)[i := s0]\<rparr>" and r: "r = r0"
    by (auto simp: call_subhal_def)
  show "r = (case proxied_sensor p i h of None \<Rightarrow> bad | Some sn \<Rightarrow> fst (call sn))"
    using on_sensor_answer [of bad h call "mSubHalList p ! i"] on assms(1)
    by (simp add: r proxied_sensor_def)
  show "length (mSubHalList p') = length (mSubHalList p)" by (simp add: p')
  have look: "map_of (sm_sensors s0) k = (if k = h
      then map_option (\<lambda>sn. snd (call sn)) (map_of (sm_sensors (mSubHalList p ! i)) h)
      else map_of (sm_sensors (mSubHalList p ! i)) k)" for k
    using on_sensor_lookup [of bad h call "mSubHalList p ! i" k] on by simp
  show "proxied_sensor p' = (\<lambda>j k. if j = i \<and> k = h
       then map_option (\<lambda>sn. snd (call sn)) (proxied_sensor p i h) else proxied_sensor p j k)"
    using assms(1) by (auto simp: fun_eq_iff p' proxied_sensor_def look nth_list_update)
qed

text \<open>C18: batch and activate through the proxy change exactly the sensor of the Bosch sub-HAL
  that the handle names: its period becomes the clamped one, it is enabled or disabled,
  all other sensors of all sub-HALs stay, and an unknown handle answers BAD_VALUE and
  changes nothing.\<close>

theorem request_reaches_bosch_sensor:
  assumes "i < length (mSubHalList p)" "length (mSubHalList p) \<le> 128" "subHalIndexIsClear h0"
    and "h = setSubHalIndex h0 (of_nat i)"
    and "proxy_batch (bosch_ops stale) h period latency p = (r1, p1)"
    and "proxy_activate (bosch_ops stale) h enable p1 = (r2, p2)"
  shows "(case proxied_sensor p i h0 of
      None \<Rightarrow> r1 = BAD_VALUE \<and> r2 = BAD_VALUE \<and> proxied_sensor p2 = proxied_sensor p
    | Some sn \<Rightarrow> r1 = OK \<and> r2 = OK \<and> proxied_sensor p2 = (\<lambda>j k. if j = i \<and> k = h0
        then Some (sensor_activate enable (sensor_batch_multihal period sn))
        else proxied_sensor p j k))"
proof -
  have reach: "reaches (bosch_ops stale) h i h0 q" if "length (mSubHalList q) = length (mSubHalList p)" for q
    unfolding assms(4) by (rule reaches_named) (use that assms(1-3) in auto)
  have 1: "call_subhal i (on_sensor BAD_VALUE h0 (\<lambda>sn. (OK, sensor_batch_multihal period sn))) p = (r1, p1)"
    using assms(5) reach [of p] by (simp add: reaches_def bosch_ops_def subhal_batch_def)
  note B = call_subhal_on_sensor [OF assms(1) 1]
  have 2: "call_subhal i (on_sensor BAD_VALUE h0 (\<lambda>sn. (OK, sensor_activate enable sn))) p1 = (r2, p2)"
    using assms(6) reach [OF B(3)] by (simp add: reaches_def bosch_ops_def subhal_activate_def)
  note A = call_subhal_on_sensor [OF _ 2, unfolded B(3), OF assms(1)]
  show ?thesis
    by (cases "proxied_sensor p i h0") (auto simp: A B(1,2) fun_eq_iff)
qed

lemma bosch_proxy_list:
  "mSensors (new_HalProxy (bosch_ops stale) [] [new_bosch_subhal]) =
     [(1, mSensorInfo (Smi240Accel 1)), (2, mSensorInfo (Smi240Gyro 2))]"
  by (simp add: new_HalProxy_def initializeSensorList_def bosch_ops_def hal_getSensorsList_def
      new_hals_sensors subHalIndexIsClear_def setSubHalIndex_def setDirectChannelFlags_def
      Smi240Accel_def Smi240Gyro_def new_Sensor_def Let_def)

theorem request_reaches_bosch_sensor_witness:
  "\<exists>p2 sn. proxy_activate (bosch_ops 0) 2 True (snd (proxy_batch (bosch_ops 0) 2 1 0
      (new_HalProxy (bosch_ops 0) [] [new_bosch_subhal]))) = (OK, p2) \<and>
    proxied_sensor p2 0 2 = Some sn \<and> mIsEnabled sn \<and> mSamplingPeriodNs sn = 10000000"
proof -
  let ?p = "new_HalProxy (bosch_ops 0) [] [new_bosch_subhal]"
  have l: "mSubHalList ?p = [new_bosch_subhal]"
    by (simp add: new_HalProxy_def initializeSensorList_def split: prod.split)
  then have s: "proxied_sensor ?p 0 2 = Some (Smi240Gyro 2)"
    by (simp add: proxied_sensor_def new_hals_sensors)
  obtain r1 p1 where 1: "proxy_batch (bosch_ops 0) 2 1 0 ?p = (r1, p1)" by fastforce
  obtain r2 p2 where 2: "proxy_activate (bosch_ops 0) 2 True p1 = (r2, p2)" by fastforce
  have h: "subHalIndexIsClear 2" "(2 :: handle) = setSubHalIndex 2 (of_nat 0)"
    by (simp_all add: subHalIndexIsClear_def setSubHalIndex_def)
  have "r2 = OK \<and> proxied_sensor p2 0 2 =
      Some (sensor_activate True (sensor_batch_multihal 1 (Smi240Gyro 2)))"
    using request_reaches_bosch_sensor [OF _ _ h 1 2] l s by simp
  then show ?thesis
    using 1 2 by (intro exI conjI) (auto simp: sensor_activate_def sensor_batch_multihal_def
        set_period_def clamp_def Smi240Gyro_def new_Sensor_def)
qed

section \<open>The contract of a sub-HAL\<close>

lemma map_put_info:
  assumes "map_of m h = Some u" "mSensorInfo v = mSensorInfo u" "map_keys_sorted m"
  shows "map (\<lambda>e. mSensorInfo (snd e)) (map_put h v m) = map (\<lambda>e. mSensorInfo (snd e)) m"
  using assms
proof (induction m)
  case (Cons e m)
  obtain k w where e: "e = (k, w)" by (cases e)
  show ?case
  proof (cases "h = k")
    case False
    with Cons.prems have m: "map_of m h = Some u" "map_keys_sorted m"
      by (auto simp: e map_keys_sorted_def)
    then have "(h, u) \<in> set m" by (simp add: map_of_SomeD)
    with Cons.prems(3) have "sint k < sint h" by (force simp: e map_keys_sorted_def)
    then show ?thesis using Cons.IH [OF m(1) Cons.prems(2) m(2)] False by (simp add: e)
  qed (use Cons.prems in \<open>simp add: e\<close>)
qed simp

lemma on_sensor_keeps_list:
  assumes "keeps_info call"
  shows "keeps_list (bosch_ops stale) sensor_map_inv (on_sensor bad h call)"
  unfolding keeps_list_def
proof (intro allI impI conjI)
  fix s :: "'x sensor_map_scheme" assume s: "sensor_map_inv s"
  then show "sensor_map_inv (snd (on_sensor bad h call s))" using assms by (rule on_sensor_inv)
  show "sh_getSensorsList (bosch_ops stale) (snd (on_sensor bad h call s)) =
      sh_getSensorsList (bosch_ops stale) s"
  proof (cases "map_of (sm_sensors s) h")
    case (Some u)
    obtain r v where v: "call u = (r, v)" by fastforce
    then have "mSensorInfo v = mSensorInfo u" using assms by (auto simp: keeps_info_def dest: spec [of _ u])
    with Some s have "map (\<lambda>e. mSensorInfo (snd e)) (map_put h v (sm_sensors s)) =
        map (\<lambda>e. mSensorInfo (snd e)) (sm_sensors s)"
      by (intro map_put_info) (auto simp: sensor_map_inv_def)
    then show ?thesis by (simp add: bosch_ops_def hal_getSensorsList_def on_sensor_def Some v)
  qed (simp add: on_sensor_def)
qed

lemma bosch_ops_calls:
  "sh_activate (bosch_ops stale) h e = on_sensor BAD_VALUE h (\<lambda>sn. (OK, sensor_activate e sn))"
  "sh_batch (bosch_ops stale) h t l = on_sensor BAD_VALUE h (\<lambda>sn. (OK, sensor_batch_multihal t sn))"
  "sh_flush (bosch_ops stale) h = on_sensor (BAD_VALUE, []) h (\<lambda>sn. (sensor_flush stale sn, sn))"
  "sh_injectSensorData (bosch_ops stale) ev =
     on_sensor BAD_VALUE (ev_handle ev) (\<lambda>sn. (sensor_injectEvent ev sn, sn))"
  by (simp_all add: bosch_ops_def subhal_activate_def subhal_batch_def subhal_flush_def
      subhal_injectSensorData_def fun_eq_iff)

interpretation bosch_subhal: sub_hal "bosch_ops stale" sensor_map_inv for stale
proof unfold_locales
  fix m
  show "keeps_list (bosch_ops stale) sensor_map_inv (sh_setOperationMode (bosch_ops stale) m)"
    by (simp add: keeps_list_def bosch_ops_def subhal_setOperationMode_def)
qed (simp_all only: bosch_ops_calls, simp_all add: on_sensor_keeps_list)

text \<open>C32: After any sequence of framework calls the merged sensor list and the chosen direct-
  channel sub-HAL are those that a proxy built from the present Bosch sub-HALs would have.\<close>

theorem sensor_list_stays_accurate:
  assumes "\<forall>s\<in>set (l1 @ l2). sensor_map_inv s"
  shows "list_accurate (bosch_ops stale)
    (fold (framework_step (bosch_ops stale) conv) calls (new_HalProxy (bosch_ops stale) l1 l2))"
  by (rule bosch_subhal.framework_run_list_accurate [OF assms])

theorem sensor_list_stays_accurate_witness:
  "list_accurate (bosch_ops 0) (fold (framework_step (bosch_ops 0) (\<lambda>e. e))
     [F_batch 1 5 0, F_activate 2 True, F_mode DATA_INJECTION, F_flush 2]
     (new_HalProxy (bosch_ops 0) [] [new_bosch_subhal]))"
  by (rule sensor_list_stays_accurate) (simp add: new_hals_inv)

section \<open>Reachable states of a HAL\<close>

text \<open>Calls of the framework, posts of the run threads and passes of the reader thread, in any
  order.\<close>

inductive hal_step :: "sensors_hal \<Rightarrow> sensors_hal \<Rightarrow> bool" where
  step_activate: "hal_step s (snd (activate_2X h e s))"
| step_batch: "hal_step s (snd (batch_2X h p l s))"
| step_flush: "hal_step s (snd (flush_2X t h s))"
| step_inject: "hal_step s (snd (injectSensorData_2X conv ev s))"
| step_initialize: "initializeBase created flag callback s = Some (r, s') \<Longrightarrow> hal_step s s'"
| step_post: "postEvents_2X secs a rel ok evs w t t' s = Some s' \<Longrightarrow> hal_step s s'"
| step_reader: "hal_step s (readWakeLockFMQ_pass secs a rel m t t' s)"

inductive_cases hal_stepE: "hal_step s s'"

inductive hal_reachable :: "sensors_hal \<Rightarrow> bool" where
  start: "hal_reachable new_sensors_hal"
| step: "hal_reachable s \<Longrightarrow> hal_step s s' \<Longrightarrow> hal_reachable s'"

text \<open>A sensor's period is 0 until the first \<open>batch\<close>, and in the advertised range from then on.\<close>

definition period_ok :: "sensor \<Rightarrow> bool" where
  "period_ok sn \<longleftrightarrow> mSamplingPeriodNs sn = 0 \<or>
     (si_minDelay (mSensorInfo sn) * 1000 \<le> mSamplingPeriodNs sn \<and>
      mSamplingPeriodNs sn \<le> si_maxDelay (mSensorInfo sn) * 1000)"

definition hal_ok :: "sensors_hal \<Rightarrow> bool" where
  "hal_ok s \<longleftrightarrow> life_inv s \<and> sensor_map_inv s \<and> fst ` set (sm_sensors s) = {1, 2} \<and>
     (\<forall>h sn. map_of (sm_sensors s) h = Some sn \<longrightarrow> period_ok sn)"

definition keeps_period :: "(sensor \<Rightarrow> 'r \<times> sensor) \<Rightarrow> bool" where
  "keeps_period call \<longleftrightarrow> (\<forall>sn. sane_info (mSensorInfo sn) \<longrightarrow> period_ok sn \<longrightarrow> period_ok (snd (call sn)))"

lemma calls_keep_period [simp]:
  "keeps_period (\<lambda>sn. (r, sensor_activate e sn))" "keeps_period (\<lambda>sn. (r, sensor_batch_multihal p sn))"
  "keeps_period (\<lambda>sn. (q sn, sn))"
  using sensor_batch_bounds
  by (simp_all add: keeps_period_def period_ok_def sensor_activate_def)

lemma on_sensor_frame:
  "life_inv (snd (on_sensor bad h call s)) = life_inv s"
  "fst ` set (sm_sensors (snd (on_sensor bad h call s))) = fst ` set (sm_sensors s)"
proof -
  show "life_inv (snd (on_sensor bad h call s)) = life_inv s"
    by (simp add: on_sensor_def life_inv_def split: option.split prod.split)
  have "insert h (fst ` set (sm_sensors s)) = fst ` set (sm_sensors s)"
    if "map_of (sm_sensors s) h = Some u" for u
    using map_of_SomeD [OF that] by force
  then show "fst ` set (sm_sensors (snd (on_sensor bad h call s))) = fst ` set (sm_sensors s)"
    by (simp add: on_sensor_def keys_map_put split: option.split prod.split)
qed

lemma hal_ok_on_sensor:
  assumes "hal_ok s" "keeps_info call" "keeps_period call"
  shows "hal_ok (snd (on_sensor bad h call s))"
proof -
  have inv: "sensor_map_inv s" using assms(1) by (simp add: hal_ok_def)
  have "period_ok sn'" if "map_of (sm_sensors (snd (on_sensor bad h call s))) k = Some sn'" for k sn'
    using that assms(1,3) inv unfolding on_sensor_lookup
    by (auto simp: hal_ok_def keeps_period_def sensor_map_inv_def split: if_splits)
  then show ?thesis
    using assms(1) on_sensor_inv [OF inv assms(2)] unfolding hal_ok_def on_sensor_frame by blast
qed

lemma hal_ok_same:
  assumes "hal_ok s" "sensor_map.truncate s' = sensor_map.truncate s" "life_inv s'"
  shows "hal_ok s'"
  using assms by (simp add: hal_ok_def sensor_map.truncate_def sensor_map_inv_def)

lemma map_of_map_values: "map_of (map (\<lambda>e. (fst e, f (snd e))) m) h = map_option f (map_of m h)"
  by (induction m) auto

lemma hal_ok_disable_all:
  assumes "hal_ok s"
  shows "hal_ok (disable_all s)"
proof -
  have look: "map_of (sm_sensors (disable_all s)) h =
      map_option (sensor_activate False) (map_of (sm_sensors s) h)" for h
    by (simp add: disable_all_def map_of_map_values)
  have same: "mSensorInfo (sensor_activate False sn) = mSensorInfo sn"
    "period_ok (sensor_activate False sn) = period_ok sn" for sn
    by (simp_all add: sensor_activate_def period_ok_def)
  have "map fst (sm_sensors (disable_all s)) = map fst (sm_sensors s)"
    by (simp add: disable_all_def)
  then have keys: "map_keys_sorted (sm_sensors (disable_all s)) = map_keys_sorted (sm_sensors s)"
    "fst ` set (sm_sensors (disable_all s)) = fst ` set (sm_sensors s)"
    by (simp_all add: map_keys_sorted_def flip: map_map) (metis set_map)
  have life: "life_inv (disable_all s) = life_inv s" by (simp add: life_inv_def disable_all_def)
  show ?thesis
    using assms unfolding hal_ok_def sensor_map_inv_def keys life look
    by (auto simp: same)
qed

lemma initializeBase_sensors:
  assumes "initializeBase created flag callback s = Some (r, s')"
  shows "sensor_map.truncate s' = sensor_map.truncate (disable_all s)"
  using assms by (auto simp: initializeBase_def sensor_map.truncate_def Let_def disable_all_def
      split: if_splits)

lemma postEvents_frame:
  assumes "postEvents_2X secs a rel ok evs w t t' s = Some s'"
  shows "sensor_map.truncate s' = sensor_map.truncate s \<and> life_inv s' = life_inv s"
proof -
  have fmq: "sensor_map.truncate (s\<lparr>hal_fmq := x\<rparr>) = sensor_map.truncate s"
    "life_inv (s\<lparr>hal_fmq := x\<rparr>) = life_inv s" for x
    by (simp_all add: sensor_map.truncate_def life_inv_def)
  show ?thesis
    using assms by (auto simp: postEvents_2X_def Let_def updateWakeLock_keeps life_inv_updateWakeLock
        fmq split: if_splits)
qed

lemma hal_step_ok:
  assumes "hal_step s s'" "hal_ok s"
  shows "hal_ok s'"
  using assms
proof (cases rule: hal_step.cases)
  case (step_initialize created flag callback r)
  have "life_inv s" using assms(2) by (simp add: hal_ok_def)
  from life_inv_initialize [OF this, of created flag callback] step_initialize
  have "life_inv s'" by auto
  with hal_ok_disable_all [OF assms(2)] initializeBase_sensors [OF step_initialize] show ?thesis
    by (rule hal_ok_same)
next
  case (step_post secs a rel ok evs w t t')
  have "life_inv s" using assms(2) by (simp add: hal_ok_def)
  with postEvents_frame [OF step_post] show ?thesis by (intro hal_ok_same [OF assms(2)]) simp_all
next
  case (step_reader secs a rel m t t')
  have "life_inv s" using assms(2) by (simp add: hal_ok_def)
  then have "sensor_map.truncate s' = sensor_map.truncate s" "life_inv s'"
    by (simp_all add: step_reader readWakeLockFMQ_pass_def updateWakeLock_keeps
        life_inv_updateWakeLock)
  then show ?thesis by (rule hal_ok_same [OF assms(2)])
qed (simp_all add: hal_call_defs hal_ok_on_sensor)



end
