(* ===== verification/Hal_Callback.thy ===== *)
theory Hal_Callback
  imports Sensors_Hal Event_Queue
begin

text \<open>
  Where the proxy, the sub-HALs and the event queue meet: loading the sub-HALs that the
  configuration file names, \<open>HalProxy::initializeCommon\<close>, and \<open>HalProxyCallback.cpp\<close>, through which
  a sub-HAL posts events.  The state is a pair of the proxy and its event queue.  The main result
  follows a sample from the driver's text file through a Bosch sub-HAL into the message queue.
\<close>

section \<open>Loading the sub-HALs\<close>

abbreviation (input) "SUB_HAL_2_0_VERSION \<equiv> (0x02000000 :: u32)"
abbreviation (input) "SUB_HAL_2_1_VERSION \<equiv> (0x02010000 :: u32)"

definition kSubHalShareObjectLocations :: "bool \<Rightarrow> string list" where
  "kSubHalShareObjectLocations lp64 =
     (if lp64 then ['''', ''/vendor/lib64/hw/'', ''/odm/lib64/hw/'']
      else ['''', ''/vendor/lib/hw/'', ''/odm/lib/hw/''])"

text \<open>\<open>dlopen\<close> and the two entry points of a library are arguments; an entry point yields its
  version and the sub-HAL.\<close>

fun first_handle :: "(string \<Rightarrow> 'l option) \<Rightarrow> string \<Rightarrow> string list \<Rightarrow> 'l option" where
  "first_handle dlopen filename [] = None"
| "first_handle dlopen filename (dir # dirs) = (case dlopen (dir @ filename) of
     Some lib \<Rightarrow> Some lib | None \<Rightarrow> first_handle dlopen filename dirs)"

definition getHandleForSubHalSharedObject ::
    "bool \<Rightarrow> (string \<Rightarrow> 'l option) \<Rightarrow> string \<Rightarrow> 'l option" where
  "getHandleForSubHalSharedObject lp64 dlopen filename =
     first_handle dlopen filename (kSubHalShareObjectLocations lp64)"

definition load_subhal ::
    "('l \<Rightarrow> (u32 \<times> 's) option) \<Rightarrow> ('l \<Rightarrow> (u32 \<times> 's) option) \<Rightarrow> 'l \<Rightarrow> 's option" where
  "load_subhal sensorsHalGetSubHal sensorsHalGetSubHal_2_1 lib =
     (case sensorsHalGetSubHal lib of
        Some (version, subHal) \<Rightarrow> if version \<noteq> SUB_HAL_2_0_VERSION then None else Some subHal
      | None \<Rightarrow> (case sensorsHalGetSubHal_2_1 lib of
          None \<Rightarrow> None
        | Some (version, subHal) \<Rightarrow> if version \<noteq> SUB_HAL_2_1_VERSION then None else Some subHal))"

fun load_subhals :: "(string \<Rightarrow> 'l option) \<Rightarrow> ('l \<Rightarrow> 's option) \<Rightarrow> string list \<Rightarrow> 's list \<Rightarrow> 's list" where
  "load_subhals find_lib load [] subhals = subhals"
| "load_subhals find_lib load (file # files) subhals =
     (case find_lib file of
        None \<Rightarrow> load_subhals find_lib load files subhals
      | Some lib \<Rightarrow> (case load lib of
          None \<Rightarrow> load_subhals find_lib load files subhals
        | Some s \<Rightarrow> load_subhals find_lib load files (subhals @ [s])))"

definition initializeSubHalListFromConfigFile ::
    "bool \<Rightarrow> (string \<Rightarrow> 'l option) \<Rightarrow> ('l \<Rightarrow> (u32 \<times> 's) option) \<Rightarrow> ('l \<Rightarrow> (u32 \<times> 's) option) \<Rightarrow>
      string option \<Rightarrow> 's list" where
  "initializeSubHalListFromConfigFile lp64 dlopen get20 get21 config =
     (case config of
        None \<Rightarrow> []
      | Some text \<Rightarrow> load_subhals (getHandleForSubHalSharedObject lp64 dlopen)
          (load_subhal get20 get21) (words_of text) [])"

definition new_HalProxy_from_config ::
    "'s subhal_ops \<Rightarrow> bool \<Rightarrow> (string \<Rightarrow> 'l option) \<Rightarrow> ('l \<Rightarrow> (u32 \<times> 's) option) \<Rightarrow>
      ('l \<Rightarrow> (u32 \<times> 's) option) \<Rightarrow> string option \<Rightarrow> 's hal_proxy" where
  "new_HalProxy_from_config ops lp64 dlopen get20 get21 config =
     new_HalProxy ops (initializeSubHalListFromConfigFile lp64 dlopen get20 get21 config) []"

lemma load_subhals_filter:
  "load_subhals find_lib load files subhals =
     subhals @ List.map_filter (\<lambda>file. Option.bind (find_lib file) load) files"
  by (induction files arbitrary: subhals)
    (auto simp: List.map_filter_simps split: option.split)

lemma first_handle_found:
  "first_handle dlopen filename dirs = Some lib \<Longrightarrow> \<exists>dir\<in>set dirs. dlopen (dir @ filename) = Some lib"
  by (induction dirs) (auto split: option.splits)

section \<open>Posting through the callback\<close>

text \<open>The event of a dynamic sensor carries a handle of its own.  Events are taken to hold the
  member of the union that belongs to their type; another member is left alone.\<close>

definition mark_payload :: "u64 \<Rightarrow> 'f payload \<Rightarrow> 'f payload" where
  "mark_payload subHalIndex u = (case u of
     Dynamic conn h uuid \<Rightarrow> Dynamic conn (setSubHalIndex h subHalIndex) uuid
   | _ \<Rightarrow> u)"

definition mark_event :: "u64 \<Rightarrow> 'f event \<Rightarrow> 'f event" where
  "mark_event subHalIndex event =
     (let event' = event\<lparr>ev_handle := setSubHalIndex (ev_handle event) subHalIndex\<rparr> in
      if ev_type event' = SENSOR_TYPE_DYNAMIC_SENSOR_META
      then event'\<lparr>ev_u := mark_payload subHalIndex (ev_u event')\<rparr> else event')"

fun processEvents ::
    "u64 \<Rightarrow> 'f event list \<Rightarrow> nat \<Rightarrow> 's hal_proxy \<Rightarrow> 'f event list \<times> nat \<times> 's hal_proxy" where
  "processEvents subHalIndex [] numWakeupEvents p = ([], numWakeupEvents, p)"
| "processEvents subHalIndex (event # events) numWakeupEvents p =
     (let event' = mark_event subHalIndex event in
      case getSensorInfo (ev_handle event') p of (sensor, p1) \<Rightarrow>
      case processEvents subHalIndex events
          (if is_wake_up sensor then numWakeupEvents + 1 else numWakeupEvents) p1 of
        (eventsOut, n, p2) \<Rightarrow> (event' # eventsOut, n, p2))"

text \<open>The state: the proxy and its queue of events.  \<open>ALOG_ASSERT\<close> does not act in the shipped
  builds.  The wake lock is a parameter passed by value: leaving the function destroys it.\<close>

type_synonym 's multihal = "'s hal_proxy \<times> rat event event_queue"

definition callback_postEvents ::
    "nat \<Rightarrow> bool \<Rightarrow> int \<Rightarrow> u64 \<Rightarrow> rat event list \<Rightarrow> scoped_wakelock \<Rightarrow> 's multihal \<Rightarrow> 's multihal" where
  "callback_postEvents avail write_ok now subHalIndex events wakelock = (\<lambda>(p, q).
     if events = [] \<or> \<not> mThreadsRun q then (p, destroy_ScopedWakelock wakelock q)
     else case processEvents subHalIndex events 0 p of (processedEvents, numWakeupEvents, p') \<Rightarrow>
       (p', destroy_ScopedWakelock wakelock
          (postEventsToMessageQueue avail write_ok now processedEvents numWakeupEvents
            (mLocked wakelock) q)))"

text \<open>\<open>ISensorsSubHalBase::postEvents\<close>; \<open>created\<close> and \<open>now\<close> are two readings of the clock.\<close>

definition subhal_postEvents ::
    "nat \<Rightarrow> bool \<Rightarrow> int \<Rightarrow> int \<Rightarrow> u64 \<Rightarrow> rat event list \<Rightarrow> bool \<Rightarrow> 's multihal \<Rightarrow> 's multihal" where
  "subhal_postEvents avail write_ok created now subHalIndex events wakeup = (\<lambda>(p, q).
     case new_ScopedWakelock wakeup created q of (wakelock, q') \<Rightarrow>
       callback_postEvents avail write_ok now subHalIndex events wakelock (p, q'))"

section \<open>Initialisation\<close>

text \<open>\<open>stopThreads\<close> joins the writer thread, which first completes a write that it has begun.\<close>

definition stop_and_join ::
    "('e \<Rightarrow> bool) \<Rightarrow> bool \<Rightarrow> int \<Rightarrow> 'e event_queue \<Rightarrow> 'e event_queue" where
  "stop_and_join is_wakeup write_ok now q =
     handlePendingWrites_end is_wakeup write_ok (stopThreads now q)"

text \<open>\<open>initialize\<close> of the sub-HALs; the answer is that of the last one that fails.\<close>

fun initialize_subhals ::
    "(nat \<Rightarrow> 's \<Rightarrow> result \<times> 's) \<Rightarrow> nat \<Rightarrow> 's list \<Rightarrow> result \<Rightarrow> result \<times> 's list" where
  "initialize_subhals init i [] res = (res, [])"
| "initialize_subhals init i (s # ss) res =
     (case init i s of (currRes, s') \<Rightarrow>
      case initialize_subhals init (Suc i) ss (if currRes \<noteq> OK then currRes else res) of
        (res', ss') \<Rightarrow> (res', s' # ss'))"

definition initializeCommon ::
    "'s subhal_ops \<Rightarrow> (nat \<Rightarrow> 's \<Rightarrow> result \<times> 's) \<Rightarrow> bool \<Rightarrow> bool \<Rightarrow> bool \<Rightarrow> bool \<Rightarrow> bool \<Rightarrow> int \<Rightarrow> int \<Rightarrow>
      's multihal \<Rightarrow> result \<times> 's multihal" where
  "initializeCommon ops init callback event_flag wakelock_flag event_flag_pointer write_ok t1 t2 =
     (\<lambda>(p, q).
      let wk = (\<lambda>e. is_wake_up (fst (getSensorInfo (ev_handle e) p)));
          q1 = restart_queue t2 (stop_and_join wk write_ok t1 q);
          p1 = (disableAllSensors ops p)\<lparr>mDynamicSensors := []\<rparr>;
          res1 = (if \<not> event_flag then BAD_VALUE else OK);
          res2 = (if \<not> wakelock_flag then BAD_VALUE else res1);
          res3 = (if \<not> callback \<or> \<not> event_flag_pointer then BAD_VALUE else res2)
      in case initialize_subhals init 0 (mSubHalList p1) res3 of (res, ss) \<Rightarrow>
        (res, (p1\<lparr>mSubHalList := ss, mCurrentOperationMode := NORMAL\<rparr>, q1)))"

text \<open>\<open>ISensorsSubHalBase::initialize\<close> keeps the callback and answers OK.\<close>

definition subhal_initialize :: "nat \<Rightarrow> sensor_map \<Rightarrow> result \<times> sensor_map" where
  "subhal_initialize i s = (OK, snd (subhal_setOperationMode NORMAL s))"

section \<open>What a post does\<close>

lemma getSensorInfo_known:
  "map_of (mSensors p) h = Some i \<Longrightarrow> getSensorInfo h p = (i, p)"
  by (simp add: getSensorInfo_def)

definition listed_wake_up :: "'s hal_proxy \<Rightarrow> handle \<Rightarrow> bool" where
  "listed_wake_up p h \<longleftrightarrow> (case map_of (mSensors p) h of None \<Rightarrow> False | Some i \<Rightarrow> is_wake_up i)"

lemma mark_event_handle [simp]: "ev_handle (mark_event i e) = setSubHalIndex (ev_handle e) i"
  by (simp add: mark_event_def Let_def)

lemma processEvents_known:
  assumes "\<forall>e\<in>set events. map_of (mSensors p) (setSubHalIndex (ev_handle e) i) \<noteq> None"
  shows "processEvents i events n p = (map (mark_event i) events,
    n + length (filter (\<lambda>e. listed_wake_up p (setSubHalIndex (ev_handle e) i)) events), p)"
  using assms
proof (induction events arbitrary: n)
  case (Cons e events)
  then obtain info where "map_of (mSensors p) (setSubHalIndex (ev_handle e) i) = Some info" by auto
  with Cons show ?case by (simp add: getSensorInfo_known listed_wake_up_def)
qed simp

lemma post_queue_keeps_all:
  assumes "mSizePendingWriteEventsQueue q + length events \<le> 100000"
  shows "fmq (post_queue avail ok events num q) @ waiting (post_queue avail ok events num q) =
    fmq q @ waiting q @ events"
proof (cases "mPendingWriteEventsQueue q = []")
  case True
  then show ?thesis
    using assms num_to_write_bounds(1) [of avail ok events q]
    by (simp add: post_queue_def push_pending_def waiting_def Let_def)
next
  case False
  then show ?thesis
    using assms num_to_write_bounds(2) [OF False, of avail ok events]
    by (simp add: post_queue_def push_pending_def waiting_def Let_def)
qed

lemma post_queue_frame:
  "mThreadsRun (post_queue avail ok events num q) = mThreadsRun q"
  "mWakelockRefCount (post_queue avail ok events num q) = mWakelockRefCount q"
  "mWakelockTimeoutResetTime (post_queue avail ok events num q) = mWakelockTimeoutResetTime q"
  by (simp_all add: post_queue_def push_pending_def Let_def)

lemma destroy_frame:
  "fmq (destroy_ScopedWakelock wl q) = fmq q" "waiting (destroy_ScopedWakelock wl q) = waiting q"
  by (simp_all add: destroy_ScopedWakelock_def queue_frame waiting_def)

lemma waiting_increment:
  "waiting (snd (incrementRefCountAndMaybeAcquireWakelock d now q)) = waiting q"
  by (simp add: waiting_def queue_frame)

lemma subhal_postEvents_shape:
  assumes out: "processEvents i events 0 p = (out, n, p1)"
    and "events \<noteq> []" "mThreadsRun q" "mWakelockTimeoutResetTime q \<le> created" "0 \<le> created"
    and "subhal_postEvents avail ok created now i events wakeup (p, q) = (p', q')"
  shows "p' = p1 \<and> mWakelockRefCount q' = mWakelockRefCount q + (if wakeup then n else 0) \<and>
    (\<exists>wl q2. q' = destroy_ScopedWakelock wl (post_queue avail ok out n q2) \<and>
      mPendingWriteEventsQueue q2 = mPendingWriteEventsQueue q \<and>
      mSizePendingWriteEventsQueue q2 = mSizePendingWriteEventsQueue q \<and> fmq q2 = fmq q)"
proof -
  let ?out = out
  show ?thesis
  proof (cases wakeup)
    case False
    then have p': "p' = p1" and q': "q' = post_queue avail ok ?out n q"
      using assms(2,3,6) by (simp_all add: subhal_postEvents_def new_ScopedWakelock_def out
          callback_postEvents_def post_as_queue destroy_ScopedWakelock_def)
    let ?wl = "\<lparr> mLocked = False, mCreatedAtTimeNs = created \<rparr>"
    have "q' = destroy_ScopedWakelock ?wl (post_queue avail ok ?out n q)"
      by (simp add: q' destroy_ScopedWakelock_def)
    moreover have "mWakelockRefCount q' = mWakelockRefCount q"
      by (simp add: q' post_queue_frame)
    ultimately show ?thesis
      using False p' by (intro conjI exI [of _ ?wl] exI [of _ q]) simp_all
  next
    case True
    define q1 where "q1 = snd (incrementRefCountAndMaybeAcquireWakelock 1 created q)"
    define q2 where "q2 = snd (incrementRefCountAndMaybeAcquireWakelock n now q1)"
    let ?wl = "\<lparr> mLocked = True, mCreatedAtTimeNs = created \<rparr>"
    have "incrementRefCountAndMaybeAcquireWakelock 1 created q = (True, q1)" "mThreadsRun q1"
      using assms(3) by (simp_all add: q1_def incrementRefCountAndMaybeAcquireWakelock_def)
    then have q': "p' = p1" "q' = destroy_ScopedWakelock ?wl (post_queue avail ok ?out n q2)"
      using True assms(2,6) by (simp_all add: subhal_postEvents_def new_ScopedWakelock_def out
          callback_postEvents_def post_as_queue q2_def)
    have q2: "mWakelockRefCount q2 = mWakelockRefCount q + 1 + n"
      "mThreadsRun q2" "mWakelockTimeoutResetTime q2 = mWakelockTimeoutResetTime q"
      "mPendingWriteEventsQueue q2 = mPendingWriteEventsQueue q"
      "mSizePendingWriteEventsQueue q2 = mSizePendingWriteEventsQueue q" "fmq q2 = fmq q"
      using assms(3) by (simp_all add: q2_def q1_def incrementRefCountAndMaybeAcquireWakelock_def)
    then have "mWakelockRefCount q' = mWakelockRefCount q + n"
      using assms(4,5) unfolding q'(2)
      by (simp add: post_queue_frame destroy_ScopedWakelock_def
          decrementRefCountAndMaybeReleaseWakelock_def Let_def)
    with True q' q2(4-6) show ?thesis by (intro conjI exI [of _ ?wl] exI [of _ q2]) simp_all
  qed
qed

text \<open>A post of events of listed sensors appends them, each with the index of the sub-HAL in
  its handle, and raises the reference count by the number of wake-up events, the scoped
  wake lock being given back.\<close>

theorem post_marks_and_counts:
  assumes "\<forall>e\<in>set events. map_of (mSensors p) (setSubHalIndex (ev_handle e) i) \<noteq> None"
    and "events \<noteq> []" "mThreadsRun q" "mWakelockTimeoutResetTime q \<le> created" "0 \<le> created"
    and "mSizePendingWriteEventsQueue q + length events \<le> 100000"
    and "subhal_postEvents avail ok created now i events wakeup (p, q) = (p', q')"
  shows "p' = p \<and> fmq q' @ waiting q' = fmq q @ waiting q @ map (mark_event i) events \<and>
    mWakelockRefCount q' = mWakelockRefCount q + (if wakeup
      then length (filter (\<lambda>e. listed_wake_up p (setSubHalIndex (ev_handle e) i)) events) else 0)"
proof -
  note shape = subhal_postEvents_shape [OF processEvents_known [OF assms(1), of 0] assms(2-5,7), unfolded add_0]
  then obtain wl q2 n where q2: "q' = destroy_ScopedWakelock wl
      (post_queue avail ok (map (mark_event i) events) n q2)"
    "mSizePendingWriteEventsQueue q2 = mSizePendingWriteEventsQueue q"
    "fmq q2 = fmq q" "mPendingWriteEventsQueue q2 = mPendingWriteEventsQueue q" by blast
  have "fmq q' @ waiting q' = fmq q @ waiting q @ map (mark_event i) events"
    unfolding q2(1) destroy_frame using assms(6) q2(2-4)
    by (subst post_queue_keeps_all) (simp_all add: waiting_def)
  with shape show ?thesis by blast
qed

text \<open>The framework can take a marked handle apart again.\<close>

lemma marked_handle_names_sensor:
  assumes "subHalIndexIsClear (ev_handle e)" "i < 128"
  shows "extractSubHalIndex (ev_handle (mark_event i e)) = i"
    "clearSubHalIndex (ev_handle (mark_event i e)) = ev_handle e"
  using assms by (simp_all add: extract_set_index clear_set_index)

text \<open>C2: A sample that the driver writes as text and the Bosch sub-HAL posts through the
  proxy is appended to the message queue as one event with the rounded values, its time
  stamp, and the handle under which the list shows the sensor; the reference count grows
  by one for a wake-up sensor only.\<close>

theorem sample_reaches_framework:
  assumes "fs (mIioFileName sn) = Some (sysfs_line x y z)"
    and "f32 (si_resolution (mSensorInfo sn)) = si_resolution (mSensorInfo sn)"
    and "\<bar>x\<bar> \<le> 2 ^ 24" "\<bar>y\<bar> \<le> 2 ^ 24" "\<bar>z\<bar> \<le> 2 ^ 24"
    and "si_type (mSensorInfo sn) \<noteq> SENSOR_TYPE_DYNAMIC_SENSOR_META"
    and "h = setSubHalIndex (si_handle (mSensorInfo sn)) i" "map_of (mSensors p) h = Some info"
    and "is_wake_up info = isWakeUpSensor sn"
    and "mThreadsRun q" "mWakelockTimeoutResetTime q \<le> created" "0 \<le> created"
    and "mPendingWriteEventsQueue q = []" "mSizePendingWriteEventsQueue q = 0" "0 < avail"
    and "readEvents_multihal stale now fs sn = Some events"
    and "subhal_postEvents avail True created now' i events (isWakeUpSensor sn) (p, q) = (p', q')"
  shows "fmq q' = fmq q @ [(sample_event now x y z sn)\<lparr>ev_handle := h\<rparr>] \<and> waiting q' = [] \<and> p' = p \<and>
    mWakelockRefCount q' = mWakelockRefCount q + (if isWakeUpSensor sn then 1 else 0)"
proof -
  let ?e = "sample_event now x y z sn"
  have events: "events = [?e]"
    using readEvents_multihal_line [of fs sn x y z stale now] assms(1-5,16) by simp
  have e: "ev_handle ?e = si_handle (mSensorInfo sn)" "ev_type ?e = si_type (mSensorInfo sn)"
    by (simp_all add: sample_event_def Let_def)
  have mark: "mark_event i ?e = ?e\<lparr>ev_handle := h\<rparr>"
    using assms(6,7) e by (simp add: mark_event_def Let_def)
  have known: "\<forall>e\<in>set events. map_of (mSensors p) (setSubHalIndex (ev_handle e) i) \<noteq> None"
    using assms(7,8) e by (simp add: events)
  note shape = subhal_postEvents_shape [OF processEvents_known [OF known, of 0] _ assms(10-12,17), unfolded add_0]
  have n: "length (filter (\<lambda>e. listed_wake_up p (setSubHalIndex (ev_handle e) i)) events) =
      (if isWakeUpSensor sn then 1 else 0)"
    using assms(7-9) e by (simp add: events listed_wake_up_def)
  from shape obtain wl q2 n where q2: "q' = destroy_ScopedWakelock wl
      (post_queue avail True (map (mark_event i) events) n q2)"
    "fmq q2 = fmq q" "mPendingWriteEventsQueue q2 = mPendingWriteEventsQueue q"
    by (auto simp: events)
  have "fmq q' = fmq q @ [?e\<lparr>ev_handle := h\<rparr>]" "waiting q' = []"
    unfolding q2(1) destroy_frame using assms(13,15) q2(2,3)
    by (simp_all add: post_queue_def num_to_write_def push_pending_def waiting_def events mark Let_def)
  with shape show ?thesis unfolding n by (simp add: events)
qed

definition ready_queue :: "rat event event_queue" where
  "ready_queue = new_event_queue 8 0"

theorem sample_reaches_framework_witness:
  "\<exists>events q'. readEvents_multihal 0 77 (\<lambda>f. Some (sysfs_line 1 2 (-3))) (Smi240Gyro 2) = Some events \<and>
     subhal_postEvents 8 True 5 6 0 events False
       (new_HalProxy (bosch_ops 0) [] [new_bosch_subhal], ready_queue) =
         (new_HalProxy (bosch_ops 0) [] [new_bosch_subhal], q') \<and>
     fmq q' = [sample_event 77 1 2 (-3) (Smi240Gyro 2)]"
proof -
  let ?p = "new_HalProxy (bosch_ops 0) [] [new_bosch_subhal]" and ?sn = "Smi240Gyro 2"
  let ?fs = "\<lambda>f :: string. Some (sysfs_line 1 2 (-3))"
  have sn: "f32 (si_resolution (mSensorInfo ?sn)) = si_resolution (mSensorInfo ?sn)"
    "si_type (mSensorInfo ?sn) \<noteq> SENSOR_TYPE_DYNAMIC_SENSOR_META" "\<not> isWakeUpSensor ?sn"
    "\<not> is_wake_up (mSensorInfo ?sn)" "si_handle (mSensorInfo ?sn) = 2"
    by (simp_all add: Smi240Gyro_def new_Sensor_def degreeToRad_def isWakeUpSensor_def is_wake_up_def)
  have h: "2 = setSubHalIndex (si_handle (mSensorInfo ?sn)) 0"
    by (simp add: sn setSubHalIndex_def)
  have listed: "map_of (mSensors ?p) 2 = Some (mSensorInfo ?sn)" by (simp add: bosch_proxy_list)
  have q: "mThreadsRun ready_queue" "mWakelockTimeoutResetTime ready_queue = 0"
    "mPendingWriteEventsQueue ready_queue = []" "mSizePendingWriteEventsQueue ready_queue = 0"
    "fmq ready_queue = []"
    by (simp_all add: ready_queue_def new_event_queue_def)
  have events: "readEvents_multihal 0 77 ?fs ?sn = Some [sample_event 77 1 2 (-3) ?sn]"
    by (rule readEvents_multihal_line) (simp_all add: sn(1))
  obtain p' q' where post: "subhal_postEvents 8 True 5 6 0 [sample_event 77 1 2 (-3) ?sn]
      (isWakeUpSensor ?sn) (?p, ready_queue) = (p', q')" by fastforce
  have "(sample_event 77 1 2 (-3) ?sn)\<lparr>ev_handle := 2\<rparr> = sample_event 77 1 2 (-3) ?sn"
    by (simp add: sample_event_def Let_def sn)
  with sample_reaches_framework [OF _ sn(1) _ _ _ sn(2) h listed _ q(1) _ _ q(3,4) _ events post,
      of 1 2 "-3"] sn q events post
  show ?thesis by (simp add: isWakeUpSensor_def)
qed

theorem post_marks_and_counts_witness:
  "mWakelockRefCount (snd (subhal_postEvents 8 True 5 6 0 [flush_event 0 (Smi240Accel 1)] True
     (new_HalProxy (bosch_ops 0) [] [new_bosch_subhal], ready_queue))) = 0"
proof -
  let ?p = "new_HalProxy (bosch_ops 0) [] [new_bosch_subhal]" and ?e = "flush_event 0 (Smi240Accel 1)"
  have e: "setSubHalIndex (ev_handle ?e) 0 = 1"
    by (simp add: flush_event_def setSubHalIndex_def)
  have known: "\<forall>e\<in>set [?e]. map_of (mSensors ?p) (setSubHalIndex (ev_handle e) 0) \<noteq> None"
    using e by (simp add: bosch_proxy_list)
  have no: "\<not> listed_wake_up ?p 1"
    by (simp add: listed_wake_up_def bosch_proxy_list Smi240Accel_def new_Sensor_def is_wake_up_def)
  have q: "mThreadsRun ready_queue" "mWakelockTimeoutResetTime ready_queue \<le> 5"
    "mSizePendingWriteEventsQueue ready_queue + length [?e] \<le> 100000" "mWakelockRefCount ready_queue = 0"
    by (simp_all add: ready_queue_def new_event_queue_def)
  obtain p' q' where post: "subhal_postEvents 8 True 5 6 0 [?e] True (?p, ready_queue) = (p', q')"
    by fastforce
  show ?thesis
    using post_marks_and_counts [OF known _ q(1,2) _ q(3) post] post e no q(4) by simp
qed

section \<open>A sensor that is not in the list\<close>

text \<open>\<open>operator[]\<close> adds an empty description to the list of static sensors, and the wake-up flag
  of a dynamic sensor is never seen.\<close>

text \<open>A post of an event whose sensor is not in the static list, as of every dynamic sensor,
  adds an empty description to the list that the framework reads, and the event never
  counts as a wake-up event.\<close>

theorem unlisted_sensor_is_added:
  assumes "map_of (mSensors p) (setSubHalIndex (ev_handle e) i) = None" "mThreadsRun q"
    and "mWakelockTimeoutResetTime q \<le> created" "0 \<le> created"
    and "subhal_postEvents avail ok created now i [e] wakeup (p, q) = (p', q')"
  shows "default_info \<in> set (getSensorsList_2_1 p') \<and>
    mDynamicSensors p' = mDynamicSensors p \<and> mWakelockRefCount q' = mWakelockRefCount q"
proof -
  let ?h = "setSubHalIndex (ev_handle e) i"
  let ?p = "p\<lparr>mSensors := map_put ?h default_info (mSensors p)\<rparr>"
  have out: "processEvents i [e] 0 p = ([mark_event i e], 0, ?p)"
    using assms(1) by (simp add: getSensorInfo_def is_wake_up_def default_info_def)
  have "p' = ?p \<and> mWakelockRefCount q' = mWakelockRefCount q"
  proof -
    have "[e] \<noteq> []" by simp
    from subhal_postEvents_shape [OF out this assms(2-5)]
    have "p' = ?p" "mWakelockRefCount q' = mWakelockRefCount q + (if wakeup then 0 else 0)"
      by blast+
    then show ?thesis by (simp only: if_cancel add_0_right simp_thms)
  qed
  moreover have "map_of (mSensors ?p) ?h = Some default_info" by (simp add: handle_map_simps)
  then have "(?h, default_info) \<in> set (mSensors ?p)" by (rule map_of_SomeD)
  then have "default_info \<in> set (getSensorsList_2_1 ?p)"
    unfolding getSensorsList_2_1_def set_map by (intro image_eqI [where x = "(?h, default_info)"]) simp_all
  ultimately show ?thesis by simp
qed

definition dynamic_wake_up :: sensor_info where
  "dynamic_wake_up = default_info\<lparr>si_handle := 9, si_flags := SENSOR_FLAG_WAKE_UP\<rparr>"

theorem unlisted_sensor_is_added_witness:
  "let p = snd (onDynamicSensorsConnected [dynamic_wake_up] 0
         (new_HalProxy (bosch_ops 0) [] [new_bosch_subhal]));
       e = \<lparr> ev_timestamp = 0, ev_handle = 9, ev_type = 1, ev_u = Data [] \<rparr>
   in map_of (mDynamicSensors p) 9 = Some dynamic_wake_up \<and> is_wake_up dynamic_wake_up \<and>
     mWakelockRefCount (snd (subhal_postEvents 8 True 5 6 0 [e] True (p, ready_queue))) = 0"
proof -
  define p where "p = snd (onDynamicSensorsConnected [dynamic_wake_up] 0
      (new_HalProxy (bosch_ops 0) [] [new_bosch_subhal]))"
  define e :: "rat event" where "e = \<lparr> ev_timestamp = 0, ev_handle = 9, ev_type = 1, ev_u = Data [] \<rparr>"
  have h: "setSubHalIndex (ev_handle e) 0 = 9" by (simp add: e_def setSubHalIndex_def)
  have base: "mDynamicSensors (new_HalProxy (bosch_ops 0) [] [new_bosch_subhal]) = []"
    by (simp add: new_HalProxy_def initializeSensorList_def split: prod.split)
  have p: "mSensors p = mSensors (new_HalProxy (bosch_ops 0) [] [new_bosch_subhal])"
    "map_of (mDynamicSensors p) 9 = Some dynamic_wake_up"
    by (simp_all add: p_def onDynamicSensorsConnected_def dynamic_wake_up_def subHalIndexIsClear_def
        setSubHalIndex_def base Let_def)
  have q: "mThreadsRun ready_queue" "mWakelockTimeoutResetTime ready_queue \<le> 5"
    "mWakelockRefCount ready_queue = 0"
    by (simp_all add: ready_queue_def new_event_queue_def)
  obtain p' q' where post: "subhal_postEvents 8 True 5 6 0 [e] True (p, ready_queue) = (p', q')"
    by fastforce
  have "mWakelockRefCount q' = 0"
    using unlisted_sensor_is_added [OF _ q(1,2) _ post] q(3) by (simp add: h p(1) bosch_proxy_list)
  then show ?thesis
    using post p(2) by (simp add: p_def [symmetric] e_def [symmetric] Let_def)
      (simp add: dynamic_wake_up_def is_wake_up_def)
qed

section \<open>After initialisation\<close>

text \<open>Activating through any handle touches at most one sensor.\<close>

lemma proxy_disable_sensor:
  "proxied_sensor (snd (proxy_activate (bosch_ops stale) x False p)) j k =
     (if isSubHalIndexValid x p \<and> j = unat (extractSubHalIndex x) \<and> k = clearSubHalIndex x
      then map_option (sensor_activate False) (proxied_sensor p j k) else proxied_sensor p j k)"
proof (cases "isSubHalIndexValid x p")
  case True
  then have i: "unat (extractSubHalIndex x) < length (mSubHalList p)"
    by (simp add: isSubHalIndexValid_def)
  obtain r p' where c: "call_subhal (unat (extractSubHalIndex x)) (on_sensor BAD_VALUE
      (clearSubHalIndex x) (\<lambda>sn. (OK, sensor_activate False sn))) p = (r, p')" by fastforce
  have "snd (proxy_activate (bosch_ops stale) x False p) = p'"
    using True c by (simp add: proxy_activate_def bosch_ops_def subhal_activate_def)
  with call_subhal_on_sensor(2) [OF i c] True show ?thesis by (simp add: o_def)
qed (simp add: proxy_activate_def)

lemma proxy_disable_length:
  "length (mSubHalList (snd (proxy_activate ops x en p))) = length (mSubHalList p)"
  by (simp add: proxy_activate_def)

lemma disable_fold:
  fixes stale :: int
  defines "off \<equiv> fold (\<lambda>h p. snd (proxy_activate (bosch_ops stale) h False p))"
  shows "length (mSubHalList (off hs p)) = length (mSubHalList p) \<and>
    (\<forall>j k sn'. proxied_sensor (off hs p) j k = Some sn' \<longrightarrow>
      (\<exists>sn. proxied_sensor p j k = Some sn \<and> (sn' = sn \<or> sn' = sensor_activate False sn)) \<and>
      (j < 128 \<and> subHalIndexIsClear k \<and> setSubHalIndex k (of_nat j) \<in> set hs \<longrightarrow> \<not> mIsEnabled sn'))"
proof (induction hs arbitrary: p)
  case Nil
  then show ?case by (simp add: off_def)
next
  case (Cons h hs)
  let ?p = "snd (proxy_activate (bosch_ops stale) h False p)"
  have off: "off (h # hs) p = off hs ?p" by (simp add: off_def)
  have twice: "sensor_activate False (sensor_activate False sn) = sensor_activate False sn"
    "\<not> mIsEnabled (sensor_activate False sn)" for sn
    by (simp_all add: sensor_activate_def)
  show ?case
  proof (intro conjI allI impI)
    show "length (mSubHalList (off (h # hs) p)) = length (mSubHalList p)"
      using Cons.IH [of ?p] by (simp add: off proxy_disable_length)
    fix j k sn' assume "proxied_sensor (off (h # hs) p) j k = Some sn'"
    with Cons.IH [of ?p] obtain sn1 where sn1: "proxied_sensor ?p j k = Some sn1"
        "sn' = sn1 \<or> sn' = sensor_activate False sn1"
      and hit: "j < 128 \<and> subHalIndexIsClear k \<and> setSubHalIndex k (of_nat j) \<in> set hs \<longrightarrow> \<not> mIsEnabled sn'"
      unfolding off by blast
    from sn1 show "\<exists>sn. proxied_sensor p j k = Some sn \<and> (sn' = sn \<or> sn' = sensor_activate False sn)"
      by (auto simp: proxy_disable_sensor twice split: if_splits)
    assume t: "j < 128 \<and> subHalIndexIsClear k \<and> setSubHalIndex k (of_nat j) \<in> set (h # hs)"
    show "\<not> mIsEnabled sn'"
    proof (cases "setSubHalIndex k (of_nat j) = h")
      case True
      have len: "j < length (mSubHalList p)"
        using sn1(1) proxy_disable_length [of "bosch_ops stale" h False p]
        by (simp add: proxied_sensor_def split: if_splits)
      note names = handle_names_subhal [OF _ _ len True [symmetric]]
      from sn1 names t show ?thesis by (auto simp: proxy_disable_sensor twice)
    qed (use t hit in auto)
  qed
qed

lemma initialize_bosch_subhals: "initialize_subhals subhal_initialize i ss res = (res, ss)"
  by (induction ss arbitrary: i res) (simp_all add: subhal_initialize_def subhal_setOperationMode_def)

text \<open>C23: initializeCommon disables every listed sensor of all Bosch sub-HALs, forgets
  dynamic sensors and pending events, returns to the normal mode with running threads, and
  answers OK exactly when the callback and both event flags are usable.\<close>

theorem initialize_disables_and_restarts:
  assumes "length (mSubHalList p) \<le> 128"
    and "\<forall>j k. proxied_sensor p j k \<noteq> None \<longrightarrow>
      subHalIndexIsClear k \<and> setSubHalIndex k (of_nat j) \<in> fst ` set (mSensors p)"
    and "queue_inv q"
    and "initializeCommon (bosch_ops stale) subhal_initialize callback eflag wflag pointer ok t1 t2 (p, q) =
      (r, (p', q'))"
  shows "(\<forall>j k sn. proxied_sensor p' j k = Some sn \<longrightarrow> \<not> mIsEnabled sn) \<and>
    mDynamicSensors p' = [] \<and> mSensors p' = mSensors p \<and> mCurrentOperationMode p' = NORMAL \<and>
    mThreadsRun q' \<and> waiting q' = [] \<and> mSizePendingWriteEventsQueue q' = 0 \<and>
    (r = OK \<longleftrightarrow> callback \<and> eflag \<and> wflag \<and> pointer)"
proof -
  define wk where "wk = (\<lambda>e :: rat event. is_wake_up (fst (getSensorInfo (ev_handle e) p)))"
  let ?d = "disableAllSensors (bosch_ops stale) p"
  have p': "mSubHalList p' = mSubHalList ?d" "mDynamicSensors p' = []" "mSensors p' = mSensors ?d"
    "mCurrentOperationMode p' = NORMAL"
    and q': "q' = restart_queue t2 (stop_and_join wk ok t1 q)"
    and r: "r = OK \<longleftrightarrow> callback \<and> eflag \<and> wflag \<and> pointer"
    using assms(4) by (auto simp: initializeCommon_def wk_def Let_def initialize_bosch_subhals
        split: if_splits)
  have keep: "mSensors (snd (proxy_activate ops h False p)) = mSensors p"
    for ops h and p :: "sensor_map hal_proxy"
    by (simp add: proxy_activate_def call_subhal_def split: prod.split)
  have "mSensors (fold (\<lambda>h p. snd (proxy_activate ops h False p)) hs p) = mSensors p"
    for ops hs and p :: "sensor_map hal_proxy"
    by (induction hs arbitrary: p) (simp_all add: keep)
  then have sensors: "mSensors ?d = mSensors p" by (simp add: disableAllSensors_def)
  have off: "\<not> mIsEnabled sn" if "proxied_sensor ?d j k = Some sn" for j k sn
  proof -
    note D = disable_fold [of stale "map fst (mSensors p) @ map fst (mDynamicSensors p)" p,
      folded disableAllSensors_def]
    from that D obtain sn0 where sn0: "proxied_sensor p j k = Some sn0" by blast
    then have "j < 128" "subHalIndexIsClear k \<and> setSubHalIndex k (of_nat j) \<in> fst ` set (mSensors p)"
      using assms(1,2) by (force simp: proxied_sensor_def split: if_splits, blast)
    with that D show ?thesis by auto
  qed
  have "proxied_sensor p' = proxied_sensor ?d" by (simp add: fun_eq_iff proxied_sensor_def p'(1))
  moreover have "in_flight (stop_and_join wk ok t1 q) = None"
    using assms(3) by (auto simp: stop_and_join_def handlePendingWrites_end_def stopThreads_def
        queue_frame queue_inv_def Let_def split: option.split list.split)
  then have "mThreadsRun q'" "waiting q' = []" "mSizePendingWriteEventsQueue q' = 0"
    by (simp_all add: q' restart_queue_def waiting_def Let_def)
  ultimately show ?thesis using off p' sensors r by simp
qed

definition active_proxy :: "sensor_map hal_proxy" where
  "active_proxy = snd (proxy_activate (bosch_ops 0) 2 True
     (new_HalProxy (bosch_ops 0) [] [new_bosch_subhal]))"

lemma active_proxy_state:
  "mSubHalList active_proxy = [new_bosch_subhal\<lparr>sm_sensors :=
     [(1, Smi240Accel 1), (2, sensor_activate True (Smi240Gyro 2))]\<rparr>]"
  "mSensors active_proxy = [(1, mSensorInfo (Smi240Accel 1)), (2, mSensorInfo (Smi240Gyro 2))]"
proof -
  let ?p = "new_HalProxy (bosch_ops 0) [] [new_bosch_subhal]"
  have l: "mSubHalList ?p = [new_bosch_subhal]"
    by (simp add: new_HalProxy_def initializeSensorList_def split: prod.split)
  have "unat (extractSubHalIndex 2) = 0" "clearSubHalIndex 2 = 2" "isSubHalIndexValid 2 ?p"
    using handle_names_subhal [of 2 0 ?p 2] l by (simp_all add: subHalIndexIsClear_def setSubHalIndex_def)
  then have "proxy_activate (bosch_ops 0) 2 True ?p = call_subhal 0 (subhal_activate 2 True) ?p"
    by (simp add: proxy_activate_def bosch_ops_def)
  then show "mSubHalList active_proxy = [new_bosch_subhal\<lparr>sm_sensors :=
      [(1, Smi240Accel 1), (2, sensor_activate True (Smi240Gyro 2))]\<rparr>]"
    "mSensors active_proxy = [(1, mSensorInfo (Smi240Accel 1)), (2, mSensorInfo (Smi240Gyro 2))]"
    by (simp_all add: active_proxy_def call_subhal_def l subhal_activate_def on_sensor_def
        new_hals_sensors bosch_proxy_list)
qed

theorem initialize_disables_and_restarts_witness:
  "\<exists>sn p' q'. proxied_sensor active_proxy 0 2 = Some sn \<and> mIsEnabled sn \<and>
     initializeCommon (bosch_ops 0) subhal_initialize True True True True True 1 2
       (active_proxy, ready_queue) = (OK, (p', q')) \<and>
     \<not> (\<exists>sn. proxied_sensor p' 0 2 = Some sn \<and> mIsEnabled sn)"
proof -
  have keys: "proxied_sensor active_proxy j k \<noteq> None \<longleftrightarrow> j = 0 \<and> (k = 1 \<or> k = 2)" for j k
    by (auto simp: proxied_sensor_def active_proxy_state)
  have listed: "\<forall>j k. proxied_sensor active_proxy j k \<noteq> None \<longrightarrow>
      subHalIndexIsClear k \<and> setSubHalIndex k (of_nat j) \<in> fst ` set (mSensors active_proxy)"
    unfolding keys by (auto simp: subHalIndexIsClear_def setSubHalIndex_def active_proxy_state)
  have q: "queue_inv ready_queue"
    by (simp add: queue_inv_def waiting_def ready_queue_def new_event_queue_def)
  obtain r p' q' where init: "initializeCommon (bosch_ops 0) subhal_initialize True True True True
      True 1 2 (active_proxy, ready_queue) = (r, (p', q'))" by (metis prod_cases3)
  have "length (mSubHalList active_proxy) \<le> 128" by (simp add: active_proxy_state)
  from initialize_disables_and_restarts [OF this listed q init] init
  have "r = OK" "\<not> (\<exists>sn. proxied_sensor p' 0 2 = Some sn \<and> mIsEnabled sn)" by auto
  moreover have "proxied_sensor active_proxy 0 2 = Some (sensor_activate True (Smi240Gyro 2))"
    by (simp add: proxied_sensor_def active_proxy_state)
  moreover have "mIsEnabled (sensor_activate True (Smi240Gyro 2))" by (simp add: sensor_activate_def)
  ultimately show ?thesis using init by blast
qed

text \<open>The sub-HALs are those of the libraries that the words of the configuration file name,
  in their order, libraries that cannot be opened, lack an entry point or have another
  version being left out.\<close>

theorem config_file_fixes_the_order:
  "initializeSubHalListFromConfigFile lp64 dlopen get20 get21 (Some text) =
     List.map_filter (\<lambda>file. Option.bind
       (getHandleForSubHalSharedObject lp64 dlopen file) (load_subhal get20 get21)) (words_of text)"
  by (simp add: initializeSubHalListFromConfigFile_def load_subhals_filter)

end
