(* ===== verification/Hal_Proxy_Aidl.thy ===== *)
theory Hal_Proxy_Aidl
  imports Hal_Callback Convert_Utils
begin

text \<open>
  \<open>HalProxyAidl\<close> of \<open>multihal/aidl/HalProxyAidl.cpp\<close>: the AIDL interface in front of the proxy.
  Every call converts its arguments, calls the proxy and converts the answer.  The last section
  compares it with the AIDL HAL that has no proxy (\<open>aidl/SensorsHalAidl.cpp\<close>).
\<close>

section \<open>Conversions\<close>

definition resultToAStatus :: "result \<Rightarrow> status" where
  "resultToAStatus result = (case result of
     OK \<Rightarrow> S_OK
   | PERMISSION_DENIED \<Rightarrow> EX_SECURITY
   | NO_MEMORY \<Rightarrow> ERROR_NO_MEMORY
   | BAD_VALUE \<Rightarrow> EX_ILLEGAL_ARGUMENT
   | INVALID_OPERATION \<Rightarrow> EX_UNSUPPORTED_OPERATION)"

text \<open>The AIDL enumerations are open: a client may send a number that names no constant, for which
  the code asserts (\<open>None\<close>).\<close>

datatype aidl_rate_level = AIDL_STOP | AIDL_NORMAL | AIDL_FAST | AIDL_VERY_FAST | AIDL_other_rate int

definition convertRateLevel :: "aidl_rate_level \<Rightarrow> rate_level option" where
  "convertRateLevel rateLevel = (case rateLevel of
     AIDL_STOP \<Rightarrow> Some STOP | AIDL_NORMAL \<Rightarrow> Some RATE_NORMAL | AIDL_FAST \<Rightarrow> Some FAST
   | AIDL_VERY_FAST \<Rightarrow> Some VERY_FAST | AIDL_other_rate _ \<Rightarrow> None)"

datatype aidl_operation_mode = AIDL_MODE_NORMAL | AIDL_DATA_INJECTION | AIDL_other_mode int

definition convertOperationMode :: "aidl_operation_mode \<Rightarrow> operation_mode option" where
  "convertOperationMode operationMode = (case operationMode of
     AIDL_MODE_NORMAL \<Rightarrow> Some NORMAL | AIDL_DATA_INJECTION \<Rightarrow> Some DATA_INJECTION
   | AIDL_other_mode _ \<Rightarrow> None)"

datatype aidl_shared_mem_type = AIDL_ASHMEM | AIDL_GRALLOC | AIDL_other_mem int

definition convertSharedMemType :: "aidl_shared_mem_type \<Rightarrow> shared_mem_type option" where
  "convertSharedMemType sharedMemType = (case sharedMemType of
     AIDL_ASHMEM \<Rightarrow> Some ASHMEM | AIDL_GRALLOC \<Rightarrow> Some GRALLOC | AIDL_other_mem _ \<Rightarrow> None)"

datatype aidl_shared_mem_format = AIDL_SENSORS_EVENT | AIDL_other_format int

definition convertSharedMemFormat :: "aidl_shared_mem_format \<Rightarrow> shared_mem_format option" where
  "convertSharedMemFormat sharedMemFormat = (case sharedMemFormat of
     AIDL_SENSORS_EVENT \<Rightarrow> Some SENSORS_EVENT | AIDL_other_format _ \<Rightarrow> None)"

record aidl_shared_mem_info =
  am_type :: aidl_shared_mem_type
  am_format :: aidl_shared_mem_format
  am_size :: "32 word"
  am_memoryHandle :: "int list \<times> int list"

text \<open>\<open>makeFromAidl\<close> of the platform copies the descriptors and integers into a native handle; the
  assignment of the signed size to an unsigned member keeps its bits.\<close>

definition convertSharedMemInfo ::
    "(int list \<times> int list \<Rightarrow> int list \<times> int list) \<Rightarrow> aidl_shared_mem_info \<Rightarrow> shared_mem_info option" where
  "convertSharedMemInfo makeFromAidl sharedMemInfo = do {
     t \<leftarrow> convertSharedMemType (am_type sharedMemInfo);
     f \<leftarrow> convertSharedMemFormat (am_format sharedMemInfo);
     Some \<lparr> sm_type = t, sm_format = f, sm_size = am_size sharedMemInfo,
       sm_memoryHandle = makeFromAidl (am_memoryHandle sharedMemInfo) \<rparr>
   }"

section \<open>The calls\<close>

definition aidl_activate ::
    "'s subhal_ops \<Rightarrow> handle \<Rightarrow> bool \<Rightarrow> 's hal_proxy \<Rightarrow> status \<times> 's hal_proxy" where
  "aidl_activate ops sensorHandle enabled p =
     apfst resultToAStatus (proxy_activate ops sensorHandle enabled p)"

definition aidl_batch ::
    "'s subhal_ops \<Rightarrow> handle \<Rightarrow> int \<Rightarrow> int \<Rightarrow> 's hal_proxy \<Rightarrow> status \<times> 's hal_proxy" where
  "aidl_batch ops sensorHandle samplingPeriodNs maxReportLatencyNs p =
     apfst resultToAStatus (proxy_batch ops sensorHandle samplingPeriodNs maxReportLatencyNs p)"

definition aidl_flush ::
    "'s subhal_ops \<Rightarrow> handle \<Rightarrow> 's hal_proxy \<Rightarrow> (status \<times> post list) \<times> 's hal_proxy" where
  "aidl_flush ops sensorHandle p = apfst (apfst resultToAStatus) (proxy_flush ops sensorHandle p)"

definition aidl_getSensorsList :: "'s hal_proxy \<Rightarrow> aidl_sensor_info list" where
  "aidl_getSensorsList p = map (\<lambda>e. convertSensorInfo (snd e)) (mSensors p)"

text \<open>\<open>_aidl_return\<close> is the second part of the answer; every path of the proxy assigns it.\<close>

definition aidl_configDirectReport ::
    "'s subhal_ops \<Rightarrow> handle \<Rightarrow> int \<Rightarrow> aidl_rate_level \<Rightarrow> 's hal_proxy \<Rightarrow>
      ((status \<times> int) \<times> 's hal_proxy) option" where
  "aidl_configDirectReport ops sensorHandle channelHandle rate p =
     (case convertRateLevel rate of
        None \<Rightarrow> None
      | Some r \<Rightarrow> Some (apfst (apfst resultToAStatus)
          (proxy_configDirectReport ops sensorHandle channelHandle r p)))"

definition aidl_setOperationMode ::
    "'s subhal_ops \<Rightarrow> aidl_operation_mode \<Rightarrow> 's hal_proxy \<Rightarrow> (status \<times> 's hal_proxy) option" where
  "aidl_setOperationMode ops mode p =
     (case convertOperationMode mode of
        None \<Rightarrow> None
      | Some m \<Rightarrow> Some (apfst resultToAStatus (setOperationMode ops m p)))"

definition aidl_registerDirectChannel ::
    "'s subhal_ops \<Rightarrow> (int list \<times> int list \<Rightarrow> int list \<times> int list) \<Rightarrow> aidl_shared_mem_info \<Rightarrow>
      's hal_proxy \<Rightarrow> ((status \<times> int) \<times> 's hal_proxy) option" where
  "aidl_registerDirectChannel ops makeFromAidl mem p =
     (case convertSharedMemInfo makeFromAidl mem of
        None \<Rightarrow> None
      | Some sharedMemInfo \<Rightarrow> Some (apfst (apfst resultToAStatus)
          (proxy_registerDirectChannel ops sharedMemInfo p)))"

definition aidl_unregisterDirectChannel ::
    "'s subhal_ops \<Rightarrow> int \<Rightarrow> 's hal_proxy \<Rightarrow> status \<times> 's hal_proxy" where
  "aidl_unregisterDirectChannel ops channelHandle p =
     apfst resultToAStatus (proxy_unregisterDirectChannel ops channelHandle p)"

text \<open>\<open>value\<close> reads the 32 bits of a \<open>float\<close>; \<open>mem\<close> is the memory of the local event.\<close>

definition decode_event :: "(u32 \<Rightarrow> rat) \<Rightarrow> hidl_event \<Rightarrow> rat event" where
  "decode_event read_float e = \<lparr> ev_timestamp = ev_timestamp e, ev_handle = ev_handle e,
     ev_type = ev_type e, ev_u = map_payload read_float (ev_u e) \<rparr>"

definition aidl_injectSensorData ::
    "'s subhal_ops \<Rightarrow> (u32 \<Rightarrow> rat) \<Rightarrow> (rat event \<Rightarrow> rat event) \<Rightarrow> (rat event \<Rightarrow> rat event) \<Rightarrow>
      u32 list \<Rightarrow> aidl_event \<Rightarrow> 's hal_proxy \<Rightarrow> (status \<times> 's hal_proxy) option" where
  "aidl_injectSensorData ops read_float convertToNewEvent convertToOldEvent mem event p =
     (case convertToHidlEvent mem event of
        None \<Rightarrow> None
      | Some hidlEvent \<Rightarrow> Some (apfst resultToAStatus
          (proxy_injectSensorData ops convertToNewEvent
            (convertToOldEvent (decode_event read_float hidlEvent)) p)))"

text \<open>The proxy gets the wrapper that \<open>initialize\<close> makes around the callback, which is never null.\<close>

definition aidl_initialize ::
    "'s subhal_ops \<Rightarrow> (nat \<Rightarrow> 's \<Rightarrow> result \<times> 's) \<Rightarrow> bool \<Rightarrow> bool \<Rightarrow> bool \<Rightarrow> bool \<Rightarrow> bool \<Rightarrow> int \<Rightarrow> int \<Rightarrow>
      's multihal \<Rightarrow> status \<times> 's multihal" where
  "aidl_initialize ops init in_sensorsCallback eflag wflag pointer write_ok t1 t2 s =
     (let dynamicCallback = True in
      apfst resultToAStatus
        (initializeCommon ops init dynamicCallback eflag wflag pointer write_ok t1 t2 s))"

text \<open>A constant that the interface does not define ends the service; any other request for a
  direct channel is refused as unsupported when the sub-HALs are those of Bosch.\<close>

lemma unknown_constant_aborts:
  "aidl_configDirectReport ops h c rate p = None \<longleftrightarrow> (\<exists>n. rate = AIDL_other_rate n)"
  "aidl_setOperationMode ops mode p = None \<longleftrightarrow> (\<exists>n. mode = AIDL_other_mode n)"
  "aidl_registerDirectChannel ops mk mem p = None \<longleftrightarrow>
     (\<exists>n. am_type mem = AIDL_other_mem n) \<or> (\<exists>n. am_format mem = AIDL_other_format n)"
  unfolding aidl_configDirectReport_def aidl_setOperationMode_def aidl_registerDirectChannel_def
    convertRateLevel_def convertOperationMode_def convertSharedMemInfo_def convertSharedMemType_def
    convertSharedMemFormat_def
  subgoal by (cases rate) simp_all
  subgoal by (cases mode) simp_all
  subgoal by (cases "am_type mem"; cases "am_format mem") simp_all
  done

lemma bosch_direct_channel_refused:
  assumes "convertSharedMemInfo mk mem = Some m"
  shows "\<exists>p'. aidl_registerDirectChannel (bosch_ops stale) mk mem p =
    Some ((EX_UNSUPPORTED_OPERATION, -1), p')"
  using assms by (auto simp: aidl_registerDirectChannel_def proxy_registerDirectChannel_def
      call_subhal_def bosch_ops_def subhal_registerDirectChannel_def resultToAStatus_def
      split: option.split)

section \<open>With and without the proxy\<close>

lemma resultToAStatus_inject: "resultToAStatus a = resultToAStatus b \<longleftrightarrow> a = b"
  by (cases a; cases b; simp add: resultToAStatus_def)

lemma resultToAStatus_ok: "resultToAStatus r = S_OK \<longleftrightarrow> r = OK"
  by (cases r; simp add: resultToAStatus_def)

text \<open>The AIDL HAL of \<open>aidl/\<close> and a proxy with one Bosch sub-HAL that holds the same sensors.\<close>

definition same_sensors :: "sensors_hal \<Rightarrow> sensor_map hal_proxy \<Rightarrow> bool" where
  "same_sensors s p \<longleftrightarrow> (\<exists>m. mSubHalList p = [m] \<and> sm_sensors m = sm_sensors s)"

lemma same_sensors_initial:
  "same_sensors new_sensors_hal (new_HalProxy (bosch_ops stale) [] [new_bosch_subhal])"
  by (simp add: same_sensors_def new_hals_sensors new_HalProxy_def initializeSensorList_def
      split: prod.split)

lemma on_sensor_same:
  assumes "sm_sensors s = sm_sensors m"
    and "\<And>sn. snd (call sn) = snd (call' sn)"
  shows "sm_sensors (snd (on_sensor bad h call s)) = sm_sensors (snd (on_sensor bad' h call' m))"
  using assms by (simp add: on_sensor_def split_beta split: option.split)

lemma proxy_single:
  assumes "mSubHalList p = [m]" "subHalIndexIsClear h"
  shows "proxy_activate ops h e p = call_subhal 0 (sh_activate ops h e) p"
    "proxy_batch ops h t l p = call_subhal 0 (sh_batch ops h t l) p"
    "proxy_flush ops h p = call_subhal 0 (sh_flush ops h) p"
  using reaches_named [of h 0 p ops] assms
  by (simp_all add: reaches_def setSubHalIndex_def)

text \<open>The AIDL service and an AIDL proxy with one Bosch sub-HAL answer activate and batch with
  the same status, post the same flush events, succeed on flush together, and keep holding
  the same sensors.\<close>

theorem aidl_hals_agree:
  assumes "same_sensors s p" "subHalIndexIsClear h"
  shows "same_sensors (snd (activate_aidl h e s)) (snd (aidl_activate (bosch_ops stale) h e p)) \<and>
    fst (activate_aidl h e s) = fst (aidl_activate (bosch_ops stale) h e p) \<and>
    same_sensors (snd (batch_aidl h t l s)) (snd (aidl_batch (bosch_ops stale) h t l p)) \<and>
    fst (batch_aidl h t l s) = fst (aidl_batch (bosch_ops stale) h t l p) \<and>
    snd (fst (flush_aidl stale h s)) = snd (fst (aidl_flush (bosch_ops stale) h p)) \<and>
    (fst (fst (flush_aidl stale h s)) = S_OK) =
      (fst (fst (aidl_flush (bosch_ops stale) h p)) = S_OK)"
proof -
  obtain m where m: "mSubHalList p = [m]" "sm_sensors m = sm_sensors s"
    using assms(1) by (auto simp: same_sensors_def)
  note one = proxy_single [OF m(1) assms(2)]
  have call: "call_subhal 0 f p = (fst (f m), p\<lparr>mSubHalList := [snd (f m)]\<rparr>)" for f :: "sensor_map \<Rightarrow> 'r \<times> sensor_map"
    by (simp add: call_subhal_def m(1) split: prod.split)
  have fst_same: "fst (on_sensor bad h c m) =
      (case map_of (sm_sensors s) h of None \<Rightarrow> bad | Some sn \<Rightarrow> fst (c sn))"
    for bad and c :: "sensor \<Rightarrow> 'r \<times> sensor"
    by (simp add: on_sensor_answer m(2))
  have state: "same_sensors (snd (on_sensor b h c s)) (p\<lparr>mSubHalList := [snd (on_sensor b' h c' m)]\<rparr>)"
    if "\<And>sn. snd (c sn) = snd (c' sn)"
    for b b' and c :: "sensor \<Rightarrow> status \<times> sensor" and c' :: "sensor \<Rightarrow> result \<times> sensor"
    using on_sensor_same [of s m c c' b h b'] that m(2) by (simp add: same_sensors_def)
  have a: "same_sensors (snd (activate_aidl h e s)) (snd (aidl_activate (bosch_ops stale) h e p))"
    by (simp add: aidl_activate_def one bosch_ops_def call subhal_activate_def activate_aidl_def state)
  have b: "same_sensors (snd (batch_aidl h t l s)) (snd (aidl_batch (bosch_ops stale) h t l p))"
    by (simp add: aidl_batch_def one bosch_ops_def call subhal_batch_def batch_aidl_def
        sensor_batch_same state)
  show ?thesis
    using a b
    by (simp add: aidl_activate_def aidl_batch_def aidl_flush_def one bosch_ops_def call
        subhal_activate_def subhal_batch_def subhal_flush_def activate_aidl_def batch_aidl_def
        flush_aidl_def on_sensor_answer m(2) resultToAStatus_def sensor_flush_def
        sensor_flush_aidl_def split: option.split)
qed

theorem aidl_hals_agree_witness:
  "fst (aidl_activate (bosch_ops 0) 2 True (new_HalProxy (bosch_ops 0) [] [new_bosch_subhal])) = S_OK \<and>
   fst (aidl_activate (bosch_ops 0) 3 True (new_HalProxy (bosch_ops 0) [] [new_bosch_subhal])) =
     EX_ILLEGAL_ARGUMENT"
proof -
  have "subHalIndexIsClear 2" "subHalIndexIsClear 3" by (simp_all add: subHalIndexIsClear_def)
  moreover have "fst (activate_aidl 2 True new_sensors_hal) = S_OK"
    "fst (activate_aidl 3 True new_sensors_hal) = EX_ILLEGAL_ARGUMENT"
    by (simp_all add: activate_aidl_def on_sensor_answer new_hals_sensors)
  ultimately show ?thesis
    using aidl_hals_agree [OF same_sensors_initial [of 0], of 2 True 0]
      aidl_hals_agree [OF same_sensors_initial [of 0], of 3 True 0] by simp
qed

text \<open>Where they differ: a flush of a disabled sensor is a service-specific error without the proxy
  and an illegal argument with it; an additional-info event is accepted without the proxy and
  refused with it.\<close>

lemma flush_of_disabled_differs:
  assumes "map_of (sm_sensors s) h = Some sn" "\<not> mIsEnabled sn"
  shows "fst (fst (flush_aidl stale h s)) = ERROR_BAD_VALUE"
  using assms by (simp add: flush_aidl_def on_sensor_answer sensor_flush_aidl_def)

lemma proxied_flush_never_bad_value: "fst (fst (aidl_flush ops h p)) \<noteq> ERROR_BAD_VALUE"
  by (cases "fst (fst (proxy_flush ops h p))")
    (auto simp: aidl_flush_def resultToAStatus_def apfst_def map_prod_def split: prod.split)

lemma additional_info_differs:
  assumes "map_of (sm_sensors s) (ev_handle ev) = Some sn" "ev_type ev = SENSOR_TYPE_ADDITIONAL_INFO"
  shows "fst (injectSensorData_aidl ev s) = S_OK"
    "fst (subhal_injectSensorData ev m) \<noteq> OK"
  using assms by (simp_all add: injectSensorData_aidl_def subhal_injectSensorData_def
      on_sensor_answer sensor_injectEvent_aidl_def sensor_injectEvent_def split: option.split)

end
