(* ===== verification/Subhal_Refinement.thy ===== *)
theory Subhal_Refinement
  imports Hal_Proxy
begin

text \<open>
  Two interfaces for which the proxy must be generic in its sub-HALs.  \<open>subhal_refinement\<close>: one
  kind of sub-HAL implements another through a projection of its state; then a proxy over the
  first implements a proxy over the second, with the same answers, posts and sensor list.
  \<open>subhal_frame\<close>: a part of the state that no call of the framework changes.
\<close>

section \<open>Runs of the framework with their answers\<close>

fun framework_answer ::
    "'s subhal_ops \<Rightarrow> (rat event \<Rightarrow> rat event) \<Rightarrow> framework_call \<Rightarrow> 's hal_proxy \<Rightarrow>
      (result \<times> post list) \<times> 's hal_proxy" where
  "framework_answer ops conv (F_activate h e) p = (case proxy_activate ops h e p of (r, p') \<Rightarrow> ((r, []), p'))"
| "framework_answer ops conv (F_batch h t l) p = (case proxy_batch ops h t l p of (r, p') \<Rightarrow> ((r, []), p'))"
| "framework_answer ops conv (F_flush h) p = proxy_flush ops h p"
| "framework_answer ops conv (F_inject e) p =
     (case proxy_injectSensorData ops conv e p of (r, p') \<Rightarrow> ((r, []), p'))"
| "framework_answer ops conv (F_mode m) p = (case setOperationMode ops m p of (r, p') \<Rightarrow> ((r, []), p'))"

fun framework_run ::
    "'s subhal_ops \<Rightarrow> (rat event \<Rightarrow> rat event) \<Rightarrow> framework_call list \<Rightarrow> 's hal_proxy \<Rightarrow>
      (result \<times> post list) list \<times> 's hal_proxy" where
  "framework_run ops conv [] p = ([], p)"
| "framework_run ops conv (c # cs) p = (case framework_answer ops conv c p of (r, p1) \<Rightarrow>
     case framework_run ops conv cs p1 of (rs, p2) \<Rightarrow> (r # rs, p2))"

lemma framework_answer_step: "snd (framework_answer ops conv c p) = framework_step ops conv c p"
  by (cases c) (simp_all add: case_prod_beta)

lemma framework_run_fold: "snd (framework_run ops conv cs p) = fold (framework_step ops conv) cs p"
  by (induction cs arbitrary: p) (simp_all add: framework_answer_step [symmetric] case_prod_beta)

lemma length_framework_run: "length (fst (framework_run ops conv cs p)) = length cs"
  by (induction cs arbitrary: p) (simp_all add: case_prod_beta)

section \<open>Refinement of the sub-HALs\<close>

definition map_subhals :: "('s \<Rightarrow> 't) \<Rightarrow> 's hal_proxy \<Rightarrow> 't hal_proxy" where
  "map_subhals f p = \<lparr> mSubHalList = map f (mSubHalList p), mSensors = mSensors p,
     mDynamicSensors = mDynamicSensors p, mCurrentOperationMode = mCurrentOperationMode p,
     mDirectChannelSubHal = mDirectChannelSubHal p \<rparr>"

lemma map_subhals_fields [simp]:
  "mSubHalList (map_subhals f p) = map f (mSubHalList p)"
  "mSensors (map_subhals f p) = mSensors p"
  "mDynamicSensors (map_subhals f p) = mDynamicSensors p"
  "mCurrentOperationMode (map_subhals f p) = mCurrentOperationMode p"
  "mDirectChannelSubHal (map_subhals f p) = mDirectChannelSubHal p"
  by (simp_all add: map_subhals_def)

text \<open>A call answers alike and acts on the projected state.\<close>

definition call_refines :: "('s \<Rightarrow> 't) \<Rightarrow> ('s \<Rightarrow> 'r \<times> 's) \<Rightarrow> ('t \<Rightarrow> 'r \<times> 't) \<Rightarrow> bool" where
  "call_refines f m m' \<longleftrightarrow> (\<forall>s. m' (f s) = apsnd f (m s))"

lemma call_subhal_refines:
  assumes "call_refines f m m'" "i < length (mSubHalList p)"
  shows "call_subhal i m' (map_subhals f p) = apsnd (map_subhals f) (call_subhal i m p)"
  using assms by (simp add: call_subhal_def call_refines_def map_subhals_def map_update
      case_prod_beta apsnd_def)

lemma valid_index_refines: "isSubHalIndexValid h (map_subhals f p) = isSubHalIndexValid h p"
  by (simp add: isSubHalIndexValid_def)

lemma flip_modes_refines:
  assumes "call_refines f (set_mode m) (set_mode' m)"
  shows "flip_modes set_mode' m (map f ss) =
    (case flip_modes set_mode m ss of (r, ss', n) \<Rightarrow> (r, map f ss', n))"
proof (induction ss)
  case (Cons s ss)
  have "set_mode' m (f s) = apsnd f (set_mode m s)" using assms by (simp add: call_refines_def)
  then show ?case by (simp add: Cons.IH case_prod_beta)
qed simp

locale subhal_refinement =
  fixes ops :: "'s subhal_ops" and ops' :: "'t subhal_ops" and f :: "'s \<Rightarrow> 't"
  assumes list_refines: "sh_getSensorsList ops' (f s) = sh_getSensorsList ops s"
    and mode_refines: "call_refines f (sh_setOperationMode ops m) (sh_setOperationMode ops' m)"
    and activate_refines: "call_refines f (sh_activate ops h e) (sh_activate ops' h e)"
    and batch_refines: "call_refines f (sh_batch ops h t l) (sh_batch ops' h t l)"
    and flush_refines: "call_refines f (sh_flush ops h) (sh_flush ops' h)"
    and inject_refines: "call_refines f (sh_injectSensorData ops ev) (sh_injectSensorData ops' ev)"
begin

lemma proxy_mode_refines:
  "setOperationMode ops' m (map_subhals f p) = apsnd (map_subhals f) (setOperationMode ops m p)"
proof -
  obtain r ss n where *: "flip_modes (sh_setOperationMode ops) m (mSubHalList p) = (r, ss, n)"
    by (metis prod_cases3)
  have flip: "flip_modes (sh_setOperationMode ops') m (map f (mSubHalList p)) = (r, map f ss, n)"
    using flip_modes_refines [where set_mode = "sh_setOperationMode ops" and
        set_mode' = "sh_setOperationMode ops'", OF mode_refines] by (simp add: *)
  have way: "sh_setOperationMode ops' c (f s) = apsnd f (sh_setOperationMode ops c s)" for c s
    using mode_refines by (simp add: call_refines_def)
  show ?thesis
    by (simp add: setOperationMode_def * flip map_subhals_def way take_map drop_map)
qed

lemma answer_refines:
  "framework_answer ops' conv c (map_subhals f p) = apsnd (map_subhals f) (framework_answer ops conv c p)"
proof -
  have valid: "unat (extractSubHalIndex h) < length (mSubHalList p)" if "isSubHalIndexValid h p" for h
    using that by (simp add: isSubHalIndexValid_def)
  note call = call_subhal_refines [OF _ valid]
  show ?thesis
    by (cases c) (simp_all add: proxy_activate_def proxy_batch_def proxy_flush_def
        proxy_injectSensorData_def valid_index_refines call [OF activate_refines]
        call [OF batch_refines] call [OF flush_refines] call [OF inject_refines] proxy_mode_refines case_prod_beta apsnd_def map_prod_def)
qed

lemma run_refines:
  "framework_run ops' conv cs (map_subhals f p) = apsnd (map_subhals f) (framework_run ops conv cs p)"
proof (induction cs arbitrary: p)
  case (Cons c cs)
  obtain r p1 where "framework_answer ops conv c p = (r, p1)" by fastforce
  then show ?case by (simp add: answer_refines Cons.IH case_prod_beta)
qed simp

lemma add_subhals_refines: "add_subhals ops' i (map f ss) acc = add_subhals ops i ss acc"
  by (induction ss arbitrary: i acc) (simp_all add: list_refines)

lemma new_HalProxy_refines:
  "new_HalProxy ops' (map f l1) (map f l2) = map_subhals f (new_HalProxy ops l1 l2)"
proof -
  have "add_subhals ops' 0 (map f l1 @ map f l2) acc = add_subhals ops 0 (l1 @ l2) acc" for acc
    using add_subhals_refines [of 0 "l1 @ l2"] by simp
  then show ?thesis
    by (simp add: new_HalProxy_def initializeSensorList_def map_subhals_def case_prod_beta)
qed

lemma proxy_refines:
  "framework_run ops' conv cs (new_HalProxy ops' (map f l1) (map f l2)) =
     apsnd (map_subhals f) (framework_run ops conv cs (new_HalProxy ops l1 l2))"
  by (simp add: new_HalProxy_refines run_refines)

end

section \<open>What the calls leave alone\<close>

definition call_keeps :: "('s \<Rightarrow> 'a) \<Rightarrow> ('s \<Rightarrow> 'r \<times> 's) \<Rightarrow> bool" where
  "call_keeps g m \<longleftrightarrow> (\<forall>s. g (snd (m s)) = g s)"

lemma call_subhal_keeps:
  assumes "call_keeps g m"
  shows "map g (mSubHalList (snd (call_subhal i m p))) = map g (mSubHalList p)"
proof (cases "i < length (mSubHalList p)")
  case True
  then show ?thesis using assms
    by (simp add: call_subhal_def call_keeps_def case_prod_beta map_update nth_equalityI
        list_update_same_conv)
qed (simp add: call_subhal_def case_prod_beta list_update_beyond)

lemma flip_modes_keeps:
  assumes "call_keeps g (set_mode m)"
  shows "map g (fst (snd (flip_modes set_mode m ss))) = map g ss"
  using assms by (induction ss) (auto simp: call_keeps_def case_prod_beta)

locale subhal_frame =
  fixes ops :: "'s subhal_ops" and g :: "'s \<Rightarrow> 'a"
  assumes mode_keeps: "call_keeps g (sh_setOperationMode ops m)"
    and activate_keeps: "call_keeps g (sh_activate ops h e)"
    and batch_keeps: "call_keeps g (sh_batch ops h t l)"
    and flush_keeps: "call_keeps g (sh_flush ops h)"
    and inject_keeps: "call_keeps g (sh_injectSensorData ops ev)"
begin

lemma proxy_mode_keeps:
  "map g (mSubHalList (snd (setOperationMode ops m p))) = map g (mSubHalList p)"
proof -
  obtain r ss n where *: "flip_modes (sh_setOperationMode ops) m (mSubHalList p) = (r, ss, n)"
    by (metis prod_cases3)
  have ss: "map g ss = map g (mSubHalList p)"
    using flip_modes_keeps [where set_mode = "sh_setOperationMode ops", OF mode_keeps,
        of m "mSubHalList p"] * by simp
  have set: "g (snd (sh_setOperationMode ops c s)) = g s" for c s
    using mode_keeps by (simp add: call_keeps_def)
  have "map g (map (\<lambda>s. snd (sh_setOperationMode ops c s)) (take n ss) @ drop n ss) =
      map g (take n ss @ drop n ss)" for c
    unfolding map_append map_map by (simp add: set comp_def)
  then have "map g (map (\<lambda>s. snd (sh_setOperationMode ops c s)) (take n ss) @ drop n ss) = map g ss" for c
    by simp
  with ss show ?thesis by (simp add: setOperationMode_def * split: if_splits)
qed

lemma framework_step_keeps: "map g (mSubHalList (framework_step ops conv c p)) = map g (mSubHalList p)"
  by (cases c) (simp_all add: proxy_activate_def proxy_batch_def proxy_flush_def
      proxy_injectSensorData_def proxy_mode_keeps call_subhal_keeps activate_keeps batch_keeps
      flush_keeps inject_keeps)

lemma framework_run_keeps: "map g (mSubHalList (fold (framework_step ops conv) cs p)) = map g (mSubHalList p)"
  by (induction cs arbitrary: p) (simp_all add: framework_step_keeps)

end

end
