(* ===== verification/Version_Adapters.thy ===== *)
theory Version_Adapters
  imports Hal_Callback Subhal_Refinement
begin

text \<open>
  The adapters between the interface versions 2.0 and 2.1.  The proxy sees a sub-HAL through
  \<open>SubHalWrapperV2_0\<close> or \<open>SubHalWrapperV2_1\<close> (\<open>SubHalWrapper.h\<close>) and hands it a
  \<open>HalProxyCallbackV2_0\<close> or \<open>HalProxyCallbackV2_1\<close> (\<open>HalProxyCallback.h\<close>); the Bosch sub-HAL
  implements either version (\<open>SensorsSubHal.h\<close>) and calls back through
  \<open>HalProxyCallbackWrapperV2_0\<close> or \<open>HalProxyCallbackWrapperV2_1\<close> (\<open>IHalProxyCallbackWrapper.h\<close>).
  The main results: a proxy that mixes sub-HALs of both versions answers and keeps its state as
  one without adapters, and once initialised every sub-HAL posts under its own index.  The last
  section holds the entry points that the 2.0 and 2.1 services and the proxy give to clients.
\<close>

section \<open>The conversions\<close>

text \<open>\<open>convertV2_1.h\<close> belongs to the platform: its functions are arguments, over descriptions \<open>'i\<close>
  and events \<open>'e\<close> of version 1.0.  The old and new types share their layout there, so that a
  description or an event which is converted to the old type and back is the same again.\<close>

record ('i, 'e) convertV2_1 =
  convertToNewSensorInfos :: "'i list \<Rightarrow> sensor_info list"
  convertToOldSensorInfos :: "sensor_info list \<Rightarrow> 'i list"
  convertToNewEvent :: "'e \<Rightarrow> rat event"
  convertToOldEvent :: "rat event \<Rightarrow> 'e"
  convertToNewEvents :: "'e list \<Rightarrow> rat event list"
  convertToOldEvents :: "rat event list \<Rightarrow> 'e list"

definition same_layout :: "('i, 'e) convertV2_1 \<Rightarrow> bool" where
  "same_layout conv \<longleftrightarrow>
     (\<forall>infos. convertToNewSensorInfos conv (convertToOldSensorInfos conv infos) = infos) \<and>
     (\<forall>event. convertToNewEvent conv (convertToOldEvent conv event) = event) \<and>
     (\<forall>events. convertToNewEvents conv (convertToOldEvents conv events) = events)"

section \<open>The callbacks of the proxy\<close>

text \<open>A callback object holds the index of its sub-HAL; the proxy behind its two pointers is the
  state that the methods take.  \<open>None\<close> is the end of the process by \<open>LOG_ALWAYS_FATAL\<close>.  The
  methods for dynamic sensors yield what the framework is told.\<close>

datatype callback_V2_0 = HalProxyCallbackV2_0 u64

datatype callback_V2_1 = HalProxyCallbackV2_1 u64

definition base_connected ::
    "u64 \<Rightarrow> sensor_info list \<Rightarrow> 's multihal \<Rightarrow> sensor_info list \<times> 's multihal" where
  "base_connected subHalIndex added = (\<lambda>(p, q).
     case onDynamicSensorsConnected added subHalIndex p of (told, p') \<Rightarrow> (told, (p', q)))"

definition base_disconnected :: "u64 \<Rightarrow> handle list \<Rightarrow> 's multihal \<Rightarrow> handle list \<times> 's multihal" where
  "base_disconnected subHalIndex removed = (\<lambda>(p, q).
     case onDynamicSensorsDisconnected removed subHalIndex p of (told, p') \<Rightarrow> (told, (p', q)))"

definition base_createScopedWakelock ::
    "bool \<Rightarrow> int \<Rightarrow> 's multihal \<Rightarrow> scoped_wakelock \<times> 's multihal" where
  "base_createScopedWakelock lock created = (\<lambda>(p, q).
     case new_ScopedWakelock lock created q of (wakelock, q') \<Rightarrow> (wakelock, (p, q')))"

fun V2_0_onDynamicSensorsConnected ::
    "('i, 'e) convertV2_1 \<Rightarrow> callback_V2_0 \<Rightarrow> 'i list \<Rightarrow> 's multihal \<Rightarrow>
      (sensor_info list \<times> 's multihal) option" where
  "V2_0_onDynamicSensorsConnected conv (HalProxyCallbackV2_0 i) added mh =
     Some (base_connected i (convertToNewSensorInfos conv added) mh)"

fun V2_0_onDynamicSensorsDisconnected ::
    "callback_V2_0 \<Rightarrow> handle list \<Rightarrow> 's multihal \<Rightarrow> handle list \<times> 's multihal" where
  "V2_0_onDynamicSensorsDisconnected (HalProxyCallbackV2_0 i) removed mh =
     base_disconnected i removed mh"

fun V2_0_postEvents ::
    "('i, 'e) convertV2_1 \<Rightarrow> nat \<Rightarrow> bool \<Rightarrow> int \<Rightarrow> callback_V2_0 \<Rightarrow> 'e list \<Rightarrow> scoped_wakelock \<Rightarrow>
      's multihal \<Rightarrow> 's multihal" where
  "V2_0_postEvents conv avail write_ok now (HalProxyCallbackV2_0 i) events wakelock mh =
     callback_postEvents avail write_ok now i (convertToNewEvents conv events) wakelock mh"

fun V2_1_onDynamicSensorsConnected_2_1 ::
    "callback_V2_1 \<Rightarrow> sensor_info list \<Rightarrow> 's multihal \<Rightarrow> (sensor_info list \<times> 's multihal) option" where
  "V2_1_onDynamicSensorsConnected_2_1 (HalProxyCallbackV2_1 i) added mh =
     Some (base_connected i added mh)"

definition V2_1_onDynamicSensorsConnected ::
    "callback_V2_1 \<Rightarrow> 'i list \<Rightarrow> 's multihal \<Rightarrow> (sensor_info list \<times> 's multihal) option" where
  "V2_1_onDynamicSensorsConnected cb added mh = None"

fun V2_1_onDynamicSensorsDisconnected ::
    "callback_V2_1 \<Rightarrow> handle list \<Rightarrow> 's multihal \<Rightarrow> handle list \<times> 's multihal" where
  "V2_1_onDynamicSensorsDisconnected (HalProxyCallbackV2_1 i) removed mh =
     base_disconnected i removed mh"

fun V2_1_postEvents ::
    "nat \<Rightarrow> bool \<Rightarrow> int \<Rightarrow> callback_V2_1 \<Rightarrow> rat event list \<Rightarrow> scoped_wakelock \<Rightarrow>
      's multihal \<Rightarrow> 's multihal" where
  "V2_1_postEvents avail write_ok now (HalProxyCallbackV2_1 i) events wakelock mh =
     callback_postEvents avail write_ok now i events wakelock mh"

section \<open>The callback as the sub-HAL holds it\<close>

datatype callback_wrapper =
    HalProxyCallbackWrapperV2_0 callback_V2_0
  | HalProxyCallbackWrapperV2_1 callback_V2_1

fun wrapper_onDynamicSensorsConnected ::
    "('i, 'e) convertV2_1 \<Rightarrow> callback_wrapper \<Rightarrow> sensor_info list \<Rightarrow> 's multihal \<Rightarrow>
      (sensor_info list \<times> 's multihal) option" where
  "wrapper_onDynamicSensorsConnected conv (HalProxyCallbackWrapperV2_0 cb) sensorInfos mh =
     V2_0_onDynamicSensorsConnected conv cb (convertToOldSensorInfos conv sensorInfos) mh"
| "wrapper_onDynamicSensorsConnected conv (HalProxyCallbackWrapperV2_1 cb) sensorInfos mh =
     V2_1_onDynamicSensorsConnected_2_1 cb sensorInfos mh"

fun wrapper_onDynamicSensorsDisconnected ::
    "callback_wrapper \<Rightarrow> handle list \<Rightarrow> 's multihal \<Rightarrow> handle list \<times> 's multihal" where
  "wrapper_onDynamicSensorsDisconnected (HalProxyCallbackWrapperV2_0 cb) sensorHandles mh =
     V2_0_onDynamicSensorsDisconnected cb sensorHandles mh"
| "wrapper_onDynamicSensorsDisconnected (HalProxyCallbackWrapperV2_1 cb) sensorHandles mh =
     V2_1_onDynamicSensorsDisconnected cb sensorHandles mh"

fun wrapper_postEvents ::
    "('i, 'e) convertV2_1 \<Rightarrow> nat \<Rightarrow> bool \<Rightarrow> int \<Rightarrow> callback_wrapper \<Rightarrow> rat event list \<Rightarrow>
      scoped_wakelock \<Rightarrow> 's multihal \<Rightarrow> 's multihal" where
  "wrapper_postEvents conv avail write_ok now (HalProxyCallbackWrapperV2_0 cb) events wakelock mh =
     V2_0_postEvents conv avail write_ok now cb (convertToOldEvents conv events) wakelock mh"
| "wrapper_postEvents conv avail write_ok now (HalProxyCallbackWrapperV2_1 cb) events wakelock mh =
     V2_1_postEvents avail write_ok now cb events wakelock mh"

definition wrapper_createScopedWakelock ::
    "callback_wrapper \<Rightarrow> bool \<Rightarrow> int \<Rightarrow> 's multihal \<Rightarrow> scoped_wakelock \<times> 's multihal" where
  "wrapper_createScopedWakelock cb lock created mh = base_createScopedWakelock lock created mh"

section \<open>The sub-HAL interfaces and the wrappers of the proxy\<close>

record 's isensors =
  is_setOperationMode :: "operation_mode \<Rightarrow> 's \<Rightarrow> result \<times> 's"
  is_activate :: "handle \<Rightarrow> bool \<Rightarrow> 's \<Rightarrow> result \<times> 's"
  is_batch :: "handle \<Rightarrow> int \<Rightarrow> int \<Rightarrow> 's \<Rightarrow> result \<times> 's"
  is_flush :: "handle \<Rightarrow> 's \<Rightarrow> (result \<times> post list) \<times> 's"
  is_registerDirectChannel :: "shared_mem_info \<Rightarrow> 's \<Rightarrow> (result \<times> int) \<times> 's"
  is_unregisterDirectChannel :: "int \<Rightarrow> 's \<Rightarrow> result \<times> 's"
  is_configDirectReport :: "handle \<Rightarrow> int \<Rightarrow> rate_level \<Rightarrow> 's \<Rightarrow> (result \<times> int) \<times> 's"
  is_getName :: string

record ('i, 'e, 's) isubhal_V2_0 = "'s isensors" +
  V2_0_getSensorsList :: "'s \<Rightarrow> 'i list"
  V2_0_injectSensorData :: "'e \<Rightarrow> 's \<Rightarrow> result \<times> 's"
  V2_0_initialize :: "callback_V2_0 \<Rightarrow> 's \<Rightarrow> result \<times> 's"

record 's isubhal_V2_1 = "'s isensors" +
  V2_1_getSensorsList_2_1 :: "'s \<Rightarrow> sensor_info list"
  V2_1_injectSensorData_2_1 :: "rat event \<Rightarrow> 's \<Rightarrow> result \<times> 's"
  V2_1_initialize :: "callback_V2_1 \<Rightarrow> 's \<Rightarrow> result \<times> 's"

text \<open>What \<open>ISubHalWrapperBase\<close> has beyond the calls that the proxy forwards.\<close>

record 's subhal_wrapper = "'s subhal_ops" +
  sw_supportsNewEvents :: bool
  sw_initialize :: "u64 \<Rightarrow> 's \<Rightarrow> result \<times> 's"
  sw_getName :: string

definition SubHalWrapperV2_0 ::
    "('i, 'e) convertV2_1 \<Rightarrow> ('i, 'e, 's) isubhal_V2_0 \<Rightarrow> 's subhal_wrapper" where
  "SubHalWrapperV2_0 conv subHal = \<lparr>
     sh_getSensorsList = (\<lambda>s. convertToNewSensorInfos conv (V2_0_getSensorsList subHal s)),
     sh_setOperationMode = is_setOperationMode subHal, sh_activate = is_activate subHal,
     sh_batch = is_batch subHal, sh_flush = is_flush subHal,
     sh_injectSensorData = (\<lambda>event. V2_0_injectSensorData subHal (convertToOldEvent conv event)),
     sh_registerDirectChannel = is_registerDirectChannel subHal,
     sh_unregisterDirectChannel = is_unregisterDirectChannel subHal,
     sh_configDirectReport = is_configDirectReport subHal,
     sw_supportsNewEvents = False,
     sw_initialize = (\<lambda>subHalIndex. V2_0_initialize subHal (HalProxyCallbackV2_0 subHalIndex)),
     sw_getName = is_getName subHal \<rparr>"

definition SubHalWrapperV2_1 :: "'s isubhal_V2_1 \<Rightarrow> 's subhal_wrapper" where
  "SubHalWrapperV2_1 subHal = \<lparr>
     sh_getSensorsList = V2_1_getSensorsList_2_1 subHal,
     sh_setOperationMode = is_setOperationMode subHal, sh_activate = is_activate subHal,
     sh_batch = is_batch subHal, sh_flush = is_flush subHal,
     sh_injectSensorData = V2_1_injectSensorData_2_1 subHal,
     sh_registerDirectChannel = is_registerDirectChannel subHal,
     sh_unregisterDirectChannel = is_unregisterDirectChannel subHal,
     sh_configDirectReport = is_configDirectReport subHal,
     sw_supportsNewEvents = True,
     sw_initialize = (\<lambda>subHalIndex. V2_1_initialize subHal (HalProxyCallbackV2_1 subHalIndex)),
     sw_getName = is_getName subHal \<rparr>"

section \<open>The Bosch sub-HAL in both versions\<close>

record bosch_subhal = sensor_map +
  sub_mCallback :: "callback_wrapper option"

definition new_SensorsSubHal :: bosch_subhal where
  "new_SensorsSubHal = AddSensor Smi240Gyro (AddSensor Smi240Accel
     \<lparr> sm_sensors = [], sm_mNextHandle = 1, sub_mCallback = None \<rparr>)"

definition base_initialize :: "callback_wrapper \<Rightarrow> bosch_subhal \<Rightarrow> result \<times> bosch_subhal" where
  "base_initialize halProxyCallback s =
     (OK, snd (subhal_setOperationMode NORMAL (s\<lparr>sub_mCallback := Some halProxyCallback\<rparr>)))"

definition SensorsSubHalV2_0 ::
    "('i, 'e) convertV2_1 \<Rightarrow> int \<Rightarrow> ('i, 'e, bosch_subhal) isubhal_V2_0" where
  "SensorsSubHalV2_0 conv stale = \<lparr>
     is_setOperationMode = subhal_setOperationMode, is_activate = subhal_activate,
     is_batch = subhal_batch, is_flush = subhal_flush stale,
     is_registerDirectChannel = subhal_registerDirectChannel,
     is_unregisterDirectChannel = subhal_unregisterDirectChannel,
     is_configDirectReport = subhal_configDirectReport, is_getName = ''BoschSubHal'',
     V2_0_getSensorsList = (\<lambda>s. convertToOldSensorInfos conv (hal_getSensorsList s)),
     V2_0_injectSensorData = (\<lambda>event. subhal_injectSensorData (convertToNewEvent conv event)),
     V2_0_initialize = (\<lambda>cb. base_initialize (HalProxyCallbackWrapperV2_0 cb)) \<rparr>"

definition SensorsSubHalV2_1 :: "int \<Rightarrow> bosch_subhal isubhal_V2_1" where
  "SensorsSubHalV2_1 stale = \<lparr>
     is_setOperationMode = subhal_setOperationMode, is_activate = subhal_activate,
     is_batch = subhal_batch, is_flush = subhal_flush stale,
     is_registerDirectChannel = subhal_registerDirectChannel,
     is_unregisterDirectChannel = subhal_unregisterDirectChannel,
     is_configDirectReport = subhal_configDirectReport, is_getName = ''BoschSubHal'',
     V2_1_getSensorsList_2_1 = hal_getSensorsList,
     V2_1_injectSensorData_2_1 = subhal_injectSensorData,
     V2_1_initialize = (\<lambda>cb. base_initialize (HalProxyCallbackWrapperV2_1 cb)) \<rparr>"

text \<open>\<open>ISensorsSubHalBase::postEvents\<close> as the sub-HAL performs it; \<open>None\<close> is the use of the null
  pointer that \<open>mCallback\<close> is before \<open>initialize\<close>.\<close>

definition base_postEvents ::
    "('i, 'e) convertV2_1 \<Rightarrow> nat \<Rightarrow> bool \<Rightarrow> int \<Rightarrow> int \<Rightarrow> rat event list \<Rightarrow> bool \<Rightarrow> bosch_subhal \<Rightarrow>
      's multihal \<Rightarrow> 's multihal option" where
  "base_postEvents conv avail write_ok created now events wakeup s mh = (case sub_mCallback s of
     None \<Rightarrow> None
   | Some cb \<Rightarrow> (case wrapper_createScopedWakelock cb wakeup created mh of
       (wakelock, mh') \<Rightarrow> Some (wrapper_postEvents conv avail write_ok now cb events wakelock mh')))"

section \<open>A proxy with sub-HALs of both versions\<close>

text \<open>An element of \<open>mSubHalList\<close>: a wrapper with the sub-HAL that it points to.  A virtual call
  goes to the wrapper of the element.\<close>

datatype loaded_subhal =
    Loaded_2_0 (bosch_of: bosch_subhal)
  | Loaded_2_1 (bosch_of: bosch_subhal)

fun virtual_call ::
    "('i, 'e) convertV2_1 \<Rightarrow> int \<Rightarrow> (bosch_subhal subhal_wrapper \<Rightarrow> bosch_subhal \<Rightarrow> 'r \<times> bosch_subhal) \<Rightarrow>
      loaded_subhal \<Rightarrow> 'r \<times> loaded_subhal" where
  "virtual_call conv stale method (Loaded_2_0 b) =
     (case method (SubHalWrapperV2_0 conv (SensorsSubHalV2_0 conv stale)) b of
       (r, b') \<Rightarrow> (r, Loaded_2_0 b'))"
| "virtual_call conv stale method (Loaded_2_1 b) =
     (case method (SubHalWrapperV2_1 (SensorsSubHalV2_1 stale)) b of
       (r, b') \<Rightarrow> (r, Loaded_2_1 b'))"

definition loaded_ops :: "('i, 'e) convertV2_1 \<Rightarrow> int \<Rightarrow> loaded_subhal subhal_ops" where
  "loaded_ops conv stale = \<lparr>
     sh_getSensorsList = (\<lambda>s. fst (virtual_call conv stale (\<lambda>w b. (sh_getSensorsList w b, b)) s)),
     sh_setOperationMode = (\<lambda>m. virtual_call conv stale (\<lambda>w. sh_setOperationMode w m)),
     sh_activate = (\<lambda>h e. virtual_call conv stale (\<lambda>w. sh_activate w h e)),
     sh_batch = (\<lambda>h t l. virtual_call conv stale (\<lambda>w. sh_batch w h t l)),
     sh_flush = (\<lambda>h. virtual_call conv stale (\<lambda>w. sh_flush w h)),
     sh_injectSensorData = (\<lambda>e. virtual_call conv stale (\<lambda>w. sh_injectSensorData w e)),
     sh_registerDirectChannel = (\<lambda>m. virtual_call conv stale (\<lambda>w. sh_registerDirectChannel w m)),
     sh_unregisterDirectChannel = (\<lambda>c. virtual_call conv stale (\<lambda>w. sh_unregisterDirectChannel w c)),
     sh_configDirectReport =
       (\<lambda>h c r. virtual_call conv stale (\<lambda>w. sh_configDirectReport w h c r)) \<rparr>"

definition loaded_initialize ::
    "('i, 'e) convertV2_1 \<Rightarrow> int \<Rightarrow> nat \<Rightarrow> loaded_subhal \<Rightarrow> result \<times> loaded_subhal" where
  "loaded_initialize conv stale subHalIndex =
     virtual_call conv stale (\<lambda>w. sw_initialize w (of_nat subHalIndex))"

section \<open>The versions behave alike\<close>

lemma on_sensor_truncate:
  "call_refines sensor_map.truncate (on_sensor bad h call :: bosch_subhal \<Rightarrow> _) (on_sensor bad h call)"
  by (simp add: call_refines_def on_sensor_def sensor_map.defs case_prod_beta split: option.split)

interpretation forget_callback:
  subhal_refinement "bosch_ops stale :: bosch_subhal subhal_ops" "bosch_ops stale" sensor_map.truncate
  for stale
proof unfold_locales
  fix s :: bosch_subhal and m
  show "sh_getSensorsList (bosch_ops stale) (sensor_map.truncate s) = sh_getSensorsList (bosch_ops stale) s"
    by (simp add: bosch_ops_def hal_getSensorsList_def sensor_map.defs)
  show "call_refines sensor_map.truncate (sh_setOperationMode (bosch_ops stale) m :: bosch_subhal \<Rightarrow> _)
      (sh_setOperationMode (bosch_ops stale) m)"
    by (simp add: call_refines_def bosch_ops_def subhal_setOperationMode_def)
qed (simp_all only: bosch_ops_calls on_sensor_truncate)

lemma virtual_call_refines:
  assumes "\<And>w. w = SubHalWrapperV2_0 conv (SensorsSubHalV2_0 conv stale) \<or>
      w = SubHalWrapperV2_1 (SensorsSubHalV2_1 stale) \<Longrightarrow> method w = m"
  shows "call_refines bosch_of (virtual_call conv stale method) m"
proof -
  have "m (bosch_of s) = apsnd bosch_of (virtual_call conv stale method s)" for s
    using assms by (cases s) (simp_all add: case_prod_beta)
  then show ?thesis by (simp add: call_refines_def)
qed

lemmas adapter_defs = loaded_ops_def SubHalWrapperV2_0_def SubHalWrapperV2_1_def
  SensorsSubHalV2_0_def SensorsSubHalV2_1_def

lemma loaded_refines:
  assumes "same_layout conv"
  shows "subhal_refinement (loaded_ops conv stale) (bosch_ops stale) bosch_of"
proof
  fix s
  show "sh_getSensorsList (bosch_ops stale) (bosch_of s) = sh_getSensorsList (loaded_ops conv stale) s"
    using assms by (cases s) (simp_all add: adapter_defs bosch_ops_def same_layout_def)
qed (use assms in \<open>auto simp: adapter_defs bosch_ops_def same_layout_def intro!: virtual_call_refines\<close>)

definition sensors_of :: "loaded_subhal \<Rightarrow> sensor_map" where
  "sensors_of s = sensor_map.truncate (bosch_of s)"

lemma map_subhals_comp: "map_subhals g (map_subhals f p) = map_subhals (\<lambda>s. g (f s)) p"
  by (simp add: map_subhals_def)


definition identity_conversion :: "(sensor_info, rat event) convertV2_1" where
  "identity_conversion = \<lparr> convertToNewSensorInfos = id, convertToOldSensorInfos = id,
     convertToNewEvent = id, convertToOldEvent = id, convertToNewEvents = id, convertToOldEvents = id \<rparr>"

lemma identity_same_layout: "same_layout identity_conversion"
  by (simp add: same_layout_def identity_conversion_def)

lemma sensors_of_new [simp]:
  "sensors_of (Loaded_2_0 new_SensorsSubHal) = new_bosch_subhal"
  "sensors_of (Loaded_2_1 new_SensorsSubHal) = new_bosch_subhal"
  by (simp_all add: sensors_of_def new_SensorsSubHal_def new_bosch_subhal_def AddSensor_def
      sensor_map.defs)


section \<open>Every sub-HAL keeps its own callback\<close>

fun own_callback :: "nat \<Rightarrow> loaded_subhal \<Rightarrow> callback_wrapper" where
  "own_callback i (Loaded_2_0 b) = HalProxyCallbackWrapperV2_0 (HalProxyCallbackV2_0 (of_nat i))"
| "own_callback i (Loaded_2_1 b) = HalProxyCallbackWrapperV2_1 (HalProxyCallbackV2_1 (of_nat i))"

definition has_callback :: "nat \<Rightarrow> loaded_subhal \<Rightarrow> bool" where
  "has_callback i s \<longleftrightarrow> sub_mCallback (bosch_of s) = Some (own_callback i s)"

definition callback_part :: "loaded_subhal \<Rightarrow> (nat \<Rightarrow> callback_wrapper) \<times> callback_wrapper option" where
  "callback_part s = ((\<lambda>i. own_callback i s), sub_mCallback (bosch_of s))"

lemma has_callback_part: "callback_part s = callback_part s' \<Longrightarrow> has_callback i s \<longleftrightarrow> has_callback i s'"
  by (auto simp: callback_part_def has_callback_def fun_eq_iff)

lemma on_sensor_callback: "sub_mCallback (snd (on_sensor bad h call b)) = sub_mCallback b"
  by (simp add: on_sensor_def case_prod_beta split: option.split)

lemmas bosch_calls = subhal_activate_def subhal_batch_def subhal_flush_def
  subhal_injectSensorData_def subhal_setOperationMode_def on_sensor_callback

lemma virtual_call_keeps:
  assumes "\<And>w b. w = SubHalWrapperV2_0 conv (SensorsSubHalV2_0 conv stale) \<or>
      w = SubHalWrapperV2_1 (SensorsSubHalV2_1 stale) \<Longrightarrow> sub_mCallback (snd (method w b)) = sub_mCallback b"
  shows "call_keeps callback_part (virtual_call conv stale method)"
proof -
  have "callback_part (snd (virtual_call conv stale method s)) = callback_part s" for s
    using assms by (cases s) (simp_all add: callback_part_def case_prod_beta)
  then show ?thesis by (simp add: call_keeps_def)
qed

interpretation callback_frame: subhal_frame "loaded_ops conv stale" callback_part for conv stale
  by unfold_locales (auto simp: adapter_defs bosch_calls intro!: virtual_call_keeps)

lemma loaded_initialize_installs:
  "loaded_initialize conv stale i s = (r, s') \<Longrightarrow> r = OK \<and> has_callback i s'"
  by (cases s) (auto simp: loaded_initialize_def adapter_defs base_initialize_def has_callback_def
      subhal_setOperationMode_def)

lemma initialize_subhals_installs:
  assumes "initialize_subhals (loaded_initialize conv stale) i ss res = (r, ss')"
  shows "length ss' = length ss \<and> r = res \<and> (\<forall>k < length ss. has_callback (i + k) (ss' ! k))"
  using assms
proof (induction ss arbitrary: i res ss')
  case (Cons s ss)
  obtain r1 s1 where 1: "loaded_initialize conv stale i s = (r1, s1)" by fastforce
  obtain ss2 where 2: "initialize_subhals (loaded_initialize conv stale) (Suc i) ss res = (r, ss2)"
    and ss': "ss' = s1 # ss2"
    using Cons.prems 1 loaded_initialize_installs [OF 1] by (auto split: prod.splits)
  show ?case
    using Cons.IH [OF 2] loaded_initialize_installs [OF 1] by (simp add: ss' nth_Cons' less_Suc_eq_0_disj) auto
qed simp

lemma own_callback_posts:
  assumes "same_layout conv" "has_callback i s"
  shows "base_postEvents conv avail ok created now events wakeup (bosch_of s) mh =
      Some (subhal_postEvents avail ok created now (of_nat i) events wakeup mh)"
    and "wrapper_onDynamicSensorsConnected conv (own_callback i s) infos mh =
      Some (base_connected (of_nat i) infos mh)"
  using assms by (cases s; auto simp: base_postEvents_def has_callback_def same_layout_def
      wrapper_createScopedWakelock_def base_createScopedWakelock_def subhal_postEvents_def
      case_prod_beta)+

lemma fold_activate_length:
  "length (mSubHalList (fold (\<lambda>h p. snd (proxy_activate ops h en p)) hs p)) = length (mSubHalList p)"
  by (induction hs arbitrary: p) (simp_all add: proxy_disable_length)

lemma disableAll_length: "length (mSubHalList (disableAllSensors ops p)) = length (mSubHalList p)"
  by (simp add: disableAllSensors_def fold_activate_length)

lemma initializeCommon_installs:
  assumes "initializeCommon (loaded_ops conv stale) (loaded_initialize conv stale)
      callback ef wkf efp write_ok t1 t2 (p, q) = (r, (p', q'))"
  shows "length (mSubHalList p') = length (mSubHalList p) \<and>
    (\<forall>k < length (mSubHalList p). has_callback k (mSubHalList p' ! k))"
proof -
  let ?p1 = "disableAllSensors (loaded_ops conv stale) p"
  let ?init = "initialize_subhals (loaded_initialize conv stale) 0 (mSubHalList ?p1)"
  define res where "res = (if \<not> callback \<or> \<not> efp then BAD_VALUE
      else if \<not> wkf then BAD_VALUE else if \<not> ef then BAD_VALUE else OK)"
  have "snd (?init res) = mSubHalList p'"
    using assms by (auto simp: initializeCommon_def Let_def res_def split: prod.splits)
  then have "?init res = (fst (?init res), mSubHalList p')"
    by (simp add: prod_eq_iff)
  from initialize_subhals_installs [OF this]
  have "length (mSubHalList p') = length (mSubHalList ?p1)"
    "\<forall>k < length (mSubHalList ?p1). has_callback k (mSubHalList p' ! k)" by simp_all
  moreover have "length (mSubHalList ?p1) = length (mSubHalList p)"
    by (rule disableAll_length)
  ultimately show ?thesis by simp
qed

text \<open>C17: After initialize of a proxy over sub-HALs of both versions, and any framework
  calls, a post of the i-th sub-HAL through the callback that it holds is the post of
  events marked with index i, and dynamic sensors that it announces are registered under
  index i; before initialize a post uses a null pointer.\<close>

theorem posts_carry_own_index:
  assumes "same_layout conv"
    and "initializeCommon (loaded_ops conv stale) (loaded_initialize conv stale)
      callback ef wkf efp write_ok t1 t2 (p, q) = (r, (p', q'))"
    and "s = mSubHalList (fold (framework_step (loaded_ops conv stale) old_to_new) cs p') ! i"
    and "i < length (mSubHalList p)"
  shows "base_postEvents conv avail ok created now events wakeup (bosch_of s) mh =
      Some (subhal_postEvents avail ok created now (of_nat i) events wakeup mh) \<and>
    wrapper_onDynamicSensorsConnected conv (the (sub_mCallback (bosch_of s))) infos mh =
      Some (base_connected (of_nat i) infos mh) \<and>
    base_postEvents conv avail ok created now events wakeup new_SensorsSubHal mh = None"
proof -
  let ?l = "mSubHalList (fold (framework_step (loaded_ops conv stale) old_to_new) cs p')"
  have parts: "map callback_part ?l = map callback_part (mSubHalList p')"
    by (rule callback_frame.framework_run_keeps)
  have "i < length (mSubHalList p')" "has_callback i (mSubHalList p' ! i)"
    using initializeCommon_installs [OF assms(2)] assms(4) by simp_all
  moreover have "callback_part (?l ! i) = callback_part (mSubHalList p' ! i)"
    using parts calculation(1) by (metis length_map nth_map)
  ultimately have own: "has_callback i s"
    unfolding assms(3) using has_callback_part by blast
  then have "the (sub_mCallback (bosch_of s)) = own_callback i s" by (simp add: has_callback_def)
  moreover have "base_postEvents conv avail ok created now events wakeup new_SensorsSubHal mh = None"
    by (simp add: base_postEvents_def new_SensorsSubHal_def AddSensor_def)
  ultimately show ?thesis
    by (simp add: own_callback_posts [OF assms(1) own])
qed

theorem posts_carry_own_index_witness:
  "\<exists>s. s \<noteq> Loaded_2_0 new_SensorsSubHal \<and>
    base_postEvents identity_conversion 8 True 5 6 [flush_event 0 (Smi240Accel 1)] True (bosch_of s)
      (new_HalProxy (bosch_ops 0) [] [new_bosch_subhal], ready_queue) =
    Some (subhal_postEvents 8 True 5 6 1 [flush_event 0 (Smi240Accel 1)] True
      (new_HalProxy (bosch_ops 0) [] [new_bosch_subhal], ready_queue))"
proof -
  let ?ops = "loaded_ops identity_conversion 0"
  let ?p = "new_HalProxy ?ops [Loaded_2_0 new_SensorsSubHal, Loaded_2_0 new_SensorsSubHal] []"
  obtain r p' q' where init: "initializeCommon ?ops (loaded_initialize identity_conversion 0)
      True True True True True 0 0 (?p, ready_queue) = (r, (p', q'))"
    by (metis prod_cases3)
  define s where "s = mSubHalList (fold (framework_step ?ops id) [F_activate 1 True] p') ! 1"
  have len: "1 < length (mSubHalList ?p)"
    by (simp add: new_HalProxy_def initializeSensorList_def split: prod.split)
  note post = posts_carry_own_index [OF identity_same_layout init s_def len, of 8 True 5 6
      "[flush_event 0 (Smi240Accel 1)]" True "(new_HalProxy (bosch_ops 0) [] [new_bosch_subhal], ready_queue)"]
  have "s \<noteq> Loaded_2_0 new_SensorsSubHal"
  proof
    assume "s = Loaded_2_0 new_SensorsSubHal"
    then show False using post by (metis loaded_subhal.sel(1) option.distinct(1))
  qed
  with post show ?thesis by (intro exI [of _ s]) simp
qed

text \<open>The method of version 2.0 on a callback of version 2.1 ends the process.\<close>

lemma old_dynamic_method_aborts: "V2_1_onDynamicSensorsConnected (HalProxyCallbackV2_1 i) infos mh = None"
  by (simp add: V2_1_onDynamicSensorsConnected_def)

section \<open>What the services and the proxy offer to clients of either version\<close>

text \<open>\<open>SensorsHalV2_0::getSensorsList\<close>, without the filter of the 2.1 service.\<close>

definition SensorsHalV2_0_getSensorsList :: "(sensor_info \<Rightarrow> 'i) \<Rightarrow> 'x sensor_map_scheme \<Rightarrow> 'i list" where
  "SensorsHalV2_0_getSensorsList convertToOldSensorInfo s =
     map convertToOldSensorInfo (hal_getSensorsList s)"

text \<open>\<open>initialize\<close> passes the callback on; \<open>initialize_2_1\<close> and both functions of the proxy wrap
  it into a new object, whose pointer is never null.\<close>

definition Sensors_initialize :: "bool \<Rightarrow> bool \<Rightarrow> bool \<Rightarrow> sensors_hal \<Rightarrow> (result \<times> sensors_hal) option" where
  "Sensors_initialize created flag sensorsCallback s = initializeBase created flag sensorsCallback s"

definition SensorsV2_1_initialize_2_1 ::
    "bool \<Rightarrow> bool \<Rightarrow> bool \<Rightarrow> sensors_hal \<Rightarrow> (result \<times> sensors_hal) option" where
  "SensorsV2_1_initialize_2_1 created flag sensorsCallback s =
     (let mCallbackWrapper = True in initializeBase created flag mCallbackWrapper s)"

definition SensorsV2_1_injectSensorData_2_1 ::
    "(rat event \<Rightarrow> rat event) \<Rightarrow> (rat event \<Rightarrow> rat event) \<Rightarrow> rat event \<Rightarrow> 'x sensor_map_scheme \<Rightarrow>
      result \<times> 'x sensor_map_scheme" where
  "SensorsV2_1_injectSensorData_2_1 convert_to_new convert_to_old event =
     injectSensorData_2X convert_to_new (convert_to_old event)"

definition HalProxy_initialize_2_1 ::
    "'s subhal_ops \<Rightarrow> (nat \<Rightarrow> 's \<Rightarrow> result \<times> 's) \<Rightarrow> bool \<Rightarrow> bool \<Rightarrow> bool \<Rightarrow> bool \<Rightarrow> bool \<Rightarrow> int \<Rightarrow> int \<Rightarrow>
      's multihal \<Rightarrow> result \<times> 's multihal" where
  "HalProxy_initialize_2_1 ops init sensorsCallback event_flag wakelock_flag event_flag_pointer
       write_ok t1 t2 mh =
     (let dynamicCallback = True
      in initializeCommon ops init dynamicCallback event_flag wakelock_flag event_flag_pointer
           write_ok t1 t2 mh)"

definition HalProxy_initialize ::
    "'s subhal_ops \<Rightarrow> (nat \<Rightarrow> 's \<Rightarrow> result \<times> 's) \<Rightarrow> bool \<Rightarrow> bool \<Rightarrow> bool \<Rightarrow> bool \<Rightarrow> bool \<Rightarrow> int \<Rightarrow> int \<Rightarrow>
      's multihal \<Rightarrow> result \<times> 's multihal" where
  "HalProxy_initialize ops init sensorsCallback event_flag wakelock_flag event_flag_pointer
       write_ok t1 t2 mh =
     (let dynamicCallback = True
      in initializeCommon ops init dynamicCallback event_flag wakelock_flag event_flag_pointer
           write_ok t1 t2 mh)"

text \<open>So a null callback is refused by \<open>initialize\<close> of the service only.\<close>

lemma null_callback:
  "fst (the (Sensors_initialize True True False new_sensors_hal)) = BAD_VALUE"
  "fst (the (SensorsV2_1_initialize_2_1 True True False new_sensors_hal)) = OK"
  "fst (HalProxy_initialize (bosch_ops stale) subhal_initialize False True True True w t1 t2 mh) = OK"
  "fst (HalProxy_initialize_2_1 (bosch_ops stale) subhal_initialize False True True True w t1 t2 mh) = OK"
  by (simp_all add: Sensors_initialize_def SensorsV2_1_initialize_2_1_def initializeBase_def
      disable_all_def new_sensors_hal_def AddSensor_def HalProxy_initialize_def
      HalProxy_initialize_2_1_def initializeCommon_def initialize_bosch_subhals Let_def case_prod_beta)

text \<open>The 2.0 and the 2.1 service list the same sensors to a client of version 2.0.\<close>

lemma service_lists_agree:
  "SensorsHalV2_0_getSensorsList conv new_sensors_hal = hal_getSensorsList_old conv new_sensors_hal"
  by (simp add: SensorsHalV2_0_getSensorsList_def hal_getSensorsList_old_def hal_getSensorsList_def
      new_hals_sensors Smi240Accel_def Smi240Gyro_def new_Sensor_def)

end
