(* ===== verification/Service_Base.thy ===== *)
theory Service_Base
  imports Prelude
begin

text \<open>
  The programs \<open>service.cpp\<close>: each makes one object, registers it and then answers requests until
  the thread pool ends, which it should not.  The locale \<open>service_simulation\<close> compares two
  objects request by request; its lemmas compare the programs.
\<close>

section \<open>Programs\<close>

text \<open>The answers to the requests that arrive while the program serves, and the last state unless a
  request ended the process.\<close>

fun serve_all :: "('q \<Rightarrow> 's \<Rightarrow> ('a \<times> 's) option) \<Rightarrow> 'q list \<Rightarrow> 's \<Rightarrow> 'a list \<times> 's option" where
  "serve_all serve [] s = ([], Some s)"
| "serve_all serve (r # rs) s = (case serve r s of
     None \<Rightarrow> ([], None)
   | Some (a, s') \<Rightarrow> apfst ((#) a) (serve_all serve rs s'))"

datatype ending = Exited int | Aborted

definition join_pool ::
    "('q \<Rightarrow> 's \<Rightarrow> ('a \<times> 's) option) \<Rightarrow> 'q list \<Rightarrow> 's \<Rightarrow> 'a list \<times> ending" where
  "join_pool serve requests hal = (case serve_all serve requests hal of
     (answers, None) \<Rightarrow> (answers, Aborted) | (answers, Some s) \<Rightarrow> (answers, Exited 1))"

text \<open>The HIDL programs exit when the registration fails, the AIDL programs end in \<open>CHECK_EQ\<close>.\<close>

definition hidl_main ::
    "('q \<Rightarrow> 's \<Rightarrow> ('a \<times> 's) option) \<Rightarrow> 's \<Rightarrow> bool \<Rightarrow> 'q list \<Rightarrow> 'a list \<times> ending" where
  "hidl_main serve hal registered requests =
     (if \<not> registered then ([], Exited (-1)) else join_pool serve requests hal)"

definition aidl_main ::
    "('q \<Rightarrow> 's \<Rightarrow> ('a \<times> 's) option) \<Rightarrow> 's \<Rightarrow> bool \<Rightarrow> 'q list \<Rightarrow> 'a list \<times> ending" where
  "aidl_main serve hal added requests =
     (if \<not> added then ([], Aborted) else join_pool serve requests hal)"

section \<open>Two objects behind one interface\<close>

locale service_simulation =
  fixes serve :: "'q \<Rightarrow> 's \<Rightarrow> ('a \<times> 's) option" and serve' :: "'q \<Rightarrow> 't \<Rightarrow> ('b \<times> 't) option"
    and allowed :: "'q \<Rightarrow> bool" and same :: "'s \<Rightarrow> 't \<Rightarrow> bool" and alike :: "'q \<Rightarrow> 'a \<Rightarrow> 'b \<Rightarrow> bool"
  assumes request: "same s t \<Longrightarrow> allowed q \<Longrightarrow>
    \<exists>a s' b t'. serve q s = Some (a, s') \<and> serve' q t = Some (b, t') \<and> same s' t' \<and> alike q a b"
begin

lemma serve_all_alike:
  "same s t \<Longrightarrow> list_all allowed qs \<Longrightarrow>
   \<exists>as s' bs t'. serve_all serve qs s = (as, Some s') \<and> serve_all serve' qs t = (bs, Some t') \<and>
     same s' t' \<and> length as = length qs \<and> list_all2 (\<lambda>(q, a) b. alike q a b) (zip qs as) bs"
proof (induction qs arbitrary: s t)
  case (Cons q qs)
  then obtain a s1 b t1 where 1: "serve q s = Some (a, s1)" "serve' q t = Some (b, t1)"
      "same s1 t1" "alike q a b"
    using request [of s t q] by auto
  moreover obtain as s' bs t' where "serve_all serve qs s1 = (as, Some s')"
      "serve_all serve' qs t1 = (bs, Some t')" "same s' t'" "length as = length qs"
      "list_all2 (\<lambda>(q, a) b. alike q a b) (zip qs as) bs"
    using Cons.IH [OF 1(3)] Cons.prems(2) by auto
  ultimately show ?case by simp
qed simp

lemma programs_alike:
  assumes "same s t" "list_all allowed qs"
  shows "\<exists>as bs. join_pool serve qs s = (as, Exited 1) \<and> join_pool serve' qs t = (bs, Exited 1) \<and>
    length as = length qs \<and> list_all2 (\<lambda>(q, a) b. alike q a b) (zip qs as) bs"
proof -
  obtain as s' bs t' where "serve_all serve qs s = (as, Some s')" "serve_all serve' qs t = (bs, Some t')"
      "length as = length qs" "list_all2 (\<lambda>(q, a) b. alike q a b) (zip qs as) bs"
    using serve_all_alike [OF assms] by blast
  then show ?thesis by (simp add: join_pool_def)
qed

end

text \<open>Equal answers are the special case.\<close>

lemma list_all2_eq_answers:
  assumes "length as = length qs" "list_all2 (\<lambda>(q, a) b. a = b) (zip qs as) bs"
  shows "as = bs"
  using assms by (auto simp: list_all2_conv_all_nth intro: nth_equalityI)

end
