(* ===== verification/Hidl_Service.thy ===== *)
theory Hidl_Service
  imports Version_Adapters Service_Base
begin

text \<open>
  The HIDL services as a client sees them: the virtual functions of \<open>ISensors\<close> of both versions as
  records, their implementations by \<open>2.0\<close>, \<open>2.1\<close> and by the forwarding classes at the end of
  \<open>multihal/2.X/include/HalProxy.h\<close>, and the programs \<open>service.cpp\<close>.  The main result: the program
  with the proxy and one Bosch sub-HAL answers every sequence of requests as the program without.
\<close>

section \<open>The interface\<close>

text \<open>What the platform yields during \<open>initialize\<close>: the callback, the two event flags, the pointer
  to the first, the end of a blocked write, the clock.\<close>

record init_env =
  ie_callback :: bool
  ie_event_flag :: bool
  ie_wakelock_flag :: bool
  ie_pointer :: bool
  ie_write_ok :: bool
  ie_t1 :: int
  ie_t2 :: int

text \<open>\<open>flush\<close> also yields what the sensor posts.  \<open>None\<close> is the end of the process.\<close>

record ('i, 's) isensors_V2_0 =
  sv_getSensorsList :: "'s \<Rightarrow> 'i list"
  sv_setOperationMode :: "operation_mode \<Rightarrow> 's \<Rightarrow> result \<times> 's"
  sv_activate :: "handle \<Rightarrow> bool \<Rightarrow> 's \<Rightarrow> result \<times> 's"
  sv_initialize :: "init_env \<Rightarrow> 's \<Rightarrow> (result \<times> 's) option"
  sv_batch :: "handle \<Rightarrow> int \<Rightarrow> int \<Rightarrow> 's \<Rightarrow> result \<times> 's"
  sv_flush :: "handle \<Rightarrow> 's \<Rightarrow> (result \<times> post list) \<times> 's"
  sv_injectSensorData :: "rat event \<Rightarrow> 's \<Rightarrow> result \<times> 's"
  sv_registerDirectChannel :: "shared_mem_info \<Rightarrow> 's \<Rightarrow> (result \<times> int) \<times> 's"
  sv_unregisterDirectChannel :: "int \<Rightarrow> 's \<Rightarrow> result \<times> 's"
  sv_configDirectReport :: "handle \<Rightarrow> int \<Rightarrow> rate_level \<Rightarrow> 's \<Rightarrow> (result \<times> int) \<times> 's"

record ('i, 's) isensors_V2_1 = "('i, 's) isensors_V2_0" +
  sv_getSensorsList_2_1 :: "'s \<Rightarrow> sensor_info list"
  sv_initialize_2_1 :: "init_env \<Rightarrow> 's \<Rightarrow> (result \<times> 's) option"
  sv_injectSensorData_2_1 :: "rat event \<Rightarrow> 's \<Rightarrow> result \<times> 's"

text \<open>The conversions between the versions are the platform's.\<close>

record 'i old_types =
  old_info :: "sensor_info \<Rightarrow> 'i"
  new_event :: "rat event \<Rightarrow> rat event"
  old_event :: "rat event \<Rightarrow> rat event"

section \<open>The services without the proxy\<close>

definition Sensors_2_X :: "'i old_types \<Rightarrow> int \<Rightarrow> (sensors_hal \<Rightarrow> 'i list) \<Rightarrow> ('i, sensors_hal) isensors_V2_0" where
  "Sensors_2_X conv stale list = \<lparr>
     sv_getSensorsList = list,
     sv_setOperationMode = (\<lambda>mode s. (setOperationMode_2X mode s, s)),
     sv_activate = activate_2X,
     sv_initialize = (\<lambda>env. Sensors_initialize (ie_event_flag env) (ie_pointer env) (ie_callback env)),
     sv_batch = batch_2X,
     sv_flush = flush_2X stale,
     sv_injectSensorData = injectSensorData_2X (new_event conv),
     sv_registerDirectChannel = (\<lambda>mem s. (registerDirectChannel_2X, s)),
     sv_unregisterDirectChannel = (\<lambda>channel s. (unregisterDirectChannel_2X, s)),
     sv_configDirectReport = (\<lambda>sensor channel rate s. (configDirectReport_2X, s)) \<rparr>"

definition SensorsHalV2_0 :: "'i old_types \<Rightarrow> int \<Rightarrow> ('i, sensors_hal) isensors_V2_0" where
  "SensorsHalV2_0 conv stale =
     Sensors_2_X conv stale (SensorsHalV2_0_getSensorsList (old_info conv))"

definition SensorsV2_1 :: "'i old_types \<Rightarrow> int \<Rightarrow> ('i, sensors_hal) isensors_V2_1" where
  "SensorsV2_1 conv stale =
     isensors_V2_0.extend (Sensors_2_X conv stale (hal_getSensorsList_old (old_info conv)))
       \<lparr> sv_getSensorsList_2_1 = hal_getSensorsList,
         sv_initialize_2_1 = (\<lambda>env. SensorsV2_1_initialize_2_1 (ie_event_flag env) (ie_pointer env) (ie_callback env)),
         sv_injectSensorData_2_1 = SensorsV2_1_injectSensorData_2_1 (new_event conv) (old_event conv) \<rparr>"

section \<open>The forwarding classes of the proxy\<close>

text \<open>A member function of the proxy leaves the event queue alone.\<close>

definition on_proxy :: "('s hal_proxy \<Rightarrow> 'r \<times> 's hal_proxy) \<Rightarrow> 's multihal \<Rightarrow> 'r \<times> 's multihal" where
  "on_proxy f mh = (case f (fst mh) of (r, p) \<Rightarrow> (r, (p, snd mh)))"

definition IHalProxy ::
    "'s subhal_ops \<Rightarrow> (nat \<Rightarrow> 's \<Rightarrow> result \<times> 's) \<Rightarrow> 'i old_types \<Rightarrow> ('i, 's multihal) isensors_V2_0" where
  "IHalProxy ops init conv = \<lparr>
     sv_getSensorsList = (\<lambda>mh. getSensorsList (old_info conv) (fst mh)),
     sv_setOperationMode = (\<lambda>mode. on_proxy (setOperationMode ops mode)),
     sv_activate = (\<lambda>sensorHandle enabled. on_proxy (proxy_activate ops sensorHandle enabled)),
     sv_initialize = (\<lambda>env mh. Some (HalProxy_initialize ops init (ie_callback env)
       (ie_event_flag env) (ie_wakelock_flag env) (ie_pointer env) (ie_write_ok env)
       (ie_t1 env) (ie_t2 env) mh)),
     sv_batch = (\<lambda>sensorHandle period latency. on_proxy (proxy_batch ops sensorHandle period latency)),
     sv_flush = (\<lambda>sensorHandle. on_proxy (proxy_flush ops sensorHandle)),
     sv_injectSensorData = (\<lambda>event. on_proxy (proxy_injectSensorData ops (new_event conv) event)),
     sv_registerDirectChannel = (\<lambda>mem. on_proxy (proxy_registerDirectChannel ops mem)),
     sv_unregisterDirectChannel = (\<lambda>channel. on_proxy (proxy_unregisterDirectChannel ops channel)),
     sv_configDirectReport = (\<lambda>sensor channel rate.
       on_proxy (proxy_configDirectReport ops sensor channel rate)) \<rparr>"

definition HalProxyV2_0 ::
    "'s subhal_ops \<Rightarrow> (nat \<Rightarrow> 's \<Rightarrow> result \<times> 's) \<Rightarrow> 'i old_types \<Rightarrow> ('i, 's multihal) isensors_V2_0" where
  "HalProxyV2_0 ops init conv = IHalProxy ops init conv"

definition HalProxyV2_1 ::
    "'s subhal_ops \<Rightarrow> (nat \<Rightarrow> 's \<Rightarrow> result \<times> 's) \<Rightarrow> 'i old_types \<Rightarrow> ('i, 's multihal) isensors_V2_1" where
  "HalProxyV2_1 ops init conv = isensors_V2_0.extend (IHalProxy ops init conv)
     \<lparr> sv_getSensorsList_2_1 = (\<lambda>mh. getSensorsList_2_1 (fst mh)),
       sv_initialize_2_1 = (\<lambda>env mh. Some (HalProxy_initialize_2_1 ops init (ie_callback env)
         (ie_event_flag env) (ie_wakelock_flag env) (ie_pointer env) (ie_write_ok env)
         (ie_t1 env) (ie_t2 env) mh)),
       sv_injectSensorData_2_1 = (\<lambda>event.
         on_proxy (proxy_injectSensorData_2_1 ops (new_event conv) (old_event conv) event)) \<rparr>"

section \<open>Requests and programs\<close>

datatype request_V2_0 =
    R_list
  | R_mode operation_mode
  | R_activate handle bool
  | R_initialize init_env
  | R_batch handle int int
  | R_flush handle
  | R_inject "rat event"
  | R_register shared_mem_info
  | R_unregister int
  | R_config handle int rate_level

datatype request_V2_1 =
    R_old request_V2_0
  | R_list_2_1
  | R_initialize_2_1 init_env
  | R_inject_2_1 "rat event"

datatype 'i answer =
    A_old_list "'i list"
  | A_list "sensor_info list"
  | A_result result
  | A_flushed result "post list"
  | A_channel result int

fun answer_result :: "'i answer \<Rightarrow> result" where
  "answer_result (A_result r) = r"
| "answer_result (A_flushed r posts) = r"
| "answer_result (A_channel r n) = r"
| "answer_result _ = OK"

fun serve_V2_0 :: "('i, 's, 'x) isensors_V2_0_scheme \<Rightarrow> request_V2_0 \<Rightarrow> 's \<Rightarrow> ('i answer \<times> 's) option" where
  "serve_V2_0 sv R_list s = Some (A_old_list (sv_getSensorsList sv s), s)"
| "serve_V2_0 sv (R_mode mode) s = Some (apfst A_result (sv_setOperationMode sv mode s))"
| "serve_V2_0 sv (R_activate h e) s = Some (apfst A_result (sv_activate sv h e s))"
| "serve_V2_0 sv (R_initialize env) s = map_option (apfst A_result) (sv_initialize sv env s)"
| "serve_V2_0 sv (R_batch h t l) s = Some (apfst A_result (sv_batch sv h t l s))"
| "serve_V2_0 sv (R_flush h) s = Some (apfst (case_prod A_flushed) (sv_flush sv h s))"
| "serve_V2_0 sv (R_inject ev) s = Some (apfst A_result (sv_injectSensorData sv ev s))"
| "serve_V2_0 sv (R_register mem) s =
     Some (apfst (case_prod A_channel) (sv_registerDirectChannel sv mem s))"
| "serve_V2_0 sv (R_unregister ch) s = Some (apfst A_result (sv_unregisterDirectChannel sv ch s))"
| "serve_V2_0 sv (R_config h ch rate) s =
     Some (apfst (case_prod A_channel) (sv_configDirectReport sv h ch rate s))"

fun serve_V2_1 :: "('i, 's) isensors_V2_1 \<Rightarrow> request_V2_1 \<Rightarrow> 's \<Rightarrow> ('i answer \<times> 's) option" where
  "serve_V2_1 sv (R_old r) s = serve_V2_0 sv r s"
| "serve_V2_1 sv R_list_2_1 s = Some (A_list (sv_getSensorsList_2_1 sv s), s)"
| "serve_V2_1 sv (R_initialize_2_1 env) s = map_option (apfst A_result) (sv_initialize_2_1 sv env s)"
| "serve_V2_1 sv (R_inject_2_1 ev) s = Some (apfst A_result (sv_injectSensorData_2_1 sv ev s))"

definition main_2_0 ::
    "'i old_types \<Rightarrow> int \<Rightarrow> bool \<Rightarrow> request_V2_0 list \<Rightarrow> 'i answer list \<times> ending" where
  "main_2_0 conv stale = hidl_main (serve_V2_0 (SensorsHalV2_0 conv stale)) new_sensors_hal"

definition main_2_1 ::
    "'i old_types \<Rightarrow> int \<Rightarrow> bool \<Rightarrow> request_V2_1 list \<Rightarrow> 'i answer list \<times> ending" where
  "main_2_1 conv stale = hidl_main (serve_V2_1 (SensorsV2_1 conv stale)) new_sensors_hal"

text \<open>The sub-HALs that the libraries named in the configuration file yield are the start of the
  proxy.\<close>

definition main_multihal ::
    "'s subhal_ops \<Rightarrow> (nat \<Rightarrow> 's \<Rightarrow> result \<times> 's) \<Rightarrow> 'i old_types \<Rightarrow> nat \<Rightarrow> int \<Rightarrow> 's list \<Rightarrow> 's list \<Rightarrow>
      bool \<Rightarrow> request_V2_1 list \<Rightarrow> 'i answer list \<times> ending" where
  "main_multihal ops init conv quantum now subHals20 subHals21 =
     hidl_main (serve_V2_1 (HalProxyV2_1 ops init conv))
       (new_HalProxy ops subHals20 subHals21, new_event_queue quantum now)"

section \<open>With and without the proxy\<close>

text \<open>Both refuse every injection, with different codes, and every direct report, with different
  tokens.\<close>

fun alike_answers :: "request_V2_1 \<Rightarrow> 'i answer \<Rightarrow> 'i answer \<Rightarrow> bool" where
  "alike_answers (R_old (R_inject ev)) a b \<longleftrightarrow> answer_result a \<noteq> OK \<and> answer_result b \<noteq> OK"
| "alike_answers (R_inject_2_1 ev) a b \<longleftrightarrow> answer_result a \<noteq> OK \<and> answer_result b \<noteq> OK"
| "alike_answers (R_old (R_config h ch rate)) a b \<longleftrightarrow>
     answer_result a = INVALID_OPERATION \<and> answer_result b = INVALID_OPERATION"
| "alike_answers _ a b \<longleftrightarrow> a = b"

text \<open>The service makes no event flag for the wake-lock queue, and the proxy accepts a null callback
  (lemma \<open>null_callback\<close>).\<close>

fun ordinary :: "request_V2_1 \<Rightarrow> bool" where
  "ordinary (R_old (R_initialize env)) \<longleftrightarrow> ie_callback env \<and> ie_wakelock_flag env"
| "ordinary (R_initialize_2_1 env) \<longleftrightarrow> ie_wakelock_flag env"
| "ordinary _ \<longleftrightarrow> True"

text \<open>A proxy over one sub-HAL that lists the two sensors of the service.\<close>

definition lists :: "sensor handle_map \<Rightarrow> sensor_info handle_map" where
  "lists m = map (\<lambda>e. (fst e, mSensorInfo (snd e))) m"

definition same_hal :: "sensors_hal \<Rightarrow> sensor_map multihal \<Rightarrow> bool" where
  "same_hal s mh \<longleftrightarrow> life_inv s \<and> (\<exists>a b m. sm_sensors s = [(1, a), (2, b)] \<and>
     mSubHalList (fst mh) = [m] \<and> sm_sensors m = sm_sensors s \<and>
     mSensors (fst mh) = lists (sm_sensors s) \<and> mDynamicSensors (fst mh) = [] \<and>
     mCurrentOperationMode (fst mh) = NORMAL \<and> mDirectChannelSubHal (fst mh) = None \<and>
     si_type (mSensorInfo a) \<noteq> SENSOR_TYPE_HINGE_ANGLE \<and> si_type (mSensorInfo b) \<noteq> SENSOR_TYPE_HINGE_ANGLE)"

lemma index_zero_iff_clear: "extractSubHalIndex h = 0 \<longleftrightarrow> subHalIndexIsClear h"
proof
  assume "extractSubHalIndex h = 0"
  then have "\<not> bit h (24 + n)" if "n < 8" for n
    using that bit_extractSubHalIndex [of h n] by simp
  then have "\<not> bit h n" if "24 \<le> n" for n
    using that bit_imp_le_length [of h n] le_Suc_ex [OF that] by auto
  then show "subHalIndexIsClear h" by (simp add: bits_simps)
next
  assume "subHalIndexIsClear h"
  then show "extractSubHalIndex h = 0"
    using extract_set_index [of h 0] by (simp add: setSubHalIndex_def)
qed

lemma one_subhal_index:
  assumes "mSubHalList p = [m]"
  shows "isSubHalIndexValid h p \<longleftrightarrow> subHalIndexIsClear h"
  using index_zero_iff_clear [of h] unat_eq_zero [of "extractSubHalIndex h"]
  by (simp add: isSubHalIndexValid_def assms)

lemma clear_handle:
  assumes "subHalIndexIsClear h"
  shows "clearSubHalIndex h = h" "extractSubHalIndex h = 0"
  using clear_set_index [OF assms, of 0] index_zero_iff_clear [of h] assms
  by (simp_all add: setSubHalIndex_def)

lemma one_subhal:
  assumes "mSubHalList p = [m]"
  shows "proxy_activate ops h e p = (if subHalIndexIsClear h
      then (fst (sh_activate ops h e m), p\<lparr>mSubHalList := [snd (sh_activate ops h e m)]\<rparr>)
      else (BAD_VALUE, p))"
    and "proxy_batch ops h t l p = (if subHalIndexIsClear h
      then (fst (sh_batch ops h t l m), p\<lparr>mSubHalList := [snd (sh_batch ops h t l m)]\<rparr>)
      else (BAD_VALUE, p))"
    and "proxy_flush ops h p = (if subHalIndexIsClear h
      then (fst (sh_flush ops h m), p\<lparr>mSubHalList := [snd (sh_flush ops h m)]\<rparr>)
      else ((BAD_VALUE, []), p))"
  by (auto simp: proxy_activate_def proxy_batch_def proxy_flush_def one_subhal_index [OF assms]
      clear_handle call_subhal_def assms split: prod.split)


text \<open>The calls that change a sensor, one by one.\<close>

lemma two_sensors:
  assumes "sm_sensors s = [(1, a), (2, b)]" "sm_sensors m = sm_sensors s"
    and "\<And>sn. mSensorInfo (snd (call sn)) = mSensorInfo sn"
  shows "fst (on_sensor bad h call m) = fst (on_sensor bad h call s)"
    and "sm_sensors (snd (on_sensor bad h call m)) = sm_sensors (snd (on_sensor bad h call s))"
    and "\<exists>a' b'. sm_sensors (snd (on_sensor bad h call s)) = [(1, a'), (2, b')] \<and>
      mSensorInfo a' = mSensorInfo a \<and> mSensorInfo b' = mSensorInfo b"
  using assms(1,2) assms(3) [of a] assms(3) [of b]
  by (auto simp: on_sensor_def split: prod.split option.split)

lemma unlisted:
  assumes "sm_sensors s = [(1, a), (2, b)]" "\<not> subHalIndexIsClear h"
  shows "on_sensor bad h call s = (bad, s)"
proof -
  have "subHalIndexIsClear 1" "subHalIndexIsClear 2" by (simp_all add: subHalIndexIsClear_def)
  with assms show ?thesis by (auto simp: on_sensor_def split: option.split)
qed

lemma life_inv_on_sensor: "life_inv (snd (on_sensor bad h call s)) = life_inv s"
  by (simp add: on_sensor_def life_inv_def split: option.split prod.split)

lemma same_hal_call:
  assumes same: "same_hal s mh"
    and info: "\<And>sn. mSensorInfo (snd (call sn)) = mSensorInfo sn"
    and one: "\<And>m. mSubHalList (fst mh) = [m] \<Longrightarrow> f (fst mh) = (if subHalIndexIsClear h
      then (fst (on_sensor bad h call m), (fst mh)\<lparr>mSubHalList := [snd (on_sensor bad h call m)]\<rparr>)
      else (bad, fst mh))"
  shows "fst (on_proxy f mh) = fst (on_sensor bad h call s) \<and>
    same_hal (snd (on_sensor bad h call s)) (snd (on_proxy f mh))"
proof -
  obtain a b m where s: "sm_sensors s = [(1, a), (2, b)]" "mSubHalList (fst mh) = [m]"
      "sm_sensors m = sm_sensors s" "life_inv s" "mSensors (fst mh) = lists (sm_sensors s)"
      "mDynamicSensors (fst mh) = []" "mCurrentOperationMode (fst mh) = NORMAL"
      "mDirectChannelSubHal (fst mh) = None"
      "si_type (mSensorInfo a) \<noteq> SENSOR_TYPE_HINGE_ANGLE" "si_type (mSensorInfo b) \<noteq> SENSOR_TYPE_HINGE_ANGLE"
    using same unfolding same_hal_def by auto
  show ?thesis
  proof (cases "subHalIndexIsClear h")
    case False
    with same show ?thesis by (simp add: on_proxy_def one [OF s(2)] unlisted [OF s(1) False])
  next
    case True
    note T = two_sensors [OF s(1,3) info, of bad h]
    then obtain a' b' where "sm_sensors (snd (on_sensor bad h call s)) = [(1, a'), (2, b')]"
        "mSensorInfo a' = mSensorInfo a" "mSensorInfo b' = mSensorInfo b"
      by blast
    with True T(1,2) s show ?thesis
      by (simp add: on_proxy_def one [OF s(2)] same_hal_def life_inv_on_sensor lists_def)
  qed
qed


lemma same_hal_fields:
  assumes "same_hal s mh"
  obtains a b m where "sm_sensors s = [(1, a), (2, b)]" "mSubHalList (fst mh) = [m]"
    "sm_sensors m = sm_sensors s" "mSensors (fst mh) = lists (sm_sensors s)"
    "mDynamicSensors (fst mh) = []" "mCurrentOperationMode (fst mh) = NORMAL"
    "mDirectChannelSubHal (fst mh) = None"
    "si_type (mSensorInfo a) \<noteq> SENSOR_TYPE_HINGE_ANGLE" "si_type (mSensorInfo b) \<noteq> SENSOR_TYPE_HINGE_ANGLE"
  using assms unfolding same_hal_def by auto

lemma same_hal_queue: "same_hal s (p, q) = same_hal s (p, q')"
  by (simp add: same_hal_def)

lemma mode_alike:
  assumes "same_hal s mh"
  shows "on_proxy (setOperationMode (bosch_ops stale) mode) mh = (setOperationMode_2X mode s, mh)"
proof -
  obtain a b m where s: "sm_sensors s = [(1, a), (2, b)]" "mSubHalList (fst mh) = [m]"
      "mCurrentOperationMode (fst mh) = NORMAL"
    using assms by (rule same_hal_fields)
  then show ?thesis
    by (cases mh)
      (auto simp: on_proxy_def setOperationMode_def bosch_ops_def subhal_setOperationMode_def
        setOperationMode_2X_def sensor_setOperationMode_2X_def)
qed

lemma injection_refused:
  assumes "same_hal s mh"
  shows "fst (on_proxy (proxy_injectSensorData (bosch_ops stale) conv ev) mh) \<noteq> OK \<and>
    same_hal s (snd (on_proxy (proxy_injectSensorData (bosch_ops stale) conv ev) mh))"
    and "fst (injectSensorData_2X conv ev s) \<noteq> OK \<and> snd (injectSensorData_2X conv ev s) = s"
proof -
  obtain a b m where s: "sm_sensors s = [(1, a), (2, b)]" "mSubHalList (fst mh) = [m]"
      "sm_sensors m = sm_sensors s"
    using assms by (rule same_hal_fields)
  have same: "fst (on_sensor BAD_VALUE h (Pair INVALID_OPERATION) x) \<noteq> OK \<and>
      snd (on_sensor BAD_VALUE h (Pair INVALID_OPERATION) x) = x"
    if "sm_sensors x = [(1, a), (2, b)]" for h and x :: "'x sensor_map_scheme"
    using that by (auto simp: on_sensor_def split: option.split)
  have unchanged: "same_hal s ((fst mh)\<lparr>mSubHalList := [m]\<rparr>, q)" for q
    using assms s(2) by (simp add: same_hal_def)
  show "fst (injectSensorData_2X conv ev s) \<noteq> OK \<and> snd (injectSensorData_2X conv ev s) = s"
    using same [OF s(1)] by (simp add: injectSensorData_2X_def sensor_injectEvent_def split_beta)
  show "fst (on_proxy (proxy_injectSensorData (bosch_ops stale) conv ev) mh) \<noteq> OK \<and>
    same_hal s (snd (on_proxy (proxy_injectSensorData (bosch_ops stale) conv ev) mh))"
    using assms same [of m] s unchanged
    by (cases mh) (simp add: on_proxy_def proxy_injectSensorData_def one_subhal_index clear_handle
        bosch_ops_def subhal_injectSensorData_def sensor_injectEvent_def call_subhal_def split_beta)
qed

lemma disable_alike:
  assumes "same_hal s mh" "life_inv s'" "sm_sensors s' = sm_sensors (disable_all s)"
  shows "same_hal s' ((disableAllSensors (bosch_ops stale) (fst mh))\<lparr>mDynamicSensors := [],
    mCurrentOperationMode := NORMAL\<rparr>, q)"
proof -
  obtain a b m where s: "sm_sensors s = [(1, a), (2, b)]" "mSubHalList (fst mh) = [m]"
      "sm_sensors m = sm_sensors s" "mSensors (fst mh) = lists (sm_sensors s)"
      "mDynamicSensors (fst mh) = []" "mCurrentOperationMode (fst mh) = NORMAL"
      "mDirectChannelSubHal (fst mh) = None"
      "si_type (mSensorInfo a) \<noteq> SENSOR_TYPE_HINGE_ANGLE" "si_type (mSensorInfo b) \<noteq> SENSOR_TYPE_HINGE_ANGLE"
    using assms(1) by (rule same_hal_fields)
  have clear: "subHalIndexIsClear 1" "subHalIndexIsClear 2" by (simp_all add: subHalIndexIsClear_def)
  have d: "sm_sensors s' = [(1, sensor_activate False a), (2, sensor_activate False b)]"
    by (simp add: assms(3) disable_all_def s(1))
  have info: "mSensorInfo (sensor_activate e sn) = mSensorInfo sn" for e sn
    by (simp add: sensor_activate_def)
  have m: "sm_sensors m = [(1, a), (2, b)]" using s(1,3) by simp
  show ?thesis
    using s(2,4-) assms(2)
    by (simp add: same_hal_def d disableAllSensors_def lists_def s(1) one_subhal clear bosch_ops_def
        subhal_activate_def on_sensor_def m info)
qed

lemma initialize_alike:
  assumes "same_hal s mh" "w" "cb"
  shows "\<exists>r s' mh'. initializeBase e f cb s = Some (r, s') \<and>
    initializeCommon (bosch_ops stale) subhal_initialize True e w f ok t1 t2 mh = (r, mh') \<and> same_hal s' mh'"
proof -
  have life: "life_inv s" using assms(1) by (simp add: same_hal_def)
  obtain r s' where d: "initializeBase e f cb s = Some (r, s')" "life_inv s'" "r = OK \<longleftrightarrow> e \<and> f \<and> cb"
    using life_inv_initialize [OF life, of e f cb] by blast
  have "r = OK \<or> r = BAD_VALUE" using d(1) by (auto simp: initializeBase_def Let_def split: if_splits)
  moreover have "sm_sensors s' = sm_sensors (disable_all s)"
    using initializeBase_sensors [OF d(1)] by (simp add: sensor_map.truncate_def)
  note same = disable_alike [OF assms(1) d(2) this, of stale]
  obtain p q where mh: "mh = (p, q)" by fastforce
  ultimately show ?thesis
    using d assms(2,3) same
    by (auto simp: mh initializeCommon_def Let_def initialize_bosch_subhals)
qed


lemma lists_alike:
  assumes "same_hal s mh"
  shows "getSensorsList conv (fst mh) = hal_getSensorsList_old conv s"
    and "getSensorsList_2_1 (fst mh) = hal_getSensorsList s"
proof -
  obtain a b m where "sm_sensors s = [(1, a), (2, b)]" "mSubHalList (fst mh) = [m]"
      "sm_sensors m = sm_sensors s" "mSensors (fst mh) = lists (sm_sensors s)"
      "mDynamicSensors (fst mh) = []" "mCurrentOperationMode (fst mh) = NORMAL"
      "mDirectChannelSubHal (fst mh) = None"
      "si_type (mSensorInfo a) \<noteq> SENSOR_TYPE_HINGE_ANGLE" "si_type (mSensorInfo b) \<noteq> SENSOR_TYPE_HINGE_ANGLE"
    using assms by (rule same_hal_fields)
  then show "getSensorsList conv (fst mh) = hal_getSensorsList_old conv s"
    "getSensorsList_2_1 (fst mh) = hal_getSensorsList s"
    by (simp_all add: getSensorsList_def getSensorsList_2_1_def hal_getSensorsList_old_def
        hal_getSensorsList_def lists_def)
qed

lemma direct_channel_alike:
  assumes "same_hal s mh"
  shows "on_proxy (proxy_registerDirectChannel ops mem) mh = (registerDirectChannel_2X, mh)"
    and "on_proxy (proxy_unregisterDirectChannel ops ch) mh = (unregisterDirectChannel_2X, mh)"
    and "on_proxy (proxy_configDirectReport ops h ch rate) mh = ((INVALID_OPERATION, -1), mh)"
  using assms
  by (auto simp: same_hal_def on_proxy_def proxy_registerDirectChannel_def registerDirectChannel_2X_def
      proxy_unregisterDirectChannel_def unregisterDirectChannel_2X_def proxy_configDirectReport_def)

lemma inject_2_1_converts:
  "proxy_injectSensorData_2_1 ops new old ev = proxy_injectSensorData ops new (old ev)"
  by (simp add: fun_eq_iff proxy_injectSensorData_2_1_def)

lemmas service_defs = SensorsV2_1_def HalProxyV2_1_def Sensors_2_X_def IHalProxy_def
  isensors_V2_0.extend_def Sensors_initialize_def SensorsV2_1_initialize_2_1_def
  HalProxy_initialize_def HalProxy_initialize_2_1_def SensorsV2_1_injectSensorData_2_1_def
  inject_2_1_converts

lemma sensor_calls_alike:
  assumes "same_hal s mh"
  shows "fst (on_proxy (proxy_activate (bosch_ops stale) h e) mh) = fst (activate_2X h e s) \<and>
      same_hal (snd (activate_2X h e s)) (snd (on_proxy (proxy_activate (bosch_ops stale) h e) mh))"
    and "fst (on_proxy (proxy_batch (bosch_ops stale) h t l) mh) = fst (batch_2X h t l s) \<and>
      same_hal (snd (batch_2X h t l s)) (snd (on_proxy (proxy_batch (bosch_ops stale) h t l) mh))"
    and "fst (on_proxy (proxy_flush (bosch_ops stale) h) mh) = fst (flush_2X stale h s) \<and>
      same_hal (snd (flush_2X stale h s)) (snd (on_proxy (proxy_flush (bosch_ops stale) h) mh))"
  unfolding activate_2X_def batch_2X_def flush_2X_def sensor_batch_same
  by (rule same_hal_call [OF assms];
      simp add: one_subhal bosch_ops_def subhal_activate_def subhal_batch_def subhal_flush_def
        sensor_activate_def sensor_batch_multihal_def set_period_def)+

lemma request_alike:
  assumes same: "same_hal s mh" and ok: "ordinary q"
  shows "\<exists>a s' b mh'. serve_V2_1 (SensorsV2_1 conv stale) q s = Some (a, s') \<and>
    serve_V2_1 (HalProxyV2_1 (bosch_ops stale) subhal_initialize conv) q mh = Some (b, mh') \<and>
    same_hal s' mh' \<and> alike_answers q a b"
proof (cases q)
  case (R_old r)
  show ?thesis
  proof (cases r)
    case R_list
    with same show ?thesis by (simp add: R_old service_defs lists_alike)
  next
    case (R_mode mode)
    with same show ?thesis by (simp add: R_old service_defs mode_alike)
  next
    case (R_activate h e)
    with sensor_calls_alike(1) [OF same, of stale h e] show ?thesis
      by (simp add: R_old service_defs apfst_def map_prod_def split_beta)
  next
    case (R_initialize env)
    with initialize_alike [OF same, of "ie_wakelock_flag env" "ie_callback env" "ie_event_flag env"
        "ie_pointer env" stale "ie_write_ok env" "ie_t1 env" "ie_t2 env"] ok
    show ?thesis by (fastforce simp: R_old service_defs)
  next
    case (R_batch h t l)
    with sensor_calls_alike(2) [OF same, of stale h t l] show ?thesis
      by (simp add: R_old service_defs apfst_def map_prod_def split_beta)
  next
    case (R_flush h)
    with sensor_calls_alike(3) [OF same, of stale h] show ?thesis
      by (simp add: R_old service_defs apfst_def map_prod_def split_beta)
  next
    case (R_inject ev)
    with injection_refused(1) [OF same, of stale "new_event conv" ev]
      injection_refused(2) [OF same, of "new_event conv" ev] show ?thesis
      by (simp add: R_old service_defs apfst_def map_prod_def split_beta)
  next
    case (R_register mem)
    with same show ?thesis by (simp add: R_old service_defs direct_channel_alike split_beta)
  next
    case (R_unregister ch)
    with same show ?thesis by (simp add: R_old service_defs direct_channel_alike)
  next
    case (R_config h ch rate)
    with same show ?thesis
      by (simp add: R_old service_defs direct_channel_alike configDirectReport_2X_def)
  qed
next
  case R_list_2_1
  with same show ?thesis by (simp add: service_defs lists_alike)
next
  case (R_initialize_2_1 env)
  with initialize_alike [OF same, of "ie_wakelock_flag env" True "ie_event_flag env"
      "ie_pointer env" stale "ie_write_ok env" "ie_t1 env" "ie_t2 env"] ok
  show ?thesis by (fastforce simp: service_defs)
next
  case (R_inject_2_1 ev)
  with injection_refused(1) [OF same, of stale "new_event conv" "old_event conv ev"]
    injection_refused(2) [OF same, of "new_event conv" "old_event conv ev"] show ?thesis
    by (simp add: service_defs apfst_def map_prod_def split_beta)
qed


lemma same_hal_initial:
  "same_hal new_sensors_hal (new_HalProxy (bosch_ops stale) [] [new_bosch_subhal], q)"
proof -
  let ?p = "new_HalProxy (bosch_ops stale) [] [new_bosch_subhal]"
  have "mSubHalList ?p = [new_bosch_subhal] \<and> mSensors ?p = lists (sm_sensors new_sensors_hal) \<and>
      mDynamicSensors ?p = [] \<and> mCurrentOperationMode ?p = NORMAL \<and> mDirectChannelSubHal ?p = None"
    by (simp add: new_HalProxy_def initializeSensorList_def bosch_ops_def hal_getSensorsList_def
        new_hals_sensors subHalIndexIsClear_def setSubHalIndex_def setDirectChannelFlags_def
        Smi240Accel_def Smi240Gyro_def new_Sensor_def Let_def lists_def)
  then show ?thesis
    by (simp add: same_hal_def life_inv_initial new_hals_sensors Smi240Accel_def Smi240Gyro_def
        new_Sensor_def)
qed

interpretation hidl: service_simulation "serve_V2_1 (SensorsV2_1 conv stale)"
    "serve_V2_1 (HalProxyV2_1 (bosch_ops stale) subhal_initialize conv)" ordinary same_hal alike_answers
  for conv stale
  by unfold_locales (rule request_alike)


text \<open>The object of the 2.0 program against that of the 2.1 program.\<close>

definition same_service :: "sensors_hal \<Rightarrow> sensors_hal \<Rightarrow> bool" where
  "same_service s t \<longleftrightarrow> s = t \<and> (\<exists>mh. same_hal s mh)"

lemma version_2_0_alike:
  assumes "same_hal s mh"
  shows "\<exists>a s' mh'. serve_V2_0 (SensorsHalV2_0 conv stale) r s = Some (a, s') \<and>
    serve_V2_1 (SensorsV2_1 conv stale) (R_old r) s = Some (a, s') \<and> same_hal s' mh'"
proof -
  have list: "SensorsHalV2_0_getSensorsList f s = hal_getSensorsList_old f s" for f :: "sensor_info \<Rightarrow> 'a"
    using assms by (auto simp: same_hal_def SensorsHalV2_0_getSensorsList_def
        hal_getSensorsList_old_def hal_getSensorsList_def)
  have serve: "serve_V2_0 (SensorsHalV2_0 conv stale) r s = serve_V2_1 (SensorsV2_1 conv stale) (R_old r) s"
    by (cases r) (simp_all add: SensorsHalV2_0_def service_defs list)
  show ?thesis
  proof (cases "ordinary (R_old r)")
    case True
    from request_alike [OF assms this, of conv stale] show ?thesis unfolding serve by blast
  next
    case False
    then obtain env where r: "r = R_initialize env" by (cases r) auto
    have "life_inv s" using assms by (simp add: same_hal_def)
    then obtain r' s' where d: "initializeBase (ie_event_flag env) (ie_pointer env) (ie_callback env) s =
        Some (r', s')" "life_inv s'"
      using life_inv_initialize by blast
    have "sm_sensors s' = sm_sensors (disable_all s)"
      using initializeBase_sensors [OF d(1)] by (simp add: sensor_map.truncate_def)
    from disable_alike [OF assms d(2) this, of 0] d show ?thesis
      by (auto simp: serve r service_defs SensorsHalV2_0_def)
  qed
qed

interpretation versions: service_simulation "serve_V2_0 (SensorsHalV2_0 conv stale)"
    "\<lambda>r. serve_V2_1 (SensorsV2_1 conv stale) (R_old r)" "\<lambda>_. True" same_service "\<lambda>_ a b. a = b"
  for conv stale
  by unfold_locales (use version_2_0_alike in \<open>fastforce simp: same_service_def\<close>)

lemma serve_all_map: "serve_all serve (map f qs) s = serve_all (\<lambda>q. serve (f q)) qs s"
  by (induction qs arbitrary: s) (auto split: option.split)

text \<open>The 2.0 program gives every sequence of requests of version 2.0 the answers of the 2.1
  program.\<close>

theorem hidl_versions_answer_alike:
  "main_2_0 conv stale registered requests = main_2_1 conv stale registered (map R_old requests)"
proof -
  have "same_service new_sensors_hal new_sensors_hal"
    using same_hal_initial by (auto simp: same_service_def)
  from versions.programs_alike [OF this, of requests conv stale]
  obtain as bs where "join_pool (serve_V2_0 (SensorsHalV2_0 conv stale)) requests new_sensors_hal =
        (as, Exited 1)"
      "join_pool (\<lambda>r. serve_V2_1 (SensorsV2_1 conv stale) (R_old r)) requests new_sensors_hal =
        (bs, Exited 1)"
      "as = bs"
    by (auto simp: list_all_iff dest: list_all2_eq_answers)
  then show ?thesis
    by (simp add: main_2_0_def main_2_1_def hidl_main_def join_pool_def serve_all_map)
qed

definition some_env :: init_env where
  "some_env = \<lparr> ie_callback = True, ie_event_flag = True, ie_wakelock_flag = True, ie_pointer = True,
     ie_write_ok = True, ie_t1 = 1, ie_t2 = 2 \<rparr>"

definition some_requests :: "request_V2_1 list" where
  "some_requests = [R_list_2_1, R_initialize_2_1 some_env, R_old (R_batch 2 20000000 0),
     R_old (R_activate 2 True), R_old (R_flush 2), R_old (R_activate 3 True),
     R_old (R_flush 0x1000002), R_old (R_mode DATA_INJECTION)]"

lemma some_answers:
  fixes stale
  defines "on \<equiv> sensor_activate True (sensor_batch_2X 20000000 (sensor_activate False (Smi240Gyro 2)))"
  shows "fst (main_2_1 conv stale True some_requests) =
    [A_list [mSensorInfo (Smi240Accel 1), mSensorInfo (Smi240Gyro 2)], A_result OK, A_result OK,
     A_result OK, case_prod A_flushed (sensor_flush stale on), A_result BAD_VALUE,
     A_flushed BAD_VALUE [], A_result BAD_VALUE]"
  by (simp add: main_2_1_def hidl_main_def join_pool_def some_requests_def some_env_def service_defs
      on_def hal_getSensorsList_def new_hals_sensors initializeBase_def disable_all_def Let_def
      new_sensors_hal_def AddSensor_def activate_2X_def batch_2X_def flush_2X_def on_sensor_def
      setOperationMode_2X_def sensor_setOperationMode_2X_def split_beta)

definition same_types :: "sensor_info old_types" where
  "same_types = \<lparr> old_info = (\<lambda>i. i), new_event = (\<lambda>e. e), old_event = (\<lambda>e. e) \<rparr>"


end
