(* ===== verification/Aidl_Service.thy ===== *)
theory Aidl_Service
  imports Sensors_Hal
begin

text \<open>
  The members that \<open>SensorsHalAidl.h\<close> holds in copies of its own: construction, destruction and
  the accounting of the wake lock.  Each copy is defined from its own text and proved equal to
  that of \<open>Sensors.h\<close>, so that what \<open>Sensors_Hal\<close> shows of the one holds of the other.
\<close>

definition new_SensorsHalAidl :: sensors_hal where
  "new_SensorsHalAidl =
     (let s = \<lparr> sm_sensors = [], sm_mNextHandle = 1, hal_mEventQueue = False,
          hal_mEventQueueFlag = False, hal_mCallback = False, mOutstandingWakeUpEvents = 0,
          mReadWakeLockQueueRun = False, mWakeLockThread = False, mAutoReleaseWakeLockTime = 0,
          mHasWakeLock = False, hal_fmq = [] \<rparr>;
          s1 = AddSensor Smi240Accel s
      in AddSensor Smi240Gyro s1)"

text \<open>\<open>deleted\<close> is whether \<open>EventFlag::deleteEventFlag\<close> succeeds, which it does only with a flag and
  then resets the pointer; here it is not called without one.\<close>

definition deleteEventFlag_2X :: "bool \<Rightarrow> sensors_hal \<Rightarrow> sensors_hal" where
  "deleteEventFlag_2X deleted s =
     (if hal_mEventQueueFlag s \<and> deleted then s\<lparr>hal_mEventQueueFlag := False\<rparr> else s)"

definition deleteEventFlag_aidl :: "bool \<Rightarrow> sensors_hal \<Rightarrow> sensors_hal" where
  "deleteEventFlag_aidl deleted s =
     (if hal_mEventQueueFlag s
      then (if deleted then s\<lparr>hal_mEventQueueFlag := False\<rparr> else s)
      else s)"

text \<open>\<open>join\<close> on a thread object without a thread throws in the destructor: \<open>None\<close>.\<close>

definition destroy_SensorsHalAidl :: "bool \<Rightarrow> sensors_hal \<Rightarrow> sensors_hal option" where
  "destroy_SensorsHalAidl deleted s =
     (let s1 = deleteEventFlag_aidl deleted s;
          s2 = s1\<lparr>mReadWakeLockQueueRun := False\<rparr>
      in if mWakeLockThread s2 then Some (s2\<lparr>mWakeLockThread := False\<rparr>) else None)"

definition updateWakeLock_aidl ::
    "nat \<Rightarrow> bool \<Rightarrow> bool \<Rightarrow> 32 word \<Rightarrow> 32 word \<Rightarrow> int \<Rightarrow> int \<Rightarrow> sensors_hal \<Rightarrow> sensors_hal" where
  "updateWakeLock_aidl secs acquire release eventsWritten eventsHandled t t' s =
     (let newVal = mOutstandingWakeUpEvents s + eventsWritten - eventsHandled;
          s1 = (if sint newVal < 0 then s\<lparr>mOutstandingWakeUpEvents := 0\<rparr>
                else s\<lparr>mOutstandingWakeUpEvents := newVal\<rparr>);
          s2 = (if sint eventsWritten > 0
                then s1\<lparr>mAutoReleaseWakeLockTime := t + int secs * 1000\<rparr> else s1)
      in if \<not> mHasWakeLock s2 \<and> mOutstandingWakeUpEvents s2 > 0 \<and> acquire
         then s2\<lparr>mHasWakeLock := True\<rparr>
         else if mHasWakeLock s2
         then let s3 = (if t' > mAutoReleaseWakeLockTime s2
                        then s2\<lparr>mOutstandingWakeUpEvents := 0\<rparr> else s2)
           in (if mOutstandingWakeUpEvents s3 = 0 \<and> release then s3\<lparr>mHasWakeLock := False\<rparr> else s3)
         else s2)"

definition readWakeLockFMQ_pass_aidl ::
    "nat \<Rightarrow> bool \<Rightarrow> bool \<Rightarrow> 32 word option \<Rightarrow> int \<Rightarrow> int \<Rightarrow> sensors_hal \<Rightarrow> sensors_hal" where
  "readWakeLockFMQ_pass_aidl secs acquire release message t t' s =
     (if \<not> mReadWakeLockQueueRun s then s
      else let eventsHandled = (case message of None \<Rightarrow> 0 | Some n \<Rightarrow> n)
        in updateWakeLock_aidl secs acquire release 0 eventsHandled t t' s)"

lemma aidl_copies_agree:
  "new_SensorsHalAidl = new_sensors_hal"
  "deleteEventFlag_aidl deleted s = deleteEventFlag_2X deleted s"
  "updateWakeLock_aidl secs acquire release w h t t' s = updateWakeLock secs acquire release w h t t' s"
  "readWakeLockFMQ_pass_aidl secs acquire release m t t' s =
     readWakeLockFMQ_pass secs acquire release m t t' s"
proof -
  show upd: "updateWakeLock_aidl secs acquire release w h t t' s =
      updateWakeLock secs acquire release w h t t' s" for w h
    by (simp add: updateWakeLock_aidl_def updateWakeLock_def Let_def)
  show "readWakeLockFMQ_pass_aidl secs acquire release m t t' s =
      readWakeLockFMQ_pass secs acquire release m t t' s"
    by (simp add: readWakeLockFMQ_pass_aidl_def readWakeLockFMQ_pass_def upd)
qed (simp_all add: new_SensorsHalAidl_def new_sensors_hal_def deleteEventFlag_aidl_def
    deleteEventFlag_2X_def)

text \<open>Destruction is safe exactly after an \<open>initialize\<close>.\<close>

lemma aidl_destroy_needs_thread: "destroy_SensorsHalAidl deleted s \<noteq> None \<longleftrightarrow> mWakeLockThread s"
  by (simp add: destroy_SensorsHalAidl_def deleteEventFlag_aidl_def Let_def)

end
