(* ===== verification/Aidl_Main.thy ===== *)
theory Aidl_Main
  imports Hal_Proxy_Aidl Hidl_Service Aidl_Service
begin

text \<open>
  The AIDL services as a client sees them: the functions of \<open>SensorsHalAidl.cpp\<close> and of
  \<open>multihal/aidl/HalProxyAidl.cpp\<close> as records of one interface, and the two programs
  \<open>service.cpp\<close>.  The main result: the program with the proxy and one Bosch sub-HAL answers every
  sequence of requests as the program without, up to the codes of refusals.
\<close>

section \<open>The interface\<close>

text \<open>\<open>None\<close> is the end of the process; the number beside a status is \<open>_aidl_return\<close>.\<close>

record 's aidl_isensors =
  as_activate :: "handle \<Rightarrow> bool \<Rightarrow> 's \<Rightarrow> status \<times> 's"
  as_batch :: "handle \<Rightarrow> int \<Rightarrow> int \<Rightarrow> 's \<Rightarrow> status \<times> 's"
  as_configDirectReport :: "handle \<Rightarrow> int \<Rightarrow> aidl_rate_level \<Rightarrow> 's \<Rightarrow> ((status \<times> int) \<times> 's) option"
  as_flush :: "handle \<Rightarrow> 's \<Rightarrow> (status \<times> post list) \<times> 's"
  as_getSensorsList :: "'s \<Rightarrow> aidl_sensor_info list"
  as_initialize :: "init_env \<Rightarrow> 's \<Rightarrow> (status \<times> 's) option"
  as_injectSensorData :: "aidl_event \<Rightarrow> 's \<Rightarrow> (status \<times> 's) option"
  as_registerDirectChannel :: "aidl_shared_mem_info \<Rightarrow> 's \<Rightarrow> ((status \<times> int) \<times> 's) option"
  as_setOperationMode :: "aidl_operation_mode \<Rightarrow> 's \<Rightarrow> (status \<times> 's) option"
  as_unregisterDirectChannel :: "int \<Rightarrow> 's \<Rightarrow> status \<times> 's"

abbreviation (input) "EX_UNSUPPORTED_OPERATION_code \<equiv> (-7 :: int)"

definition configDirectReport_aidl :: "status \<times> int" where
  "configDirectReport_aidl = (EX_UNSUPPORTED_OPERATION, EX_UNSUPPORTED_OPERATION_code)"

definition registerDirectChannel_aidl :: "status \<times> int" where
  "registerDirectChannel_aidl = (EX_UNSUPPORTED_OPERATION, EX_UNSUPPORTED_OPERATION_code)"

definition unregisterDirectChannel_aidl :: status where
  "unregisterDirectChannel_aidl = EX_UNSUPPORTED_OPERATION"

text \<open>The descriptions of the sensors, which this model keeps in one type, written in that of the
  interface.\<close>

definition getSensorsList_aidl :: "'x sensor_map_scheme \<Rightarrow> aidl_sensor_info list" where
  "getSensorsList_aidl s = map (\<lambda>e. convertSensorInfo (mSensorInfo (snd e))) (sm_sensors s)"

text \<open>The sensors compare the mode with \<open>NORMAL\<close> and look at the type of an injected event only;
  \<open>payload\<close> reads the rest of it.\<close>

definition sensor_mode :: "aidl_operation_mode \<Rightarrow> operation_mode" where
  "sensor_mode mode = (if mode = AIDL_MODE_NORMAL then NORMAL else DATA_INJECTION)"

definition sensor_event :: "(aidl_payload \<Rightarrow> rat payload) \<Rightarrow> aidl_event \<Rightarrow> rat event" where
  "sensor_event payload e = \<lparr> ev_timestamp = ae_timestamp e, ev_handle = ae_sensorHandle e,
     ev_type = ae_sensorType e, ev_u = payload (ae_payload e) \<rparr>"

definition SensorsHalAidl :: "(aidl_payload \<Rightarrow> rat payload) \<Rightarrow> int \<Rightarrow> sensors_hal aidl_isensors" where
  "SensorsHalAidl payload stale = \<lparr>
     as_activate = activate_aidl,
     as_batch = batch_aidl,
     as_configDirectReport = (\<lambda>h ch rate s. Some (configDirectReport_aidl, s)),
     as_flush = flush_aidl stale,
     as_getSensorsList = getSensorsList_aidl,
     as_initialize = (\<lambda>env. initialize_aidl (ie_event_flag env) (ie_pointer env) (ie_callback env)),
     as_injectSensorData = (\<lambda>ev s. Some (injectSensorData_aidl (sensor_event payload ev) s)),
     as_registerDirectChannel = (\<lambda>mem s. Some (registerDirectChannel_aidl, s)),
     as_setOperationMode = (\<lambda>mode s. Some (setOperationMode_aidl (sensor_mode mode) s, s)),
     as_unregisterDirectChannel = (\<lambda>ch s. (unregisterDirectChannel_aidl, s)) \<rparr>"

text \<open>What the proxy takes from the platform.\<close>

record aidl_platform =
  makeFromAidl :: "int list \<times> int list \<Rightarrow> int list \<times> int list"
  read_float :: "u32 \<Rightarrow> rat"
  to_new_event :: "rat event \<Rightarrow> rat event"
  to_old_event :: "rat event \<Rightarrow> rat event"
  event_memory :: "u32 list"

definition on_proxy_option ::
    "('s hal_proxy \<Rightarrow> ('r \<times> 's hal_proxy) option) \<Rightarrow> 's multihal \<Rightarrow> ('r \<times> 's multihal) option" where
  "on_proxy_option f mh = map_option (\<lambda>(r, p). (r, (p, snd mh))) (f (fst mh))"

definition HalProxyAidl ::
    "'s subhal_ops \<Rightarrow> (nat \<Rightarrow> 's \<Rightarrow> result \<times> 's) \<Rightarrow> aidl_platform \<Rightarrow> 's multihal aidl_isensors" where
  "HalProxyAidl ops init pf = \<lparr>
     as_activate = (\<lambda>h enabled. on_proxy (aidl_activate ops h enabled)),
     as_batch = (\<lambda>h period latency. on_proxy (aidl_batch ops h period latency)),
     as_configDirectReport = (\<lambda>h ch rate. on_proxy_option (aidl_configDirectReport ops h ch rate)),
     as_flush = (\<lambda>h. on_proxy (aidl_flush ops h)),
     as_getSensorsList = (\<lambda>mh. aidl_getSensorsList (fst mh)),
     as_initialize = (\<lambda>env mh. Some (aidl_initialize ops init (ie_callback env) (ie_event_flag env)
       (ie_wakelock_flag env) (ie_pointer env) (ie_write_ok env) (ie_t1 env) (ie_t2 env) mh)),
     as_injectSensorData = (\<lambda>ev. on_proxy_option (aidl_injectSensorData ops (read_float pf)
       (to_new_event pf) (to_old_event pf) (event_memory pf) ev)),
     as_registerDirectChannel = (\<lambda>mem.
       on_proxy_option (aidl_registerDirectChannel ops (makeFromAidl pf) mem)),
     as_setOperationMode = (\<lambda>mode. on_proxy_option (aidl_setOperationMode ops mode)),
     as_unregisterDirectChannel = (\<lambda>ch. on_proxy (aidl_unregisterDirectChannel ops ch)) \<rparr>"

section \<open>Requests and programs\<close>

datatype aidl_request =
    Q_activate handle bool
  | Q_batch handle int int
  | Q_config handle int aidl_rate_level
  | Q_flush handle
  | Q_list
  | Q_initialize init_env
  | Q_inject aidl_event
  | Q_register aidl_shared_mem_info
  | Q_mode aidl_operation_mode
  | Q_unregister int

datatype aidl_answer =
    S_status status
  | S_flushed status "post list"
  | S_returned status int
  | S_list "aidl_sensor_info list"

fun answer_status :: "aidl_answer \<Rightarrow> status" where
  "answer_status (S_status r) = r"
| "answer_status (S_flushed r posts) = r"
| "answer_status (S_returned r n) = r"
| "answer_status (S_list l) = S_OK"

fun serve_aidl :: "'s aidl_isensors \<Rightarrow> aidl_request \<Rightarrow> 's \<Rightarrow> (aidl_answer \<times> 's) option" where
  "serve_aidl sv (Q_activate h e) s = Some (apfst S_status (as_activate sv h e s))"
| "serve_aidl sv (Q_batch h t l) s = Some (apfst S_status (as_batch sv h t l s))"
| "serve_aidl sv (Q_config h ch rate) s =
     map_option (apfst (case_prod S_returned)) (as_configDirectReport sv h ch rate s)"
| "serve_aidl sv (Q_flush h) s = Some (apfst (case_prod S_flushed) (as_flush sv h s))"
| "serve_aidl sv Q_list s = Some (S_list (as_getSensorsList sv s), s)"
| "serve_aidl sv (Q_initialize env) s = map_option (apfst S_status) (as_initialize sv env s)"
| "serve_aidl sv (Q_inject ev) s = map_option (apfst S_status) (as_injectSensorData sv ev s)"
| "serve_aidl sv (Q_register mem) s =
     map_option (apfst (case_prod S_returned)) (as_registerDirectChannel sv mem s)"
| "serve_aidl sv (Q_mode mode) s = map_option (apfst S_status) (as_setOperationMode sv mode s)"
| "serve_aidl sv (Q_unregister ch) s = Some (apfst S_status (as_unregisterDirectChannel sv ch s))"

definition main_aidl ::
    "(aidl_payload \<Rightarrow> rat payload) \<Rightarrow> int \<Rightarrow> bool \<Rightarrow> aidl_request list \<Rightarrow> aidl_answer list \<times> ending" where
  "main_aidl payload stale = aidl_main (serve_aidl (SensorsHalAidl payload stale)) new_SensorsHalAidl"

definition main_multihal_aidl ::
    "'s subhal_ops \<Rightarrow> (nat \<Rightarrow> 's \<Rightarrow> result \<times> 's) \<Rightarrow> aidl_platform \<Rightarrow> nat \<Rightarrow> int \<Rightarrow> 's list \<Rightarrow> 's list \<Rightarrow>
      bool \<Rightarrow> aidl_request list \<Rightarrow> aidl_answer list \<times> ending" where
  "main_multihal_aidl ops init pf quantum now subHals20 subHals21 =
     aidl_main (serve_aidl (HalProxyAidl ops init pf))
       (new_HalProxy ops subHals20 subHals21, new_event_queue quantum now)"

section \<open>With and without the proxy\<close>

text \<open>What one of the two would not survive or refuses alone: constants outside the interface and
  events that do not convert, a null callback, a wake-lock flag that cannot be made, and the
  injection of additional information.\<close>

fun common :: "aidl_platform \<Rightarrow> aidl_request \<Rightarrow> bool" where
  "common pf (Q_config h ch rate) \<longleftrightarrow> convertRateLevel rate \<noteq> None"
| "common pf (Q_register mem) \<longleftrightarrow> convertSharedMemInfo (makeFromAidl pf) mem \<noteq> None"
| "common pf (Q_mode mode) \<longleftrightarrow> convertOperationMode mode \<noteq> None"
| "common pf (Q_initialize env) \<longleftrightarrow> ie_callback env \<and> ie_wakelock_flag env"
| "common pf (Q_inject ev) \<longleftrightarrow> convertToHidlEvent (event_memory pf) ev \<noteq> None \<and>
     ae_sensorType ev \<noteq> SENSOR_TYPE_ADDITIONAL_INFO"
| "common pf _ \<longleftrightarrow> True"

text \<open>Injections are refused with different codes, flushes of a disabled sensor too, and requests for
  a direct channel return different numbers.\<close>

fun alike_aidl :: "aidl_request \<Rightarrow> aidl_answer \<Rightarrow> aidl_answer \<Rightarrow> bool" where
  "alike_aidl (Q_inject ev) a b \<longleftrightarrow> answer_status a \<noteq> S_OK \<and> answer_status b \<noteq> S_OK"
| "alike_aidl (Q_config h ch rate) a b \<longleftrightarrow> answer_status a = EX_UNSUPPORTED_OPERATION \<and>
     answer_status b = EX_UNSUPPORTED_OPERATION"
| "alike_aidl (Q_register mem) a b \<longleftrightarrow> answer_status a = EX_UNSUPPORTED_OPERATION \<and>
     answer_status b = EX_UNSUPPORTED_OPERATION"
| "alike_aidl (Q_flush h) a b \<longleftrightarrow> (\<exists>r r' posts. a = S_flushed r posts \<and> b = S_flushed r' posts \<and>
     (r = S_OK \<longleftrightarrow> r' = S_OK))"
| "alike_aidl _ a b \<longleftrightarrow> a = b"

lemma aidl_as_2X:
  "activate_aidl h e s = apfst resultToAStatus (activate_2X h e s)"
  "batch_aidl h t l s = apfst resultToAStatus (batch_2X h t l s)"
  by (simp_all add: activate_aidl_def activate_2X_def batch_aidl_def batch_2X_def on_sensor_def
      sensor_batch_same resultToAStatus_def split: option.split)

lemma flush_aidl_as_2X:
  "snd (fst (flush_aidl stale h s)) = snd (fst (flush_2X stale h s))"
  "snd (flush_aidl stale h s) = snd (flush_2X stale h s)"
  "fst (fst (flush_aidl stale h s)) = S_OK \<longleftrightarrow> fst (fst (flush_2X stale h s)) = OK"
  by (auto simp: flush_aidl_def flush_2X_def on_sensor_def sensor_flush_def sensor_flush_aidl_def
      split: option.split)

lemma mode_aidl_as_2X:
  assumes "same_hal s mh"
  shows "setOperationMode_aidl mode s = resultToAStatus (setOperationMode_2X mode s)"
proof -
  obtain a b where "sm_sensors s = [(1, a), (2, b)]" using assms by (auto simp: same_hal_def)
  then show ?thesis
    by (simp add: setOperationMode_aidl_def setOperationMode_2X_def sensor_setOperationMode_aidl_def
        sensor_setOperationMode_2X_def resultToAStatus_def)
qed

lemma initialize_aidl_as_base:
  "initialize_aidl created flag callback s =
     map_option (apfst resultToAStatus) (initializeBase created flag callback s)"
  by (simp add: initialize_aidl_def initializeBase_def disable_all_def Let_def resultToAStatus_def)

lemma injection_refused_aidl:
  assumes "same_hal s mh" "ev_type ev \<noteq> SENSOR_TYPE_ADDITIONAL_INFO"
  shows "fst (injectSensorData_aidl ev s) \<noteq> S_OK \<and> snd (injectSensorData_aidl ev s) = s"
proof -
  obtain a b where "sm_sensors s = [(1, a), (2, b)]" using assms(1) by (auto simp: same_hal_def)
  then show ?thesis using assms(2)
    by (auto simp: injectSensorData_aidl_def sensor_injectEvent_aidl_def on_sensor_def
        split: option.split)
qed

lemmas aidl_interface_defs = SensorsHalAidl_def HalProxyAidl_def aidl_initialize_def
  configDirectReport_aidl_def registerDirectChannel_aidl_def unregisterDirectChannel_aidl_def

lemma on_proxy_aidl:
  "on_proxy (aidl_activate ops h e) mh = apfst resultToAStatus (on_proxy (proxy_activate ops h e) mh)"
  "on_proxy (aidl_batch ops h t l) mh = apfst resultToAStatus (on_proxy (proxy_batch ops h t l) mh)"
  "on_proxy (aidl_flush ops h) mh =
     apfst (apfst resultToAStatus) (on_proxy (proxy_flush ops h) mh)"
  "on_proxy (aidl_unregisterDirectChannel ops ch) mh =
     apfst resultToAStatus (on_proxy (proxy_unregisterDirectChannel ops ch) mh)"
  by (simp_all add: on_proxy_def aidl_activate_def aidl_batch_def aidl_flush_def
      aidl_unregisterDirectChannel_def split: prod.split)

lemma on_proxy_option_aidl:
  "on_proxy_option (aidl_configDirectReport ops h ch rate) mh =
     map_option (\<lambda>r. apfst (apfst resultToAStatus) (on_proxy (proxy_configDirectReport ops h ch r) mh))
       (convertRateLevel rate)"
  "on_proxy_option (aidl_setOperationMode ops mode) mh =
     map_option (\<lambda>m. apfst resultToAStatus (on_proxy (setOperationMode ops m) mh))
       (convertOperationMode mode)"
  "on_proxy_option (aidl_registerDirectChannel ops mk mem) mh =
     map_option (\<lambda>m. apfst (apfst resultToAStatus) (on_proxy (proxy_registerDirectChannel ops m) mh))
       (convertSharedMemInfo mk mem)"
  "on_proxy_option (aidl_injectSensorData ops rf new old memory ev) mh =
     map_option (\<lambda>e. apfst resultToAStatus
       (on_proxy (proxy_injectSensorData ops new (old (decode_event rf e))) mh))
       (convertToHidlEvent memory ev)"
  by (simp_all add: on_proxy_option_def on_proxy_def aidl_configDirectReport_def
      aidl_setOperationMode_def aidl_registerDirectChannel_def aidl_injectSensorData_def
      split: option.split prod.split)

lemma list_aidl_alike:
  assumes "same_hal s mh"
  shows "aidl_getSensorsList (fst mh) = getSensorsList_aidl s"
  using assms by (auto simp: same_hal_def aidl_getSensorsList_def getSensorsList_aidl_def lists_def)

lemma aidl_request_alike:
  assumes same: "same_hal s mh" and ok: "common pf q"
  shows "\<exists>a s' b mh'. serve_aidl (SensorsHalAidl payload stale) q s = Some (a, s') \<and>
    serve_aidl (HalProxyAidl (bosch_ops stale) subhal_initialize pf) q mh = Some (b, mh') \<and>
    same_hal s' mh' \<and> alike_aidl q a b"
proof (cases q)
  case (Q_activate h e)
  with sensor_calls_alike(1) [OF same, of stale h e] show ?thesis
    by (simp add: aidl_interface_defs on_proxy_aidl aidl_as_2X apfst_def map_prod_def split_beta)
next
  case (Q_batch h t l)
  with sensor_calls_alike(2) [OF same, of stale h t l] show ?thesis
    by (simp add: aidl_interface_defs on_proxy_aidl aidl_as_2X apfst_def map_prod_def split_beta)
next
  case (Q_config h ch rate)
  with ok direct_channel_alike(3) [OF same] same show ?thesis
    by (auto simp: aidl_interface_defs on_proxy_option_aidl resultToAStatus_def)
next
  case (Q_flush h)
  with sensor_calls_alike(3) [OF same, of stale h] show ?thesis
    by (auto simp: aidl_interface_defs on_proxy_aidl flush_aidl_as_2X resultToAStatus_ok apfst_def
        map_prod_def split_beta)
next
  case Q_list
  with same show ?thesis by (simp add: aidl_interface_defs list_aidl_alike)
next
  case (Q_initialize env)
  with initialize_alike [OF same, of "ie_wakelock_flag env" "ie_callback env" "ie_event_flag env"
      "ie_pointer env" stale "ie_write_ok env" "ie_t1 env" "ie_t2 env"] ok
  show ?thesis by (fastforce simp: aidl_interface_defs initialize_aidl_as_base)
next
  case (Q_inject ev)
  then obtain hidl where hidl: "convertToHidlEvent (event_memory pf) ev = Some hidl" using ok by auto
  have "ev_type (sensor_event payload ev) \<noteq> SENSOR_TYPE_ADDITIONAL_INFO"
    using ok Q_inject by (simp add: sensor_event_def)
  from injection_refused_aidl [OF same this] injection_refused(1) [OF same, of stale "to_new_event pf"
      "to_old_event pf (decode_event (read_float pf) hidl)"] hidl
  show ?thesis
    by (simp add: Q_inject aidl_interface_defs on_proxy_option_aidl resultToAStatus_ok
        apfst_def map_prod_def split_beta)
next
  case (Q_register mem)
  with ok direct_channel_alike(1) [OF same] same show ?thesis
    by (auto simp: aidl_interface_defs on_proxy_option_aidl resultToAStatus_def
        registerDirectChannel_2X_def)
next
  case (Q_mode mode)
  then obtain m where m: "convertOperationMode mode = Some m" using ok by auto
  then have "sensor_mode mode = m" by (cases mode) (auto simp: sensor_mode_def convertOperationMode_def)
  with m Q_mode mode_alike [OF same] same show ?thesis
    by (simp add: aidl_interface_defs on_proxy_option_aidl mode_aidl_as_2X)
next
  case (Q_unregister ch)
  with direct_channel_alike(2) [OF same] same show ?thesis
    by (simp add: aidl_interface_defs on_proxy_aidl resultToAStatus_def unregisterDirectChannel_2X_def)
qed

interpretation aidl: service_simulation "serve_aidl (SensorsHalAidl payload stale)"
    "serve_aidl (HalProxyAidl (bosch_ops stale) subhal_initialize pf)" "common pf" same_hal alike_aidl
  for payload stale pf
  by unfold_locales (rule aidl_request_alike)


definition some_aidl_requests :: "aidl_request list" where
  "some_aidl_requests = [Q_initialize some_env, Q_batch 2 20000000 0, Q_activate 2 True, Q_flush 2,
     Q_activate 3 True, Q_activate 0x1000002 True, Q_mode AIDL_DATA_INJECTION, Q_unregister 0]"

lemma some_aidl_answers:
  fixes stale
  defines "on \<equiv> sensor_activate True (sensor_batch_aidl 20000000 (sensor_activate False (Smi240Gyro 2)))"
  shows "fst (main_aidl payload stale True some_aidl_requests) =
    [S_status S_OK, S_status S_OK, S_status S_OK, case_prod S_flushed (sensor_flush_aidl stale on),
     S_status EX_ILLEGAL_ARGUMENT, S_status EX_ILLEGAL_ARGUMENT, S_status EX_ILLEGAL_ARGUMENT,
     S_status EX_UNSUPPORTED_OPERATION]"
  by (simp add: main_aidl_def aidl_main_def join_pool_def some_aidl_requests_def some_env_def
      SensorsHalAidl_def on_def initialize_aidl_def disable_all_def Let_def
      new_SensorsHalAidl_def AddSensor_def activate_aidl_def batch_aidl_def flush_aidl_def
      on_sensor_def setOperationMode_aidl_def sensor_setOperationMode_aidl_def sensor_mode_def
      unregisterDirectChannel_aidl_def split_beta)

definition some_platform :: aidl_platform where
  "some_platform = \<lparr> makeFromAidl = (\<lambda>x. x), read_float = (\<lambda>_. 0), to_new_event = (\<lambda>e. e),
     to_old_event = (\<lambda>e. e), event_memory = replicate 16 0 \<rparr>"


end
