(* ===== verification/Debug_Text.thy ===== *)
theory Debug_Text
  imports Version_Adapters Sysfs
begin

text \<open>
  The text that \<open>HalProxy::debug\<close>, \<open>ISensorsSubHalBase::debug\<close> and \<open>HalProxyAidl::dump\<close> write for
  a bug report.  Its numbers are those of the state: what the dump says of the queue of pending
  events and of the sensors is proved of every reachable state.
\<close>

abbreviation (input) "endl \<equiv> [CHR 0x0A]"

text \<open>A string as \<open>printf\<close> takes it from \<open>c_str\<close>.\<close>

definition c_str :: "string \<Rightarrow> string" where
  "c_str s = takeWhile (\<lambda>c. c \<noteq> CHR 0x00) s"

definition msFromNs :: "int \<Rightarrow> int" where
  "msFromNs nanos = c_div nanos 1000000"

section \<open>The sub-HAL\<close>

text \<open>The handle is \<open>None\<close> when its native handle is null, else the descriptors in it.  The answer
  is the text written, or \<open>None\<close> when \<open>fdopen\<close> fails and \<open>fprintf\<close> gets a null stream.\<close>

definition sensor_lines :: "sensor_info \<Rightarrow> string" where
  "sensor_lines info =
     ''Name: '' @ si_name info @ endl @
     ''Min delay: '' @ show_int (si_minDelay info) @ endl @
     ''Flags: '' @ show_nat (unat (si_flags info)) @ endl"

definition subhal_debug ::
    "bool \<Rightarrow> int list option \<Rightarrow> string list \<Rightarrow> 'x sensor_map_scheme \<Rightarrow> string option" where
  "subhal_debug fdopen_ok fd args s =
     (if fd = None \<or> fd = Some [] then Some []
      else if \<not> fdopen_ok then None
      else Some
        ((if args \<noteq> [] then ''Note: sub-HAL '' @ c_str ''BoschSubHal'' @
            '' currently does not support args. Input arguments are ignored.'' @ endl else []) @
         c_str (''Available sensors:'' @ endl @
           concat (map (\<lambda>e. sensor_lines (mSensorInfo (snd e))) (sm_sensors s)) @ endl)))"

section \<open>The proxy\<close>

definition debug_wakelock :: "int \<Rightarrow> 'e event_queue \<Rightarrow> string" where
  "debug_wakelock now q =
     ''===HalProxy==='' @ endl @
     ''Internal values:'' @ endl @
     ''  Threads are running: '' @ (if mThreadsRun q then ''true'' else ''false'') @ endl @
     ''  Wakelock timeout start time: '' @
       show_int (msFromNs (now - mWakelockTimeoutStartTime q)) @ '' ms ago'' @ endl @
     ''  Wakelock timeout reset time: '' @
       show_int (msFromNs (now - mWakelockTimeoutResetTime q)) @ '' ms ago'' @ endl @
     ''  Wakelock ref count: '' @ show_nat (mWakelockRefCount q) @ endl"

definition pending_line :: "nat \<Rightarrow> string" where
  "pending_line n = ''  # of events on pending write writes queue: '' @ show_nat n @ endl"

definition debug_pending :: "'e event_queue \<Rightarrow> string" where
  "debug_pending q =
     pending_line (mSizePendingWriteEventsQueue q) @
     '' Most events seen on pending write events queue: '' @
       show_nat (mMostEventsObserved q) @ endl @
     (case mPendingWriteEventsQueue q of
        [] \<Rightarrow> []
      | front # _ \<Rightarrow> ''  Size of events list on front of pending writes queue: '' @
          show_nat (length (fst front)) @ endl)"

definition debug_counts :: "'s hal_proxy \<Rightarrow> string" where
  "debug_counts p =
     ''  # of non-dynamic sensors across all subhals: '' @ show_nat (length (mSensors p)) @ endl @
     ''  # of dynamic sensors across all subhals: '' @ show_nat (length (mDynamicSensors p)) @ endl @
     ''SubHals ('' @ show_nat (length (mSubHalList p)) @ ''):'' @ endl"

definition debug_header :: "int \<Rightarrow> 's multihal \<Rightarrow> string" where
  "debug_header now = (\<lambda>(p, q). debug_wakelock now q @ debug_pending q @ debug_counts p)"

text \<open>The loop writes what the stream holds before each sub-HAL writes its own text.\<close>

fun debug_subhals ::
    "('s \<Rightarrow> string) \<Rightarrow> ('s \<Rightarrow> string option) \<Rightarrow> 's list \<Rightarrow> string \<Rightarrow> string option" where
  "debug_subhals getName debug [] stream = Some stream"
| "debug_subhals getName debug (s # ss) stream =
     (case debug s of
        None \<Rightarrow> None
      | Some written \<Rightarrow> map_option
          (\<lambda>rest. stream @ ''  Name: '' @ getName s @ endl @ ''  Debug dump: '' @ endl @ written @ rest)
          (debug_subhals getName debug ss endl))"

definition proxy_debug ::
    "('s \<Rightarrow> string) \<Rightarrow> ('s \<Rightarrow> string option) \<Rightarrow> int \<Rightarrow> int list option \<Rightarrow> 's multihal \<Rightarrow> string option" where
  "proxy_debug getName debug now fd mh =
     (if fd = None \<or> fd = Some [] then Some []
      else debug_subhals getName debug (mSubHalList (fst mh)) (debug_header now mh))"

text \<open>\<open>getName\<close> and \<open>debug\<close> of the wrappers go to the sub-HAL of either version.\<close>

definition loaded_name :: "('i, 'e) convertV2_1 \<Rightarrow> int \<Rightarrow> loaded_subhal \<Rightarrow> string" where
  "loaded_name conv stale s = fst (virtual_call conv stale (\<lambda>w b. (sw_getName w, b)) s)"

definition loaded_debug :: "bool \<Rightarrow> int list option \<Rightarrow> loaded_subhal \<Rightarrow> string option" where
  "loaded_debug fdopen_ok fd s = subhal_debug fdopen_ok fd [] (bosch_of s)"

definition HalProxy_debug ::
    "('i, 'e) convertV2_1 \<Rightarrow> int \<Rightarrow> bool \<Rightarrow> int \<Rightarrow> int list option \<Rightarrow> loaded_subhal multihal \<Rightarrow>
      string option" where
  "HalProxy_debug conv stale fdopen_ok now fd mh =
     proxy_debug (loaded_name conv stale) (loaded_debug fdopen_ok fd) now fd mh"

text \<open>\<open>dump\<close> makes a handle with the one descriptor; \<open>None\<close> is its use when it could not be made.\<close>

definition HalProxyAidl_dump ::
    "('i, 'e) convertV2_1 \<Rightarrow> int \<Rightarrow> bool \<Rightarrow> bool \<Rightarrow> int \<Rightarrow> int \<Rightarrow> loaded_subhal multihal \<Rightarrow>
      string option" where
  "HalProxyAidl_dump conv stale handle_ok fdopen_ok now fd mh =
     (if \<not> handle_ok then None else HalProxy_debug conv stale fdopen_ok now (Some [fd]) mh)"

section \<open>What the dump shows\<close>

lemma debug_subhals_written:
  assumes "debug_subhals getName debug ss stream = Some out"
  shows "prefix stream out \<and> (\<forall>s\<in>set ss. \<exists>written. debug s = Some written \<and> sublist written out)"
  using assms
proof (induction ss arbitrary: stream out)
  case (Cons s ss)
  then obtain written rest where w: "debug s = Some written"
    "debug_subhals getName debug ss endl = Some rest"
    "out = stream @ ''  Name: '' @ getName s @ endl @ ''  Debug dump: '' @ endl @ written @ rest"
    by (auto split: option.splits)
  have out: "out = (stream @ ''  Name: '' @ getName s @ endl @ ''  Debug dump: '' @ endl) @ written @ rest"
    by (simp add: w(3))
  have rest: "sublist rest out" unfolding out sublist_def by (metis append.assoc append_Nil2)
  have "sublist written out" unfolding out by (metis sublist_appendI)
  moreover have "\<exists>written. debug s' = Some written \<and> sublist written out" if "s' \<in> set ss" for s'
    using Cons.IH [OF w(2)] that rest by (meson sublist_order.order_trans)
  moreover have "prefix stream out" unfolding w(3) by simp
  ultimately show ?case using w(1) by auto
qed simp

lemma debug_subhals_total:
  "(\<And>s. s \<in> set ss \<Longrightarrow> debug s \<noteq> None) \<Longrightarrow> debug_subhals getName debug ss stream \<noteq> None"
  by (induction ss arbitrary: stream) (auto split: option.split)

lemma c_str_id: "CHR 0x00 \<notin> set s \<Longrightarrow> c_str s = s"
  unfolding c_str_def by (rule takeWhile_eq_all_conv [THEN iffD2]) auto

text \<open>The pending line tells the true number of events that wait, in every reachable state.\<close>

lemma dump_counts_pending_events:
  assumes "q = run wk limit acts (new_event_queue quantum start)"
    and "HalProxy_debug conv stale fdopen_ok now (Some [fd]) (p, q) = Some out"
  shows "sublist (pending_line (length (waiting q))) out"
proof -
  have "mSizePendingWriteEventsQueue q = length (waiting q)"
    using run_from_start [of wk limit acts quantum start] assms(1) by (simp add: queue_inv_def)
  then have "debug_header now (p, q) = debug_wakelock now q @ pending_line (length (waiting q)) @
      drop (length (pending_line (length (waiting q)))) (debug_pending q) @ debug_counts p"
    by (simp add: debug_header_def debug_pending_def)
  then have "sublist (pending_line (length (waiting q))) (debug_header now (p, q))"
    by (metis sublist_appendI)
  moreover have "prefix (debug_header now (p, q)) out"
    using debug_subhals_written assms(2) by (fastforce simp: HalProxy_debug_def proxy_debug_def)
  ultimately show ?thesis by (meson prefix_imp_sublist sublist_order.order_trans)
qed

text \<open>A dump for a usable descriptor always succeeds and lists every sensor of every sub-HAL.\<close>

lemma sensor_lines_listed:
  assumes "\<forall>e\<in>set (sm_sensors s). CHR 0x00 \<notin> set (si_name (mSensorInfo (snd e)))"
    and "e \<in> set (sm_sensors s)" "subhal_debug True (Some (fd # fds)) args s = Some written"
  shows "sublist (sensor_lines (mSensorInfo (snd e))) written"
proof -
  let ?all = "concat (map (\<lambda>e. sensor_lines (mSensorInfo (snd e))) (sm_sensors s))"
  have nul: "\<not> isdigit CHR 0x00" by (simp add: isdigit_def)
  have nat: "CHR 0x00 \<notin> set (show_nat n)" for n using show_nat_digits [of n] nul by blast
  have digits: "CHR 0x00 \<notin> set (show_nat n)" "CHR 0x00 \<notin> set (show_int i)" for n i
    using nat by (simp_all add: show_int_def)
  have "CHR 0x00 \<notin> set (sensor_lines (mSensorInfo (snd e)))" if "e \<in> set (sm_sensors s)" for e
    using assms(1) that digits by (auto simp: sensor_lines_def)
  then have id: "c_str (''Available sensors:'' @ endl @ ?all @ endl) = ''Available sensors:'' @ endl @ ?all @ endl"
    by (intro c_str_id) auto
  obtain xs ys where "sm_sensors s = xs @ e # ys" using assms(2) by (meson split_list)
  then have "sublist (sensor_lines (mSensorInfo (snd e))) ?all"
    by (simp add: sublist_appendI)
  moreover obtain note_text where "written = note_text @ ''Available sensors:'' @ endl @ ?all @ endl"
    using assms(3) unfolding subhal_debug_def id by (simp only: option.distinct option.inject list.distinct) auto
  then have "written = (note_text @ ''Available sensors:'' @ endl) @ ?all @ endl" by simp
  then have "sublist ?all written" by (metis sublist_appendI)
  ultimately show ?thesis by (meson sublist_order.order_trans)
qed

lemma dump_lists_every_sensor:
  assumes "\<forall>b\<in>set (mSubHalList p). \<forall>e\<in>set (sm_sensors (bosch_of b)).
      CHR 0x00 \<notin> set (si_name (mSensorInfo (snd e)))"
    and "b \<in> set (mSubHalList p)" "e \<in> set (sm_sensors (bosch_of b))"
  shows "\<exists>out. HalProxyAidl_dump conv stale True True now fd (p, q) = Some out \<and>
    sublist (sensor_lines (mSensorInfo (snd e))) out"
proof -
  have "loaded_debug True (Some [fd]) b' \<noteq> None" for b'
    by (simp add: loaded_debug_def subhal_debug_def)
  then obtain out where run: "debug_subhals (loaded_name conv stale) (loaded_debug True (Some [fd]))
      (mSubHalList p) (debug_header now (p, q)) = Some out"
    using debug_subhals_total [of "mSubHalList p" "loaded_debug True (Some [fd])"] by blast
  then have out: "HalProxyAidl_dump conv stale True True now fd (p, q) = Some out"
    by (simp add: HalProxyAidl_dump_def HalProxy_debug_def proxy_debug_def)
  obtain written where "loaded_debug True (Some [fd]) b = Some written" "sublist written out"
    using debug_subhals_written [OF run] assms(2) by blast
  moreover from this sensor_lines_listed [of "bosch_of b" e fd "[]" "[]" written] assms
  have "sublist (sensor_lines (mSensorInfo (snd e))) written" by (simp add: loaded_debug_def)
  ultimately show ?thesis using out by (meson sublist_order.order_trans)
qed

end
