(* ===== verification/Spec2Isabelle.thy ===== *)
theory Spec2Isabelle
  imports Legacy_Client Algo_Log Sensor_Thread Aidl_Queue Aidl_Main Debug_Text
begin

text \<open>
  A verification development for the sensor HAL of the Bosch SMI240, an inertial sensor with an
  accelerometer and a gyroscope.

  \<^bold>\<open>The program.\<close>  The repository holds two generations of the same service.  The legacy HAL
  (\<open>legacy/\<close>) is a C library with two threads: the polling thread reads samples as text from
  sysfs files and puts them on a list shared with the sensord thread, which aligns accelerometer and
  gyroscope samples by time and writes events into a pipe from which the framework reads.  The
  framework chooses sensors and rates through a table of functions.  The newer HALs serve the same
  two sensors through Android's HIDL 2.0/2.1 interfaces (\<open>2.X\<close>, \<open>2.0\<close>, \<open>2.1\<close>), its AIDL
  interface (\<open>aidl\<close>), or as a sub-HAL behind the multi-HAL proxy (\<open>multihal\<close>), which merges
  the sensors of several sub-HALs, sends the framework's calls to the right one, and forwards their
  events with a wake lock held until the framework has seen them.

  \<^bold>\<open>The legacy HAL.\<close>
  \<^item> \<open>Simple_List\<close>: \<open>boschsimple_list.cpp\<close> over a heap of cells; every operation refines a queue
    with a limit (\<open>bq_add\<close>, \<open>bq_mount\<close>), allocation failures and the stale tail pointer included.
  \<^item> \<open>Util_Misc\<close>: \<open>util_misc.c\<close>; the parallel bit counts equal the number of bits that are set.
  \<^item> \<open>Sensor_Constants\<close>, \<open>Sensor_Table\<close>: the enumerations and static tables of
    \<open>sensord_hwcntl.cpp\<close> and its headers.
  \<^item> \<open>Hw_Control\<close>: the configuration store of \<open>sensord_hwcntl.cpp\<close>: the ascending array of
    active sensors refines a set, and batch stores the encoded rate and latency.
  \<^item> \<open>Ap_Control\<close>: the operations of \<open>sensord_hwcntl_implement.cpp\<close> behind the function table;
    they keep \<open>ap_inv\<close>, from which it follows that no call is undefined.
  \<^item> \<open>Sysfs\<close>, \<open>Axis_Remap\<close>: the number parser and \<open>axis_remap.c\<close>.
  \<^item> \<open>Sample_Pipeline\<close>: polling thread, hand-over, alignment and conversion to events
    (\<open>sensord_hwcntl_implement.cpp\<close>, \<open>sensord.cpp\<close>, \<open>sensord_algo.cpp\<close>): no sample is lost but
    by the stated limits and failed allocations, and events carry the scaled values.
  \<^item> \<open>Bosch_Hal\<close>: the operations of \<open>BoschSensor.cpp\<close> and the poll device of \<open>sensors.cpp\<close>.
  \<^item> \<open>Platform_Log\<close>, \<open>Algo_Log\<close>: the log streams of \<open>sensord_pltf.c\<close>, and the data logs that
    \<open>sensord_algo_process\<close> writes beside the events.
  \<^item> \<open>Legacy_Device\<close>: the life of the device, from \<open>open_sensors\<close> through calls to
    \<open>poll__close\<close> and a second open: when a close is defined, and what survives it.
  \<^item> \<open>Legacy_Client\<close>: the test program \<open>legacy/hal/main.cpp\<close> on that device; it ends exactly when an
    event tells it to, which no event of a sample does.

  \<^bold>\<open>The newer HALs.\<close>
  \<^item> \<open>Hal_Types\<close>: the data that crosses the interfaces, and \<open>std::map\<close> as a sorted list.
  \<^item> \<open>Hal_Sensor\<close>: \<open>common/BoschSensors.h\<close>, \<open>hwctl\<close>, and the three copies of the class
    \<open>Sensor\<close>; their run threads post events no closer together than the minimal delay, and the
    three copies compute the same value from the same text.
  \<^item> \<open>Sensor_Thread\<close>: the run thread of a \<open>Sensor\<close> against the thread that calls it, with mutex,
    condition variable and stop flag: one kind of destructor returns under every schedule, the
    other under none.
  \<^item> \<open>Sensors_Hal\<close>: the services that own the sensors (\<open>2.X/Sensors.h\<close>, \<open>SensorsHalAidl\<close>) and
    the Bosch sub-HAL (\<open>multihal/SensorsSubHal\<close>); \<open>hal_reachable\<close> is the set of states that calls,
    posts and the reader thread reach, and the wake-lock counter refines an unbounded one.
  \<^item> \<open>Hal_Proxy\<close>: handles, sensor list, dispatch and modes of \<open>multihal/2.X/HalProxy.cpp\<close>, for
    any sub-HALs; the virtual functions of a sub-HAL are the record \<open>subhal_ops\<close>.
  \<^item> \<open>Event_Queue\<close>: the pending events, the message queue and the wake lock of the same file, with
    the writer thread as two steps that interleave with all others.
  \<^item> \<open>Hal_Callback\<close>: loading the sub-HALs, \<open>initializeCommon\<close> and \<open>HalProxyCallback.cpp\<close>, where
    proxy and queue meet.
  \<^item> \<open>Subhal_Refinement\<close>, \<open>Version_Adapters\<close>: \<open>SubHalWrapper.h\<close>, the version classes of
    \<open>HalProxyCallback.h\<close>, \<open>IHalProxyCallbackWrapper.h\<close> and \<open>SensorsSubHal.h\<close>: a proxy over sub-HALs
    of both versions behaves as one without adapters, and each sub-HAL posts under its own index.
  \<^item> \<open>Aidl_Service\<close>: the members of which \<open>SensorsHalAidl.h\<close> holds copies of its own, equal to those
    of \<open>Sensors_Hal\<close>.
  \<^item> \<open>Debug_Text\<close>: the text of \<open>HalProxy::debug\<close> and of the sub-HALs behind it; the pending events
    that it counts are those that wait, in every reachable state.
  \<^item> \<open>Convert_Utils\<close>, \<open>Hal_Proxy_Aidl\<close>: the conversions of \<open>ConvertUtils.cpp\<close>, and the AIDL
    interface of the proxy, compared call by call with the AIDL service that has none.
  \<^item> \<open>Aidl_Queue\<close>: the wrappers of the AIDL queues and callbacks, and the event path through the
    conversion array of \<open>EventMessageQueueWrapperAidl.h\<close>, which refines \<open>Event_Queue\<close>.
  \<^item> \<open>Service_Base\<close>, \<open>Hidl_Service\<close>, \<open>Aidl_Main\<close>: the programs \<open>service.cpp\<close>, the virtual
    functions of the service classes as records, and the classes that forward to the proxy; the
    programs with and without the proxy answer every sequence of requests alike.

  \<^bold>\<open>Interfaces.\<close>  What the proxy relies on is stated in two locales of \<open>Hal_Proxy\<close>: \<open>mode_switch\<close>
  (an accepted mode is in force, a refused one changes nothing, the way back is open) and
  \<open>sub_hal\<close>, which extends the laws to all calls (none changes the sensors that are reported).
  \<open>Sensors_Hal\<close> interprets both on the Bosch sub-HAL.  \<open>Subhal_Refinement\<close> adds
  \<open>subhal_refinement\<close> (one kind of sub-HAL implements another through a projection of its state)
  and \<open>subhal_frame\<close> (a part of the state that no call changes), which \<open>Version_Adapters\<close>
  interprets on the Bosch sub-HAL with its callback.  \<open>service_simulation\<close> of \<open>Service_Base\<close> (two
  objects answer each request alike and stay related) is interpreted three times: the HIDL service
  and its proxy, the two HIDL versions, the AIDL service and its proxy.  The properties of the composed system rest on
  those instances.

  \<^bold>\<open>Conventions.\<close>  \<open>None\<close> stands for undefined behaviour, an abort, or a wait without end, as the
  section says; a result that the code returns as a negative number or an enumeration is one here.
  The clock, allocations, file contents, the room in a message queue, whether a write succeeds, and
  the power and binder libraries are arguments.  Floating-point values are rationals rounded by
  \<open>f32\<close> and \<open>f64\<close> of \<open>C_Float\<close> (to nearest, ties to even, no overflow, which the values of this
  code cannot reach).  No definition uses fuel: the loops recurse on the data or have a measure, and
  \<open>writer_thread_drains\<close> bounds the rounds of the writer thread by the limit of pending events.
  Threads are step relations (\<open>thread_step\<close>, \<open>hal_step\<close>, the actions of \<open>Event_Queue\<close>), whose
  invariants hold in every reachable state.

  \<^bold>\<open>Not modelled.\<close>  What the platform generates between a client and the virtual functions of a
  service, its thread pools and its registry (whether a registration succeeds is an argument); the
  stubs of \<open>SubHal.h\<close> that only refuse and are never called; log calls other than those of \<open>Legacy_Device\<close> and \<open>Algo_Log\<close>;
  the conversions of \<open>convertV2_1.h\<close>, which is not in the repository and an argument
  with the hypothesis that the two layouts agree; what the signal handler of the legacy HAL
  interrupts; the vendored headers of Android and of the fusion library beyond the constants in
  use; decimal texts with an exponent, for which the text-to-number functions are left open
  (\<open>None\<close>).
\<close>

end
